(* ===== verification/Prelude.thy ===== *)
theory Prelude
  imports Complex_Main "HOL-Library.AList" "HOL-Library.Word"
begin

text \<open>
  Shared vocabulary of the development: Python's exceptions as a datatype, results
  that may raise as a sum, insertion-ordered dictionaries as association lists, and
  a small state-and-exception monad for the effectful operations, together with the
  rules that carry a reflexive and transitive relation through a composed operation.
\<close>

named_theorems dict_simps \<open>lookups after an update or a deletion of a dictionary\<close>
named_theorems run_simps \<open>unfolding of the state-and-exception combinators\<close>

section \<open>Exceptions and results\<close>

text \<open>
  The exception classes the sources raise or catch. The message is kept where the
  code reads it back (\<open>str(cause)\<close>). \<open>DecodeError\<close> stands for the subclasses
  of \<open>ValueError\<close> raised by the standard library's decoders (\<open>JSONDecodeError\<close>,
  \<open>binascii.Error\<close>, \<open>UnicodeDecodeError\<close>), \<open>AppError\<close> for whatever a
  registered application callback raises.
\<close>

datatype exn =
    ValueError string
  | DecodeError
  | KeyError string
  | TypeError
  | AttributeError string
  | AssertionError
  | ConnectionError string
  | OSError
  | TimeoutError
  | IncompleteReadError
  | InvalidTag
  | InvalidSignature
  | AppError string

text \<open>\<open>except ValueError\<close> also catches the decoders' subclasses.\<close>

fun is_value_error :: "exn \<Rightarrow> bool" where
  "is_value_error (ValueError _) = True"
| "is_value_error DecodeError = True"
| "is_value_error _ = False"

text \<open>\<open>ConnectionError\<close> and (since Python 3.11) \<open>asyncio.TimeoutError\<close> are subclasses of \<open>OSError\<close>.\<close>

fun is_os_error :: "exn \<Rightarrow> bool" where
  "is_os_error (ConnectionError _) = True"
| "is_os_error OSError = True"
| "is_os_error TimeoutError = True"
| "is_os_error _ = False"

type_synonym 'a result = "exn + 'a"

definition bindE :: "'a result \<Rightarrow> ('a \<Rightarrow> 'b result) \<Rightarrow> 'b result" where
  "bindE r f = (case r of Inl e \<Rightarrow> Inl e | Inr x \<Rightarrow> f x)"

lemma bindE_simps [simp]:
  "bindE (Inl e) f = Inl e"
  "bindE (Inr x) f = f x"
  by (simp_all add: bindE_def)

lemma bindE_eq_Inr: "bindE r f = Inr y \<longleftrightarrow> (\<exists>x. r = Inr x \<and> f x = Inr y)"
  by (cases r) auto

lemma bindE_eq_Inl: "bindE r f = Inl e \<longleftrightarrow> r = Inl e \<or> (\<exists>x. r = Inr x \<and> f x = Inl e)"
  by (cases r) auto

section \<open>Dictionaries\<close>

text \<open>
  A Python dictionary keeps its insertion order, and the code iterates over its
  dictionaries, so a dictionary is an association list with distinct keys. Assignment
  updates in place or appends, as \<^const>\<open>AList.update\<close> does.
\<close>

type_synonym ('k, 'v) dict = "('k \<times> 'v) list"

abbreviation dget :: "('k, 'v) dict \<Rightarrow> 'k \<Rightarrow> 'v option" where
  "dget d k \<equiv> map_of d k"

abbreviation dput :: "'k \<Rightarrow> 'v \<Rightarrow> ('k, 'v) dict \<Rightarrow> ('k, 'v) dict" where
  "dput k v d \<equiv> AList.update k v d"

abbreviation dpop :: "'k \<Rightarrow> ('k, 'v) dict \<Rightarrow> ('k, 'v) dict" where
  "dpop k d \<equiv> AList.delete k d"

abbreviation dkeys :: "('k, 'v) dict \<Rightarrow> 'k list" where
  "dkeys d \<equiv> map fst d"

abbreviation dvalues :: "('k, 'v) dict \<Rightarrow> 'v list" where
  "dvalues d \<equiv> map snd d"

text \<open>\<open>d.get(k, default)\<close> and \<open>d.setdefault(k, default)\<close>.\<close>

definition dget_or :: "('k, 'v) dict \<Rightarrow> 'k \<Rightarrow> 'v \<Rightarrow> 'v" where
  "dget_or d k v = (case dget d k of None \<Rightarrow> v | Some w \<Rightarrow> w)"

definition dsetdefault :: "'k \<Rightarrow> 'v \<Rightarrow> ('k, 'v) dict \<Rightarrow> ('k, 'v) dict" where
  "dsetdefault k v d = (case dget d k of None \<Rightarrow> dput k v d | Some _ \<Rightarrow> d)"

text \<open>\<open>{**a, **b}\<close>: the entries of \<open>b\<close> assigned one by one into a copy of \<open>a\<close>.\<close>

definition dmerge :: "('k, 'v) dict \<Rightarrow> ('k, 'v) dict \<Rightarrow> ('k, 'v) dict" where
  "dmerge a b = fold (\<lambda>(k, v) d. dput k v d) b a"

definition wf_dict :: "('k, 'v) dict \<Rightarrow> bool" where
  "wf_dict d \<longleftrightarrow> distinct (dkeys d)"

lemma dget_dput [simp, dict_simps]: "dget (dput k v d) k' = (if k = k' then Some v else dget d k')"
  by (simp add: update_conv')

lemma dget_dpop [simp, dict_simps]: "dget (dpop k d) k' = (if k = k' then None else dget d k')"
  by (simp add: delete_conv')

lemma dget_or_dput [simp, dict_simps]:
  "dget_or (dput k v d) k' w = (if k = k' then v else dget_or d k' w)"
  by (simp add: dget_or_def)

lemma dget_dsetdefault [simp, dict_simps]:
  "dget (dsetdefault k v d) k' =
     (if k = k' then Some (dget_or d k v) else dget d k')"
  by (simp add: dsetdefault_def dget_or_def split: option.splits)

lemma dget_or_dsetdefault [simp, dict_simps]: "dget_or (dsetdefault k v d) k' v = dget_or d k' v"
  by (simp add: dget_or_def split: option.split)

lemma wf_dict_Nil [simp, intro!]: "wf_dict []"
  by (simp add: wf_dict_def)

lemma wf_dict_dput [simp, intro]: "wf_dict d \<Longrightarrow> wf_dict (dput k v d)"
  by (simp add: wf_dict_def distinct_update)

lemma wf_dict_dpop [simp, intro]: "wf_dict d \<Longrightarrow> wf_dict (dpop k d)"
  by (simp add: wf_dict_def distinct_delete)

lemma wf_dict_filter [simp, intro]: "wf_dict d \<Longrightarrow> wf_dict (filter P d)"
  by (simp add: wf_dict_def distinct_map_filter)

lemma wf_dict_dget: "wf_dict d \<Longrightarrow> (k, v) \<in> set d \<longleftrightarrow> dget d k = Some v"
  by (auto simp: wf_dict_def map_of_is_SomeI dest: map_of_SomeD)

lemma dget_filter:
  "wf_dict d \<Longrightarrow> dget (filter P d) k = (case dget d k of None \<Rightarrow> None | Some v \<Rightarrow> if P (k, v) then Some v else None)"
proof (induction d)
  case Nil
  then show ?case by simp
next
  case (Cons p d)
  then have "wf_dict d" and "fst p \<notin> fst ` set d"
    by (auto simp: wf_dict_def)
  with Cons.IH show ?case
    by (cases p) (auto simp: map_of_eq_None_iff split: option.splits)
qed

lemma dget_filter_None: "dget d k = None \<Longrightarrow> dget (filter P d) k = None"
  by (induction d) (auto split: if_splits)

lemma set_dput: "set (dput k v d) \<subseteq> insert (k, v) (set d)"
  by (induction d) auto

lemma dget_in_dvalues: "dget d k = Some v \<Longrightarrow> v \<in> set (dvalues d)"
  by (force dest: map_of_SomeD)

section \<open>Effects: state and exceptions\<close>

text \<open>
  An effectful operation maps a state to a result and the state it leaves behind. The
  state survives an exception, as the mutations a Python function has made before it
  raises do.
\<close>

type_synonym ('s, 'a) act = "'s \<Rightarrow> 'a result \<times> 's"

definition ret :: "'a \<Rightarrow> ('s, 'a) act" where
  "ret x s = (Inr x, s)"

definition throw :: "exn \<Rightarrow> ('s, 'a) act" where
  "throw e s = (Inl e, s)"

definition gets :: "('s \<Rightarrow> 'a) \<Rightarrow> ('s, 'a) act" where
  "gets f s = (Inr (f s), s)"

definition modify :: "('s \<Rightarrow> 's) \<Rightarrow> ('s, unit) act" where
  "modify f s = (Inr (), f s)"

definition liftE :: "'a result \<Rightarrow> ('s, 'a) act" where
  "liftE r s = (r, s)"

definition andthen :: "('s, 'a) act \<Rightarrow> ('a \<Rightarrow> ('s, 'b) act) \<Rightarrow> ('s, 'b) act" where
  "andthen m f s = (case m s of (Inl e, t) \<Rightarrow> (Inl e, t) | (Inr x, t) \<Rightarrow> f x t)"

definition whenA :: "bool \<Rightarrow> ('s, unit) act \<Rightarrow> ('s, unit) act" where
  "whenA b m = (if b then m else ret ())"

text \<open>\<open>try: m except: h\<close> (the handler re-raises what its clauses do not name) and \<open>try: m finally: h\<close>.\<close>

definition catch :: "('s, 'a) act \<Rightarrow> (exn \<Rightarrow> ('s, 'a) act) \<Rightarrow> ('s, 'a) act" where
  "catch m h s = (case m s of (Inl e, t) \<Rightarrow> h e t | (Inr x, t) \<Rightarrow> (Inr x, t))"

definition ensuring :: "('s, 'a) act \<Rightarrow> ('s, unit) act \<Rightarrow> ('s, 'a) act" where
  "ensuring m h s =
     (case m s of (r, t) \<Rightarrow> (case h t of (Inl e, u) \<Rightarrow> (Inl e, u) | (Inr _, u) \<Rightarrow> (r, u)))"

text \<open>\<open>for x in xs: f(x)\<close>, stopped by the first exception.\<close>

primrec each :: "('b \<Rightarrow> ('s, unit) act) \<Rightarrow> 'b list \<Rightarrow> ('s, unit) act" where
  "each f [] = ret ()"
| "each f (x # xs) = andthen (f x) (\<lambda>_. each f xs)"

lemma run_basic [simp, run_simps]:
  "ret x s = (Inr x, s)"
  "throw e s = (Inl e, s)"
  "gets f s = (Inr (f s), s)"
  "modify g s = (Inr (), g s)"
  "liftE r s = (r, s)"
  by (simp_all add: ret_def throw_def gets_def modify_def liftE_def)

lemma run_andthen [run_simps]:
  "andthen m f s = (case m s of (Inl e, t) \<Rightarrow> (Inl e, t) | (Inr x, t) \<Rightarrow> f x t)"
  by (fact andthen_def)

lemma andthen_Inr: "andthen m f s = (Inr x, t) \<longleftrightarrow> (\<exists>y u. m s = (Inr y, u) \<and> f y u = (Inr x, t))"
  by (auto simp: andthen_def split: prod.splits sum.splits)

lemma andthen_basic [simp]:
  "andthen (ret x) f s = f x s"
  "andthen (throw e) f s = (Inl e, s)"
  "andthen (gets h) f s = f (h s) s"
  "andthen (modify g) f' s = f' () (g s)"
  "andthen (liftE (Inr x)) f s = f x s"
  "andthen (liftE (Inl e)) f s = (Inl e, s)"
  by (simp_all add: andthen_def)

lemma whenA_simps [simp, run_simps]:
  "whenA True m = m"
  "whenA False m = ret ()"
  by (simp_all add: whenA_def)

text \<open>\<open>stays R m\<close>: every run of \<open>m\<close>, whether it returns or raises, relates its start to its end by \<open>R\<close>.\<close>

definition stays :: "('s \<Rightarrow> 's \<Rightarrow> bool) \<Rightarrow> ('s, 'a) act \<Rightarrow> bool" where
  "stays R m \<longleftrightarrow> (\<forall>s. R s (snd (m s)))"

lemma staysD: "stays R m \<Longrightarrow> m s = (r, t) \<Longrightarrow> R s t"
  by (auto simp: stays_def dest: spec [of _ s])

lemma stays_at: "stays R m \<Longrightarrow> R s (snd (m s))"
  by (simp add: stays_def)

text \<open>
  The interface shared by every frame and invariant argument: a relation on states that
  each primitive operation keeps. Composition then comes once and for all.
\<close>

locale effect_relation =
  fixes R :: "'s \<Rightarrow> 's \<Rightarrow> bool"
  assumes R_refl: "R s s"
    and R_trans: "R s t \<Longrightarrow> R t u \<Longrightarrow> R s u"
begin

lemma stays_basic:
  "stays R (ret x)"
  "stays R (throw e)"
  "stays R (gets f)"
  "stays R (liftE r)"
  by (simp_all add: stays_def R_refl)

text \<open>Reading the state, also where the reading may raise.\<close>

lemma stays_read: "stays R (\<lambda>s. (f s, s))"
  by (simp add: stays_def R_refl)

lemma stays_state: "(\<And>s. R s (g s)) \<Longrightarrow> stays R (\<lambda>s. (f s, g s))"
  by (simp add: stays_def)

text \<open>An operation whose description depends on the state it starts in.\<close>

lemma stays_dep: "(\<And>s0. stays R (m s0)) \<Longrightarrow> stays R (\<lambda>s. m s s)"
  by (simp add: stays_def)

lemma stays_modify: "(\<And>s. R s (g s)) \<Longrightarrow> stays R (modify g)"
  by (simp add: stays_def)

lemma stays_andthen:
  assumes "stays R m" and "\<And>x. stays R (f x)"
  shows "stays R (andthen m f)"
  unfolding stays_def
proof
  fix s
  obtain r t where m: "m s = (r, t)" by (cases "m s")
  with assms(1) have "R s t" by (rule staysD)
  with m assms(2) show "R s (snd (andthen m f s))"
    by (cases r) (auto simp: andthen_def stays_def intro: R_trans)
qed

lemma stays_whenA: "(b \<Longrightarrow> stays R m) \<Longrightarrow> stays R (whenA b m)"
  by (cases b) (simp_all add: stays_basic)

lemma stays_catch:
  assumes "stays R m" and "\<And>e. stays R (h e)"
  shows "stays R (catch m h)"
  unfolding stays_def
proof
  fix s
  obtain r t where m: "m s = (r, t)" by (cases "m s")
  with assms(1) have "R s t" by (rule staysD)
  with m assms(2) show "R s (snd (catch m h s))"
    by (cases r) (auto simp: catch_def stays_def intro: R_trans)
qed

lemma stays_ensuring:
  assumes "stays R m" and "stays R h"
  shows "stays R (ensuring m h)"
  unfolding stays_def
proof
  fix s
  obtain r t where m: "m s = (r, t)" by (cases "m s")
  obtain r' u where h: "h t = (r', u)" by (cases "h t")
  have "R s u"
    using staysD [OF assms(1) m] staysD [OF assms(2) h] by (rule R_trans)
  with m h show "R s (snd (ensuring m h s))"
    by (cases r') (simp_all add: ensuring_def)
qed

lemma stays_each: "(\<And>x. x \<in> set xs \<Longrightarrow> stays R (f x)) \<Longrightarrow> stays R (each f xs)"
  by (induction xs) (auto simp: stays_basic intro: stays_andthen)

lemma stays_if: "stays R m \<Longrightarrow> stays R m' \<Longrightarrow> stays R (if b then m else m')"
  by simp

lemma stays_option:
  "stays R m \<Longrightarrow> (\<And>x. stays R (f x)) \<Longrightarrow> stays R (case v of None \<Rightarrow> m | Some x \<Rightarrow> f x)"
  by (cases v) simp_all

lemma stays_prod: "(\<And>x y. stays R (g x y)) \<Longrightarrow> stays R (case p of (x, y) \<Rightarrow> g x y)"
  by (cases p) simp

lemmas stays_rules =
  stays_basic stays_read stays_andthen stays_whenA stays_catch stays_ensuring stays_each
  stays_if stays_option stays_prod

text \<open>A run over any list of operations keeps the relation.\<close>

lemma stays_runs:
  assumes "\<And>e. stays R (step e)"
  shows "R s (foldl (\<lambda>s e. snd (step e s)) s es)"
proof (induction es arbitrary: s)
  case Nil
  then show ?case by (simp add: R_refl)
next
  case (Cons e es)
  have "R s (snd (step e s))"
    using assms [of e] by (simp add: stays_def)
  then show ?case using Cons.IH [of "snd (step e s)"] by (auto intro: R_trans)
qed

end

text \<open>Keeping an invariant is such a relation, whatever the invariant.\<close>

definition keeping :: "('s \<Rightarrow> bool) \<Rightarrow> 's \<Rightarrow> 's \<Rightarrow> bool" where
  "keeping P s t \<longleftrightarrow> (P s \<longrightarrow> P t)"

interpretation keeping: effect_relation "keeping P" for P
  by unfold_locales (auto simp: keeping_def)

end
