(* ===== verification/PyValue.thy ===== *)
theory PyValue
  imports Prelude
begin

text \<open>
  The values that cross the sockets: what \<open>json.loads\<close> returns, with the Python
  operations the sources apply to them (truth value, \<open>isinstance\<close> tests, equality
  with a constant, dictionary keys, \<open>str()\<close> and \<open>json.dumps\<close>).

  Text is a list of \<^typ>\<open>char\<close>, so a string holds code points 0 to 255 and its
  length is Python's. A float is kept as its decimal literal and compared by the
  exact value of that literal; rounding to binary64 and the non-finite literals are
  not represented.
\<close>

section \<open>JSON values\<close>

datatype json =
    JNull
  | JBool bool
  | JInt int
  | JFloat string
  | JStr string
  | JList "json list"
  | JObj "(string \<times> json) list"

type_synonym jdict = "(string, json) dict"

section \<open>Decimal text\<close>

definition digit_char :: "nat \<Rightarrow> char" where
  "digit_char d = char_of (48 + d)"

definition is_digit :: "char \<Rightarrow> bool" where
  "is_digit c \<longleftrightarrow> 48 \<le> (of_char c :: nat) \<and> of_char c \<le> (57 :: nat)"

definition digit_val :: "char \<Rightarrow> nat" where
  "digit_val c = of_char c - 48"

fun nat_str :: "nat \<Rightarrow> string" where
  "nat_str n = (if n < 10 then [digit_char n] else nat_str (n div 10) @ [digit_char (n mod 10)])"

declare nat_str.simps [simp del]

definition int_str :: "int \<Rightarrow> string" where
  "int_str i = (if i < 0 then CHR ''-'' # nat_str (nat (- i)) else nat_str (nat i))"

definition digits_val :: "string \<Rightarrow> nat" where
  "digits_val = foldl (\<lambda>n c. 10 * n + digit_val c) 0"

text \<open>A numeral literal: sign, integer digits, fraction digits, exponent.\<close>

definition split_at :: "(char \<Rightarrow> bool) \<Rightarrow> string \<Rightarrow> string \<times> string" where
  "split_at P s = (takeWhile (\<lambda>c. \<not> P c) s, drop 1 (dropWhile (\<lambda>c. \<not> P c) s))"

definition signed_digits :: "string \<Rightarrow> int" where
  "signed_digits s =
     (case s of
        CHR ''-'' # ds \<Rightarrow> - int (digits_val ds)
      | CHR ''+'' # ds \<Rightarrow> int (digits_val ds)
      | ds \<Rightarrow> int (digits_val ds))"

definition ten_power :: "int \<Rightarrow> rat" where
  "ten_power e = (if e < 0 then 1 / 10 ^ nat (- e) else 10 ^ nat e)"

definition float_val :: "string \<Rightarrow> rat" where
  "float_val s =
     (let (neg, body) = (case s of CHR ''-'' # b \<Rightarrow> (True, b) | b \<Rightarrow> (False, b));
          (mant, ex) = split_at (\<lambda>c. c = CHR ''e'' \<or> c = CHR ''E'') body;
          (ip, fp) = split_at (\<lambda>c. c = CHR ''.'') mant;
          m = of_nat (digits_val (ip @ fp)) * ten_power (signed_digits ex - int (length fp))
      in if neg then - m else m)"

section \<open>Truth, types and equality\<close>

fun truthy :: "json \<Rightarrow> bool" where
  "truthy JNull = False"
| "truthy (JBool b) = b"
| "truthy (JInt i) = (i \<noteq> 0)"
| "truthy (JFloat t) = (float_val t \<noteq> 0)"
| "truthy (JStr s) = (s \<noteq> [])"
| "truthy (JList xs) = (xs \<noteq> [])"
| "truthy (JObj d) = (d \<noteq> [])"

fun is_str :: "json \<Rightarrow> bool" where
  "is_str (JStr _) = True"
| "is_str _ = False"

lemma is_strE:
  assumes "is_str v"
  obtains t where "v = JStr t"
  using assms by (cases v) auto

fun is_dict :: "json \<Rightarrow> bool" where
  "is_dict (JObj _) = True"
| "is_dict _ = False"

fun is_list :: "json \<Rightarrow> bool" where
  "is_list (JList _) = True"
| "is_list _ = False"

text \<open>\<open>isinstance(v, int) and not isinstance(v, bool)\<close>: a Python \<open>bool\<close> is an \<open>int\<close>.\<close>

fun is_plain_int :: "json \<Rightarrow> bool" where
  "is_plain_int (JInt _) = True"
| "is_plain_int _ = False"

fun str_of :: "json \<Rightarrow> string option" where
  "str_of (JStr s) = Some s"
| "str_of _ = None"

fun obj_of :: "json \<Rightarrow> jdict option" where
  "obj_of (JObj d) = Some d"
| "obj_of _ = None"

text \<open>The number a value compares as: \<open>True == 1 == 1.0\<close> in Python.\<close>

fun num_val :: "json \<Rightarrow> rat option" where
  "num_val (JBool b) = Some (if b then 1 else 0)"
| "num_val (JInt i) = Some (of_int i)"
| "num_val (JFloat t) = Some (float_val t)"
| "num_val _ = None"

definition eq_int :: "json \<Rightarrow> int \<Rightarrow> bool" where
  "eq_int v i \<longleftrightarrow> num_val v = Some (of_int i)"

definition eq_str :: "json \<Rightarrow> string \<Rightarrow> bool" where
  "eq_str v s \<longleftrightarrow> v = JStr s"

lemma eq_int_simps [simp]:
  "eq_int (JInt j) i \<longleftrightarrow> j = i"
  "\<not> eq_int JNull i"
  "\<not> eq_int (JStr s) i"
  "\<not> eq_int (JList xs) i"
  "\<not> eq_int (JObj d) i"
  by (simp_all add: eq_int_def)

lemma eq_str_simps [simp]:
  "eq_str (JStr t) s \<longleftrightarrow> t = s"
  "\<not> eq_str JNull s"
  "\<not> eq_str (JBool b) s"
  "\<not> eq_str (JInt i) s"
  "\<not> eq_str (JFloat f) s"
  "\<not> eq_str (JList xs) s"
  "\<not> eq_str (JObj d) s"
  by (simp_all add: eq_str_def)

text \<open>Only hashable values can be dictionary keys; a list or a dictionary raises \<open>TypeError\<close>.\<close>

fun hashable :: "json \<Rightarrow> bool" where
  "hashable (JList _) = False"
| "hashable (JObj _) = False"
| "hashable _ = True"

definition key_eq :: "json \<Rightarrow> json \<Rightarrow> bool" where
  "key_eq a b \<longleftrightarrow> (case num_val a of Some x \<Rightarrow> num_val b = Some x | None \<Rightarrow> a = b)"

lemma key_eq_refl [simp]: "key_eq a a"
  by (simp add: key_eq_def split: option.split)

lemma key_eq_sym: "key_eq a b \<Longrightarrow> key_eq b a"
  by (auto simp: key_eq_def split: option.splits)

lemma key_eq_trans: "key_eq a b \<Longrightarrow> key_eq b c \<Longrightarrow> key_eq a c"
  by (auto simp: key_eq_def split: option.splits)

lemma key_eq_JStr [simp]:
  "key_eq (JStr s) v \<longleftrightarrow> v = JStr s"
  "key_eq v (JStr s) \<longleftrightarrow> v = JStr s"
  by (cases v; auto simp: key_eq_def)+

text \<open>
  A hashable value as dictionaries and tuples see it: two of them are the same key exactly when
  they have the same identity.
\<close>

datatype ident = Text string | Number rat | Nothing

definition ident :: "json \<Rightarrow> ident" where
  "ident v =
     (case num_val v of
        Some x \<Rightarrow> Number x
      | None \<Rightarrow> (case v of JStr s \<Rightarrow> Text s | _ \<Rightarrow> Nothing))"

lemma ident_simps [simp]:
  "ident JNull = Nothing"
  "ident (JBool b) = Number (if b then 1 else 0)"
  "ident (JInt i) = Number (of_int i)"
  "ident (JFloat t) = Number (float_val t)"
  "ident (JStr s) = Text s"
  by (simp_all add: ident_def)

lemma ident_Text [simp]: "ident v = Text s \<longleftrightarrow> v = JStr s"
  by (cases v) (auto simp: ident_def)

lemma ident_eq: "hashable a \<Longrightarrow> hashable b \<Longrightarrow> ident a = ident b \<longleftrightarrow> key_eq a b"
  by (cases a; cases b) (auto simp: key_eq_def split: option.splits if_splits)

section \<open>Attribute access on decoded values\<close>

text \<open>\<open>d.get(k)\<close> with the default \<open>None\<close> or a given one.\<close>

definition jget :: "jdict \<Rightarrow> string \<Rightarrow> json" where
  "jget d k = dget_or d k JNull"

lemma jget_simps [simp]:
  "jget [] k = JNull"
  "jget ((k', v) # d) k = (if k' = k then v else jget d k)"
  by (simp_all add: jget_def dget_or_def)

lemma jget_dput [simp, dict_simps]: "jget (dput k v d) k' = (if k = k' then v else jget d k')"
  by (simp add: jget_def)

lemma jget_dpop [simp, dict_simps]: "jget (dpop k d) k' = (if k = k' then JNull else jget d k')"
  by (simp add: jget_def dget_or_def)

text \<open>\<open>v.get(...)\<close> needs a dictionary: anything else has no such attribute.\<close>

definition as_dict :: "json \<Rightarrow> jdict result" where
  "as_dict v = (case v of JObj d \<Rightarrow> Inr d | _ \<Rightarrow> Inl (AttributeError ''get''))"

lemma as_dict_simps [simp]:
  "as_dict (JObj d) = Inr d"
  "as_dict v = Inr d \<longleftrightarrow> v = JObj d"
  by (auto simp: as_dict_def split: json.splits)

text \<open>\<open>d[k]\<close> raises \<open>KeyError\<close> when the key is missing.\<close>

definition jitem :: "jdict \<Rightarrow> string \<Rightarrow> json result" where
  "jitem d k = (case dget d k of None \<Rightarrow> Inl (KeyError k) | Some v \<Rightarrow> Inr v)"

lemma jitem_simps [simp]:
  "jitem [] k = Inl (KeyError k)"
  "jitem ((k', v) # d) k = (if k' = k then Inr v else jitem d k)"
  by (simp_all add: jitem_def)

end
