(* ===== verification/PyText.thy ===== *)
theory PyText
  imports PyValue
begin

text \<open>
  The text and byte encodings of the standard library that the sources use:
  UTF-8 (\<open>str.encode\<close>), \<open>json.dumps\<close> with compact separators, \<open>json.loads\<close>,
  and \<open>str()\<close> of a decoded value. The parser takes fuel; the length of its input
  is enough (\<open>json_loads\<close> passes more), as the round trip shows.
\<close>

type_synonym bytes = "8 word list"

section \<open>UTF-8 on code points 0 to 255\<close>

definition code :: "char \<Rightarrow> nat" where
  "code c = of_char c"

lemma code_less [simp]: "code c < 256"
  by (simp add: code_def)

lemma char_of_code [simp]: "char_of (code c) = c"
  by (simp add: code_def)

lemma code_char_of [simp]: "n < 256 \<Longrightarrow> code (char_of n) = n"
  by (simp add: code_def)

lemma code_inject: "code a = code b \<Longrightarrow> a = b"
  by (metis char_of_code)

definition utf8_char :: "char \<Rightarrow> bytes" where
  "utf8_char c =
     (if code c < 128 then [of_nat (code c)]
      else [of_nat (192 + code c div 64), of_nat (128 + code c mod 64)])"

definition utf8 :: "string \<Rightarrow> bytes" where
  "utf8 s = concat (map utf8_char s)"

fun utf8_decode :: "bytes \<Rightarrow> string result" where
  "utf8_decode [] = Inr []"
| "utf8_decode (b # bs) =
     (if unat b < 128 then bindE (utf8_decode bs) (\<lambda>s. Inr (char_of (unat b) # s))
      else case bs of
        [] \<Rightarrow> Inl DecodeError
      | b' # bs' \<Rightarrow>
          if (unat b = 194 \<or> unat b = 195) \<and> 128 \<le> unat b' \<and> unat b' < 192
          then bindE (utf8_decode bs')
                 (\<lambda>s. Inr (char_of ((unat b - 192) * 64 + (unat b' - 128)) # s))
          else Inl DecodeError)"

lemma unat_byte [simp]: "n < 256 \<Longrightarrow> unat (of_nat n :: 8 word) = n"
  by (simp add: unat_of_nat take_bit_eq_mod)

lemma byte_less [simp]: "unat (b :: 8 word) < 256"
  using unsigned_less [of b] by simp

lemma utf8_simps [simp]:
  "utf8 [] = []"
  "utf8 (c # s) = utf8_char c @ utf8 s"
  "utf8 (s @ t) = utf8 s @ utf8 t"
  by (simp_all add: utf8_def)

lemma utf8_decode_char: "utf8_decode (utf8_char c @ bs) = bindE (utf8_decode bs) (\<lambda>s. Inr (c # s))"
proof (cases "code c < 128")
  case True
  then show ?thesis by (simp add: utf8_char_def)
next
  case False
  have hi: "code c div 64 = 2 \<or> code c div 64 = 3"
    using False code_less [of c] by arith
  then have b: "unat (of_nat (192 + code c div 64) :: 8 word) = 192 + code c div 64"
    by (intro unat_byte) auto
  have b': "unat (of_nat (128 + code c mod 64) :: 8 word) = 128 + code c mod 64"
    by (intro unat_byte) (use mod_less_divisor [of 64 "code c"] in linarith)
  have "code c div 64 * 64 + code c mod 64 = code c"
    by (rule div_mult_mod_eq)
  with False hi b b' show ?thesis
    unfolding utf8_char_def
    by (auto simp del: of_nat_add)
qed

lemma utf8_roundtrip [simp]: "utf8_decode (utf8 s) = Inr s"
  by (induction s) (simp_all add: utf8_decode_char del: utf8_decode.simps(2))

lemma utf8_inject [simp]: "utf8 s = utf8 t \<longleftrightarrow> s = t"
  by (metis Inr_inject utf8_roundtrip)

text \<open>A NUL byte comes from a NUL character only.\<close>

lemma zero_in_utf8: "(0 :: 8 word) \<in> set (utf8 s) \<longleftrightarrow> CHR 0x00 \<in> set s"
proof -
  have z: "(0 :: 8 word) = of_nat n \<longleftrightarrow> n = 0" if "n < 256" for n
    using unat_byte [OF that] by auto
  have "code c = 0 \<longleftrightarrow> c = CHR 0x00" for c
    using code_inject [of c "CHR 0x00"] by (auto simp: code_def)
  note c0 = this
  have "(0 :: 8 word) \<in> set (utf8_char c) \<longleftrightarrow> c = CHR 0x00" for c
  proof (cases "code c < 128")
    case True
    then have "utf8_char c = [of_nat (code c)]" by (simp only: utf8_char_def if_True)
    with z [of "code c"] c0 show ?thesis by auto
  next
    case False
    define a b where "a = 192 + code c div 64" and "b = 128 + code c mod 64"
    have "code c div 64 < 4"
      using code_less [of c] by (simp add: less_mult_imp_div_less)
    then have "a < 256" "b < 256" "a \<noteq> 0" "b \<noteq> 0"
      using mod_less_divisor [of 64 "code c"] by (simp_all add: a_def b_def)
    moreover have "utf8_char c = [of_nat a, of_nat b]"
      using False by (simp only: utf8_char_def if_False a_def b_def)
    moreover have "c \<noteq> CHR 0x00"
      using False c0 [of c] by auto
    ultimately show ?thesis
      using z [of a] z [of b] by auto
  qed
  then show ?thesis
    by (induction s) auto
qed

section \<open>Quoted strings and \<open>json.dumps\<close>\<close>

definition hex_char :: "nat \<Rightarrow> char" where
  "hex_char d = (if d < 10 then char_of (48 + d) else char_of (87 + d))"

definition hex_val :: "char \<Rightarrow> nat option" where
  "hex_val c =
     (let n = code c in
      if 48 \<le> n \<and> n \<le> 57 then Some (n - 48)
      else if 97 \<le> n \<and> n \<le> 102 then Some (n - 87)
      else if 65 \<le> n \<and> n \<le> 70 then Some (n - 55)
      else None)"

lemma hex_val_char: "d < 16 \<Longrightarrow> hex_val (hex_char d) = Some d"
  by (auto simp: hex_val_def hex_char_def Let_def)

definition json_escape :: "char \<Rightarrow> string" where
  "json_escape c =
     (if c = CHR 0x22 then [CHR 0x5C, CHR 0x22]
      else if c = CHR 0x5C then [CHR 0x5C, CHR 0x5C]
      else if c = CHR 0x0A then [CHR 0x5C, CHR ''n'']
      else if c = CHR 0x0D then [CHR 0x5C, CHR ''r'']
      else if c = CHR 0x09 then [CHR 0x5C, CHR ''t'']
      else if c = CHR 0x0C then [CHR 0x5C, CHR ''f'']
      else if c = CHR 0x08 then [CHR 0x5C, CHR ''b'']
      else if 32 \<le> code c \<and> code c \<le> 126 then [c]
      else [CHR 0x5C, CHR ''u'', CHR ''0'', CHR ''0'', hex_char (code c div 16), hex_char (code c mod 16)])"

definition json_quote :: "string \<Rightarrow> string" where
  "json_quote s = CHR 0x22 # concat (map json_escape s) @ [CHR 0x22]"

fun intercalate :: "'a list \<Rightarrow> 'a list list \<Rightarrow> 'a list" where
  "intercalate sep [] = []"
| "intercalate sep [x] = x"
| "intercalate sep (x # y # xs) = x @ sep @ intercalate sep (y # xs)"

fun json_dumps :: "json \<Rightarrow> string" where
  "json_dumps JNull = ''null''"
| "json_dumps (JBool b) = (if b then ''true'' else ''false'')"
| "json_dumps (JInt i) = int_str i"
| "json_dumps (JFloat t) = t"
| "json_dumps (JStr s) = json_quote s"
| "json_dumps (JList xs) = ''['' @ intercalate '','' (map json_dumps xs) @ '']''"
| "json_dumps (JObj d) =
     ''{'' @ intercalate '','' (map (\<lambda>p. json_quote (fst p) @ '':'' @ json_dumps (snd p)) d) @ ''}''"

text \<open>\<open>sort_keys=True\<close> on a flat object: the entries in the order of their keys.\<close>

fun str_less :: "string \<Rightarrow> string \<Rightarrow> bool" where
  "str_less [] [] = False"
| "str_less [] (_ # _) = True"
| "str_less (_ # _) [] = False"
| "str_less (a # s) (b # t) = (code a < code b \<or> (a = b \<and> str_less s t))"

fun insert_sorted :: "('a \<Rightarrow> string) \<Rightarrow> 'a \<Rightarrow> 'a list \<Rightarrow> 'a list" where
  "insert_sorted f x [] = [x]"
| "insert_sorted f x (y # ys) = (if str_less (f y) (f x) then y # insert_sorted f x ys else x # y # ys)"

definition sort_by_key :: "('a \<Rightarrow> string) \<Rightarrow> 'a list \<Rightarrow> 'a list" where
  "sort_by_key f xs = foldr (insert_sorted f) xs []"

section \<open>\<open>str()\<close> of a decoded value\<close>

definition printable :: "char \<Rightarrow> bool" where
  "printable c \<longleftrightarrow> (32 \<le> code c \<and> code c \<le> 126) \<or> (161 \<le> code c \<and> code c \<noteq> 173)"

definition repr_escape :: "char \<Rightarrow> char \<Rightarrow> string" where
  "repr_escape q c =
     (if c = q \<or> c = CHR 0x5C then [CHR 0x5C, c]
      else if c = CHR 0x0A then [CHR 0x5C, CHR ''n'']
      else if c = CHR 0x0D then [CHR 0x5C, CHR ''r'']
      else if c = CHR 0x09 then [CHR 0x5C, CHR ''t'']
      else if printable c then [c]
      else [CHR 0x5C, CHR ''x'', hex_char (code c div 16), hex_char (code c mod 16)])"

definition str_repr :: "string \<Rightarrow> string" where
  "str_repr s =
     (let q = (if CHR 0x27 \<in> set s \<and> CHR 0x22 \<notin> set s then CHR 0x22 else CHR 0x27)
      in q # concat (map (repr_escape q) s) @ [q])"

fun py_repr :: "json \<Rightarrow> string" where
  "py_repr JNull = ''None''"
| "py_repr (JBool b) = (if b then ''True'' else ''False'')"
| "py_repr (JInt i) = int_str i"
| "py_repr (JFloat t) = t"
| "py_repr (JStr s) = str_repr s"
| "py_repr (JList xs) = ''['' @ intercalate '', '' (map py_repr xs) @ '']''"
| "py_repr (JObj d) =
     ''{'' @ intercalate '', '' (map (\<lambda>p. str_repr (fst p) @ '': '' @ py_repr (snd p)) d) @ ''}''"

definition py_str :: "json \<Rightarrow> string" where
  "py_str v = (case v of JStr s \<Rightarrow> s | _ \<Rightarrow> py_repr v)"

lemma py_str_JStr [simp]: "py_str (JStr s) = s"
  by (simp add: py_str_def)

end
