(* ===== verification/RelayState.thy ===== *)
theory RelayState
  imports PyText "HOL-Library.Sublist"
begin

text \<open>
  \<open>server/appserve_server/core.py\<close>, the durable state of the relay: endpoint records,
  queued envelopes and Wisp registrations, with \<open>load\<close>/\<open>save\<close>, enrolment, the
  one-time administrator claim, access checks and the bounded queues. The file on disk
  is the JSON document it holds (written atomically by rename); I/O errors are not
  represented. Wall-clock seconds are an argument of the operations that read the clock.
\<close>

section \<open>Tables keyed by Python values\<close>

text \<open>
  The interface of a dictionary towards its clients: assignment and removal up to the
  key equality of the language.
\<close>

locale keyed_table =
  fixes same :: "'k \<Rightarrow> 'k \<Rightarrow> bool"
    and look :: "'t \<Rightarrow> 'k \<Rightarrow> 'v option"
    and upd :: "'k \<Rightarrow> 'v \<Rightarrow> 't \<Rightarrow> 't"
    and rem :: "'k \<Rightarrow> 't \<Rightarrow> 't"
  assumes look_upd: "look (upd k v t) k' = (if same k k' then Some v else look t k')"
    and look_rem: "look (rem k t) k' = (if same k k' then None else look t k')"
begin

text \<open>Assigning a list of entries: the last one for a key wins, other keys keep their value.\<close>

lemma look_upds:
  "look (fold (\<lambda>p. upd (fst p) (snd p)) ps t) k =
     (case find (\<lambda>p. same (fst p) k) (rev ps) of Some p \<Rightarrow> Some (snd p) | None \<Rightarrow> look t k)"
proof (induction ps rule: rev_induct)
  case Nil
  then show ?case by simp
next
  case (snoc p ps)
  then show ?case by (simp add: look_upd)
qed

lemma look_rems:
  "look (fold rem ks t) k = (if \<exists>k' \<in> set ks. same k' k then None else look t k)"
  by (induction ks arbitrary: t) (auto simp: look_rem)

lemma look_rem_upd: "same k k' \<Longrightarrow> look (rem k (upd k v t)) k' = None"
  by (simp add: look_rem)

end

interpretation strtab: keyed_table "(=)" dget dput dpop
  by unfold_locales simp_all

type_synonym 'v table = "(json \<times> 'v) list"

fun kget :: "'v table \<Rightarrow> json \<Rightarrow> 'v option" where
  "kget [] k = None"
| "kget ((k', v) # t) k = (if key_eq k' k then Some v else kget t k)"

text \<open>Assigning to an existing key keeps the key object that is there.\<close>

fun kput :: "json \<Rightarrow> 'v \<Rightarrow> 'v table \<Rightarrow> 'v table" where
  "kput k v [] = [(k, v)]"
| "kput k v ((k', w) # t) = (if key_eq k' k then (k', v) # t else (k', w) # kput k v t)"

definition kpop :: "json \<Rightarrow> 'v table \<Rightarrow> 'v table" where
  "kpop k t = filter (\<lambda>p. \<not> key_eq (fst p) k) t"

lemma kget_kput: "kget (kput k v t) k' = (if key_eq k k' then Some v else kget t k')"
  by (induction k v t rule: kput.induct) (auto dest: key_eq_sym key_eq_trans)

lemma set_kput: "w \<in> set (kput k v t) \<Longrightarrow> w \<in> set t \<or> snd w = v \<and> fst w \<in> insert k (fst ` set t)"
  by (induction k v t rule: kput.induct) (auto split: if_splits)

text \<open>Under a key that is text a table is a dictionary.\<close>

lemma kget_text: "kget t (JStr s) = dget t (JStr s)"
  by (induction t "JStr s" rule: kget.induct) auto

lemma kget_kpop: "kget (kpop k t) k' = (if key_eq k k' then None else kget t k')"
proof (induction t)
  case Nil
  then show ?case by (simp add: kpop_def)
next
  case (Cons p t)
  then show ?case by (cases p) (auto simp: kpop_def dest: key_eq_sym key_eq_trans)
qed

interpretation valtab: keyed_table key_eq kget kput kpop
  by unfold_locales (simp_all add: kget_kput kget_kpop)

section \<open>The state\<close>

type_synonym client_id = string

record relay_state =
  max_queue_per_client :: int
  clients :: "(client_id, jdict) dict"
  queues :: "(client_id, jdict list) dict"
  wisps :: "jdict table"
  disk :: "json option"

definition RelayState :: "json option \<Rightarrow> int \<Rightarrow> relay_state" where
  "RelayState d n = \<lparr>max_queue_per_client = n, clients = [], queues = [], wisps = [], disk = d\<rparr>"

text \<open>\<open>json.dumps\<close> turns a key into text.\<close>

fun key_text :: "json \<Rightarrow> string" where
  "key_text (JStr s) = s"
| "key_text v = json_dumps v"

definition snapshot :: "relay_state \<Rightarrow> json" where
  "snapshot s = JObj
     [(''clients'', JObj (map (\<lambda>(k, r). (k, JObj r)) (clients s))),
      (''queues'', JObj (map (\<lambda>(k, q). (k, JList (map JObj q))) (queues s))),
      (''wisps'', JObj (dmerge [] (map (\<lambda>(k, m). (key_text k, JObj m)) (wisps s))))]"

definition save :: "relay_state \<Rightarrow> relay_state" where
  "save s = s\<lparr>disk := Some (snapshot s)\<rparr>"

text \<open>
  Reading the document back into the typed tables. A document of another shape is an
  error here; the code would fail on its first use instead.
\<close>

fun all_results :: "'a result list \<Rightarrow> 'a list result" where
  "all_results [] = Inr []"
| "all_results (r # rs) = bindE r (\<lambda>x. bindE (all_results rs) (\<lambda>xs. Inr (x # xs)))"

definition dict_of_dicts :: "json \<Rightarrow> (string, jdict) dict result" where
  "dict_of_dicts v =
     bindE (as_dict v) (\<lambda>d. all_results (map (\<lambda>(k, w). bindE (as_dict w) (\<lambda>r. Inr (k, r))) d))"

definition list_of_dicts :: "json \<Rightarrow> jdict list result" where
  "list_of_dicts v = (case v of JList xs \<Rightarrow> all_results (map as_dict xs) | _ \<Rightarrow> Inl (AttributeError ''append''))"

definition dict_of_lists :: "json \<Rightarrow> (string, jdict list) dict result" where
  "dict_of_lists v =
     bindE (as_dict v) (\<lambda>d. all_results (map (\<lambda>(k, w). bindE (list_of_dicts w) (\<lambda>q. Inr (k, q))) d))"

definition load :: "relay_state \<Rightarrow> relay_state result" where
  "load s =
     (case disk s of
        None \<Rightarrow> Inr s
      | Some doc \<Rightarrow>
          bindE (as_dict doc) (\<lambda>data.
          bindE (dict_of_dicts (dget_or data ''clients'' (JObj []))) (\<lambda>cs.
          bindE (dict_of_lists (dget_or data ''queues'' (JObj []))) (\<lambda>qs.
          bindE (dict_of_dicts (dget_or data ''wisps'' (JObj []))) (\<lambda>ws.
          Inr (s\<lparr>clients := map (\<lambda>(k, r). (k, dsetdefault ''admin'' (JBool False)
                                                (dsetdefault ''status'' (JStr ''approved'') r))) cs,
                queues := qs,
                wisps := map (\<lambda>(k, m). (JStr k, m)) ws\<rparr>))))))"

section \<open>Endpoint records\<close>

definition key_changed :: "client_id \<Rightarrow> exn" where
  "key_changed cid = ValueError (''client public key changed for '' @ cid)"

definition register_client ::
  "relay_state \<Rightarrow> client_id \<Rightarrow> json \<Rightarrow> bool \<Rightarrow> int \<Rightarrow> unit result \<times> relay_state" where
  "register_client s cid public_key replace wall =
     (let s1 = s\<lparr>clients := dsetdefault cid [] (clients s)\<rparr>;
          record = dget_or (clients s1) cid [];
          known = jget record ''public_key''
      in if known \<noteq> JNull \<and> \<not> key_eq known public_key then (Inl (key_changed cid), s1)
         else
           let record1 = (if replace \<or> known = JNull then dput ''public_key'' public_key record else record);
               record2 = dput ''last_seen'' (JInt wall) record1
           in (Inr (), s1\<lparr>clients := dput cid record2 (clients s1)\<rparr>))"

definition enroll_client ::
  "relay_state \<Rightarrow> client_id \<Rightarrow> json \<Rightarrow> json \<Rightarrow> int \<Rightarrow> string result \<times> relay_state" where
  "enroll_client s cid public_key client_kind wall =
     (case dget (clients s) cid of
        Some record \<Rightarrow>
          if \<not> key_eq (jget record ''public_key'') public_key then (Inl (key_changed cid), s)
          else (Inr (if truthy (jget record ''admin'') then ''admin''
                     else py_str (dget_or record ''status'' (JStr ''pending''))), s)
      | None \<Rightarrow>
          let record = [(''public_key'', public_key), (''client_kind'', client_kind),
                        (''status'', JStr ''pending''), (''admin'', JBool False),
                        (''last_seen'', JInt wall)]
          in (Inr ''pending'', save (s\<lparr>clients := dput cid record (clients s)\<rparr>)))"

definition approved_admin :: "jdict \<Rightarrow> bool" where
  "approved_admin r \<longleftrightarrow> truthy (jget r ''admin'') \<and> eq_str (jget r ''status'') ''approved''"

definition claim_admin :: "relay_state \<Rightarrow> client_id \<Rightarrow> string \<times> relay_state" where
  "claim_admin s cid =
     (case dget (clients s) cid of
        None \<Rightarrow> (''unknown_endpoint'', s)
      | Some record \<Rightarrow>
          if approved_admin record then (''already_admin'', s)
          else if \<exists>r \<in> set (dvalues (clients s)). approved_admin r then (''admin_already_claimed'', s)
          else (''claimed'',
                save (s\<lparr>clients := dput cid
                  (dput ''admin'' (JBool True) (dput ''status'' (JStr ''approved'') record)) (clients s)\<rparr>)))"

definition client_access :: "relay_state \<Rightarrow> client_id \<Rightarrow> json \<Rightarrow> string" where
  "client_access s cid public_key =
     (case dget (clients s) cid of
        None \<Rightarrow> ''unknown_endpoint''
      | Some record \<Rightarrow>
          if \<not> key_eq (jget record ''public_key'') public_key then ''endpoint_key_changed''
          else py_str (dget_or record ''status'' (JStr ''approved'')))"

definition set_client_status ::
  "relay_state \<Rightarrow> client_id \<Rightarrow> string \<Rightarrow> unit result \<times> relay_state" where
  "set_client_status s cid status =
     (if status \<notin> {''approved'', ''rejected'', ''revoked'', ''pending''}
      then (Inl (ValueError ''invalid endpoint status''), s)
      else case dget (clients s) cid of
        None \<Rightarrow> (Inl (KeyError cid), s)
      | Some record \<Rightarrow>
          let record1 = dput ''status'' (JStr status) record;
              record2 = (if status \<noteq> ''approved'' then dput ''admin'' (JBool False) record1 else record1)
          in (Inr (), save (s\<lparr>clients := dput cid record2 (clients s)\<rparr>)))"

section \<open>Queues and registrations\<close>

text \<open>\<open>del q[:-n]\<close>: a slice bound below zero counts from the end.\<close>

definition del_slice :: "int \<Rightarrow> 'a list \<Rightarrow> 'a list" where
  "del_slice n q =
     (let stop = (if - n < 0 then max 0 (int (length q) - n) else - n) in drop (nat stop) q)"

definition queue_envelope :: "relay_state \<Rightarrow> client_id \<Rightarrow> jdict \<Rightarrow> relay_state" where
  "queue_envelope s cid envelope =
     s\<lparr>queues := dput cid
        (del_slice (max_queue_per_client s) (dget_or (queues s) cid [] @ [envelope])) (queues s)\<rparr>"

definition drain :: "relay_state \<Rightarrow> client_id \<Rightarrow> jdict list \<times> relay_state" where
  "drain s cid = (dget_or (queues s) cid [], s\<lparr>queues := dpop cid (queues s)\<rparr>)"

definition remove_wisps_for_owner :: "relay_state \<Rightarrow> string \<Rightarrow> relay_state" where
  "remove_wisps_for_owner s owner =
     s\<lparr>wisps := filter (\<lambda>(_, manifest). \<not> eq_str (jget manifest ''owner'') owner) (wisps s)\<rparr>"

section \<open>Saving and loading\<close>

lemma all_results_map_Inr [simp]: "all_results (map (\<lambda>x. Inr (f x)) xs) = Inr (map f xs)"
  by (induction xs) simp_all

lemma dict_of_dicts_JObj [simp]: "dict_of_dicts (JObj (map (\<lambda>(k, r). (k, JObj r)) d)) = Inr d"
proof -
  have "map (\<lambda>(k, w). bindE (as_dict w) (\<lambda>r. Inr (k, r))) (map (\<lambda>(k, r). (k, JObj r)) d) = map (\<lambda>x. Inr x) d"
    by (induction d) auto
  then show ?thesis
    using all_results_map_Inr [of id d] by (simp add: dict_of_dicts_def del: map_map map_eq_conv)
qed

lemma list_of_dicts_JList [simp]: "list_of_dicts (JList (map JObj q)) = Inr q"
  using all_results_map_Inr [of id q] by (simp add: list_of_dicts_def comp_def)

lemma dict_of_lists_JObj [simp]: "dict_of_lists (JObj (map (\<lambda>(k, q). (k, JList (map JObj q))) d)) = Inr d"
proof -
  have "map (\<lambda>(k, w). bindE (list_of_dicts w) (\<lambda>q. Inr (k, q))) (map (\<lambda>(k, q). (k, JList (map JObj q))) d)
      = map (\<lambda>x. Inr x) d"
    by (induction d) auto
  then show ?thesis
    using all_results_map_Inr [of id d] by (simp add: dict_of_lists_def del: map_map map_eq_conv)
qed

lemma dput_JObj:
  "dput k (JObj m) (map (\<lambda>(k, r). (k, JObj r)) d) = map (\<lambda>(k, r). (k, JObj r)) (dput k m d)"
  by (induction d) auto

definition text_keys :: "jdict table \<Rightarrow> (string, jdict) dict" where
  "text_keys t = dmerge [] (map (\<lambda>(k, m). (key_text k, m)) t)"

lemma dmerge_JObj:
  "dmerge (map (\<lambda>(k, r). (k, JObj r)) d) (map (\<lambda>(k, m). (key_text k, JObj m)) t)
     = map (\<lambda>(k, r). (k, JObj r)) (dmerge d (map (\<lambda>(k, m). (key_text k, m)) t))"
  by (induction t arbitrary: d) (auto simp: dmerge_def dput_JObj)

lemma snapshot_wisps:
  "dmerge [] (map (\<lambda>(k, m). (key_text k, JObj m)) t) = map (\<lambda>(k, r). (k, JObj r)) (text_keys t)"
  using dmerge_JObj [of "[]" t] by (simp add: text_keys_def)

definition with_defaults :: "jdict \<Rightarrow> jdict" where
  "with_defaults r =
     dsetdefault ''admin'' (JBool False) (dsetdefault ''status'' (JStr ''approved'') r)"

text \<open>The state a restarted relay comes up with: a fresh object, then \<open>load\<close>.\<close>

definition restart :: "relay_state \<Rightarrow> relay_state result" where
  "restart s = load (RelayState (disk s) (max_queue_per_client s))"

lemma restart_saved:
  "disk s = Some (snapshot t) \<Longrightarrow>
     restart s = Inr \<lparr>max_queue_per_client = max_queue_per_client s,
       clients = map (\<lambda>(k, r). (k, with_defaults r)) (clients t), queues = queues t,
       wisps = map (\<lambda>(k, m). (JStr k, m)) (text_keys (wisps t)), disk = disk s\<rparr>"
  by (simp add: restart_def load_def RelayState_def snapshot_def dget_or_def snapshot_wisps with_defaults_def)

lemma restart_save:
  "restart (save s) = Inr
     \<lparr>max_queue_per_client = max_queue_per_client s,
      clients = map (\<lambda>(k, r). (k, with_defaults r)) (clients s),
      queues = queues s,
      wisps = map (\<lambda>(k, m). (JStr k, m)) (text_keys (wisps s)),
      disk = Some (snapshot s)\<rparr>"
  using restart_saved [of "save s" s] by (simp add: save_def)

text \<open>A saved relay state survives a restart: every endpoint record comes back with its fields
  (a missing \<open>status\<close> reads as approved and a missing \<open>admin\<close> as false, as the running relay
  already reads them), the queues come back unchanged, and the registrations come back with
  their keys as text.\<close>

theorem save_restart_roundtrip:
  "restart (save s) = Inr
     \<lparr>max_queue_per_client = max_queue_per_client s,
      clients = map (\<lambda>(k, r). (k, with_defaults r)) (clients s),
      queues = queues s,
      wisps = map (\<lambda>(k, m). (JStr k, m)) (text_keys (wisps s)),
      disk = Some (snapshot s)\<rparr>"
  by (rule restart_save)

section \<open>The administrator\<close>

definition admin_ok :: "(client_id, jdict) dict \<Rightarrow> bool" where
  "admin_ok d \<longleftrightarrow>
     (\<forall>k r. dget d k = Some r \<longrightarrow> truthy (jget r ''admin'') \<longrightarrow> eq_str (jget r ''status'') ''approved'') \<and>
     (\<forall>k r k' r'. dget d k = Some r \<longrightarrow> truthy (jget r ''admin'') \<longrightarrow>
        dget d k' = Some r' \<longrightarrow> truthy (jget r' ''admin'') \<longrightarrow> k = k')"

lemma admin_ok_put:
  assumes "admin_ok d"
    and "truthy (jget r ''admin'') \<Longrightarrow> eq_str (jget r ''status'') ''approved''"
    and "\<And>k' r'. truthy (jget r ''admin'') \<Longrightarrow> k' \<noteq> k \<Longrightarrow> dget d k' = Some r' \<Longrightarrow> \<not> truthy (jget r' ''admin'')"
  shows "admin_ok (dput k r d)"
  using assms unfolding admin_ok_def by (auto split: if_splits) (metis)+

lemma admin_ok_put_same:
  assumes "admin_ok d" and "dget_or d k [] = r0"
    and "jget r ''admin'' = jget r0 ''admin''" and "jget r ''status'' = jget r0 ''status''"
  shows "admin_ok (dput k r d)"
proof (rule admin_ok_put [OF assms(1)])
  assume a: "truthy (jget r ''admin'')"
  then have "dget d k = Some r0" using assms(2,3) by (cases "dget d k") (auto simp: dget_or_def)
  with assms(1,3,4) a show "eq_str (jget r ''status'') ''approved''" by (auto simp: admin_ok_def)
next
  fix k' r' assume a: "truthy (jget r ''admin'')" and k': "k' \<noteq> k" "dget d k' = Some r'"
  then have "dget d k = Some r0" using assms(2,3) by (cases "dget d k") (auto simp: dget_or_def)
  with assms(1,3) a k' show "\<not> truthy (jget r' ''admin'')" unfolding admin_ok_def by metis
qed

lemma jget_dsetdefault [simp]:
  "jget (dsetdefault k v d) k' = (if k = k' then dget_or d k v else jget d k')"
  by (simp add: jget_def dget_or_def split: option.split)

lemma with_defaults_admin [simp]:
  "truthy (jget (with_defaults r) ''admin'') = truthy (jget r ''admin'')"
  by (simp add: with_defaults_def) (simp add: dget_or_def jget_def dsetdefault_def split: option.split)

lemma with_defaults_status:
  "eq_str (jget r ''status'') ''approved'' \<Longrightarrow> eq_str (jget (with_defaults r) ''status'') ''approved''"
  by (simp add: with_defaults_def) (auto simp: dget_or_def jget_def eq_str_def split: option.splits)

lemma admin_ok_defaults:
  assumes "admin_ok d"
  shows "admin_ok (map (\<lambda>(k, r). (k, with_defaults r)) d)"
proof -
  have eq: "dget (map (\<lambda>(k, r). (k, with_defaults r)) d) k = map_option with_defaults (dget d k)" for k
    by (induction d) auto
  show ?thesis
    unfolding admin_ok_def eq
  proof (intro conjI allI impI)
    fix k r assume "map_option with_defaults (dget d k) = Some r" "truthy (jget r ''admin'')"
    with assms show "eq_str (jget r ''status'') ''approved''"
      by (auto simp: admin_ok_def intro: with_defaults_status)
  next
    fix k r k' r'
    assume "map_option with_defaults (dget d k) = Some r" "truthy (jget r ''admin'')"
      "map_option with_defaults (dget d k') = Some r'" "truthy (jget r' ''admin'')"
    then obtain q q' where "dget d k = Some q" "dget d k' = Some q'"
      "truthy (jget q ''admin'')" "truthy (jget q' ''admin'')" by auto
    with assms show "k = k'" unfolding admin_ok_def by blast
  qed
qed

text \<open>The invariant holds of the tables in memory and of whatever a restart would load.\<close>

definition admin_inv :: "relay_state \<Rightarrow> bool" where
  "admin_inv s \<longleftrightarrow> admin_ok (clients s) \<and>
     (\<forall>t. restart s = Inr t \<longrightarrow> admin_ok (clients t))"

lemma admin_inv_init: "admin_inv (RelayState None n)"
  by (auto simp: admin_inv_def restart_def load_def RelayState_def admin_ok_def)

lemma admin_inv_save: "admin_ok (clients s) \<Longrightarrow> admin_inv (save s)"
  using restart_save [of s] admin_ok_defaults [of "clients s"]
  by (simp add: admin_inv_def save_def)

lemma admin_inv_frame:
  "admin_inv s \<Longrightarrow> disk t = disk s \<Longrightarrow> max_queue_per_client t = max_queue_per_client s \<Longrightarrow>
     admin_ok (clients t) \<Longrightarrow> admin_inv t"
  by (simp add: admin_inv_def restart_def)

lemma admin_inv_restart:
  assumes "admin_inv s" and "restart s = Inr t"
  shows "admin_inv t"
proof (rule admin_inv_frame [OF assms(1)])
  show "disk t = disk s" "max_queue_per_client t = max_queue_per_client s"
    using assms(2)
    by (auto simp: restart_def load_def RelayState_def bindE_eq_Inr split: option.splits)
  show "admin_ok (clients t)" using assms by (auto simp: admin_inv_def)
qed

lemma admin_inv_ok: "admin_inv s \<Longrightarrow> admin_ok (clients s)"
  by (simp add: admin_inv_def)

lemma register_client_state:
  defines "reg \<equiv> \<lambda>s cid pk replace wall. snd (register_client s cid pk replace wall)"
  shows "reg s cid pk replace wall = s\<lparr>clients := clients (reg s cid pk replace wall)\<rparr>"
    and "clients (reg s cid pk replace wall) = dsetdefault cid [] (clients s) \<or>
      (\<exists>r \<in> {dget_or (clients s) cid [], dput ''public_key'' pk (dget_or (clients s) cid [])}.
         clients (reg s cid pk replace wall) =
           dput cid (dput ''last_seen'' (JInt wall) r) (dsetdefault cid [] (clients s)))"
proof -
  have "dget_or (dsetdefault cid [] (clients s)) cid [] = dget_or (clients s) cid []"
    by (simp add: dget_or_def split: option.split)
  then show "reg s cid pk replace wall = s\<lparr>clients := clients (reg s cid pk replace wall)\<rparr>"
    and "clients (reg s cid pk replace wall) = dsetdefault cid [] (clients s) \<or>
      (\<exists>r \<in> {dget_or (clients s) cid [], dput ''public_key'' pk (dget_or (clients s) cid [])}.
         clients (reg s cid pk replace wall) =
           dput cid (dput ''last_seen'' (JInt wall) r) (dsetdefault cid [] (clients s)))"
    by (simp_all add: reg_def register_client_def Let_def)
qed

lemma register_client_admin:
  assumes "admin_inv s"
  shows "admin_inv (snd (register_client s cid pk replace wall))"
proof -
  let ?d = "dsetdefault cid [] (clients s)"
  have rec: "dget_or ?d cid [] = dget_or (clients s) cid []"
    by (simp add: dget_or_def split: option.split)
  have d: "admin_ok ?d"
    using admin_inv_ok [OF assms]
    by (auto simp: dsetdefault_def intro!: admin_ok_put split: option.split)
  have "admin_ok (dput cid (dput ''last_seen'' w r) ?d)"
    if "r \<in> {dget_or (clients s) cid [], dput ''public_key'' pk (dget_or (clients s) cid [])}" for r w
    by (rule admin_ok_put_same [OF d rec]) (use that in auto)
  with d register_client_state(2) [where s = s and cid = cid and pk = pk and replace = replace and wall = wall]
  have "admin_ok (clients (snd (register_client s cid pk replace wall)))" by auto
  then show ?thesis
    by (subst register_client_state(1), intro admin_inv_frame [OF assms]) simp_all
qed

lemma enroll_client_admin: "admin_inv s \<Longrightarrow> admin_inv (snd (enroll_client s cid pk kind wall))"
  by (auto simp: enroll_client_def split: option.split
      intro!: admin_inv_save admin_ok_put dest: admin_inv_ok)

lemma claim_admin_admin:
  assumes "admin_inv s"
  shows "admin_inv (snd (claim_admin s cid))"
proof (cases "dget (clients s) cid")
  case None
  with assms show ?thesis by (simp add: claim_admin_def)
next
  case (Some r)
  let ?r = "dput ''admin'' (JBool True) (dput ''status'' (JStr ''approved'') r)"
  have "admin_ok (dput cid ?r (clients s))"
    if none: "\<forall>q \<in> set (dvalues (clients s)). \<not> approved_admin q"
  proof (rule admin_ok_put [OF admin_inv_ok [OF assms]])
    fix k' r' assume "dget (clients s) k' = Some r'"
    with none admin_inv_ok [OF assms] dget_in_dvalues show "\<not> truthy (jget r' ''admin'')"
      unfolding admin_ok_def approved_admin_def by metis
  qed simp
  with assms Some show ?thesis
    by (auto simp: claim_admin_def intro!: admin_inv_save)
qed

lemma set_client_status_admin:
  assumes "admin_inv s"
  shows "admin_inv (snd (set_client_status s cid status))"
proof (cases "dget (clients s) cid")
  case None
  with assms show ?thesis by (simp add: set_client_status_def)
next
  case (Some r)
  have "admin_ok (dput cid (dput ''status'' (JStr ''approved'') r) (clients s))"
  proof (rule admin_ok_put [OF admin_inv_ok [OF assms]])
    fix k' r' assume "truthy (jget (dput ''status'' (JStr ''approved'') r) ''admin'')"
      "k' \<noteq> cid" "dget (clients s) k' = Some r'"
    with Some admin_inv_ok [OF assms] show "\<not> truthy (jget r' ''admin'')"
      unfolding admin_ok_def by auto
  qed simp
  moreover have "admin_ok (dput cid (dput ''admin'' (JBool False) (dput ''status'' (JStr st) r)) (clients s))" for st
    by (rule admin_ok_put [OF admin_inv_ok [OF assms]]) simp_all
  ultimately show ?thesis
    using assms Some by (auto simp: set_client_status_def Let_def intro!: admin_inv_save)
qed

section \<open>Histories\<close>

text \<open>
  What happens to a relay state over its life: the operations above in any order, direct
  registration of a manifest, saving, and a crash followed by a restart from disk.
\<close>

datatype state_op =
    RegisterClient client_id json bool int
  | EnrollClient client_id json json int
  | ClaimAdmin client_id
  | SetClientStatus client_id string
  | QueueEnvelope client_id jdict
  | Drain client_id
  | RegisterWisp json jdict
  | RemoveWisp json
  | RemoveWispsForOwner string
  | Save
  | Restart

fun state_step :: "relay_state \<Rightarrow> state_op \<Rightarrow> relay_state" where
  "state_step s (RegisterClient cid pk replace wall) = snd (register_client s cid pk replace wall)"
| "state_step s (EnrollClient cid pk kind wall) = snd (enroll_client s cid pk kind wall)"
| "state_step s (ClaimAdmin cid) = snd (claim_admin s cid)"
| "state_step s (SetClientStatus cid status) = snd (set_client_status s cid status)"
| "state_step s (QueueEnvelope cid e) = queue_envelope s cid e"
| "state_step s (Drain cid) = snd (drain s cid)"
| "state_step s (RegisterWisp k m) = s\<lparr>wisps := kput k m (wisps s)\<rparr>"
| "state_step s (RemoveWisp k) = s\<lparr>wisps := kpop k (wisps s)\<rparr>"
| "state_step s (RemoveWispsForOwner owner) = remove_wisps_for_owner s owner"
| "state_step s Save = save s"
| "state_step s Restart = (case restart s of Inr t \<Rightarrow> t | Inl _ \<Rightarrow> s)"

definition state_run :: "relay_state \<Rightarrow> state_op list \<Rightarrow> relay_state" where
  "state_run = foldl state_step"

lemma state_run_simps [simp]:
  "state_run s [] = s"
  "state_run s (e # es) = state_run (state_step s e) es"
  by (simp_all add: state_run_def)

lemma state_step_admin:
  assumes "admin_inv s"
  shows "admin_inv (state_step s e)"
proof (cases e)
  case Restart
  with assms show ?thesis by (auto split: sum.split intro: admin_inv_restart)
next
  case Save
  with admin_inv_ok [OF assms] show ?thesis by (simp add: admin_inv_save)
next
  case (QueueEnvelope cid env)
  with admin_inv_ok [OF assms] show ?thesis
    by (simp add: queue_envelope_def admin_inv_frame [OF assms])
next
  case (RegisterWisp k m)
  with admin_inv_ok [OF assms] show ?thesis by (simp add: admin_inv_frame [OF assms])
qed (use assms admin_inv_ok [OF assms] in \<open>simp_all add: register_client_admin enroll_client_admin
       claim_admin_admin set_client_status_admin drain_def remove_wisps_for_owner_def
       admin_inv_frame [OF assms]\<close>)

lemma state_run_admin: "admin_inv s \<Longrightarrow> admin_inv (state_run s es)"
  by (induction es arbitrary: s) (simp_all add: state_step_admin)

text \<open>Whatever sequence of operations, saves, crashes and restarts a relay goes through from an
  empty state, at most one endpoint record carries the administrator flag, and a record that
  carries it is approved (\<open>admin_ok\<close>).\<close>

theorem at_most_one_administrator: "admin_ok (clients (state_run (RelayState None n) es))"
  by (rule admin_inv_ok [OF state_run_admin [OF admin_inv_init]])

section \<open>Pinned keys\<close>

definition pinned :: "relay_state \<Rightarrow> client_id \<Rightarrow> json" where
  "pinned s cid = jget (dget_or (clients s) cid []) ''public_key''"

lemma pinned_defaults:
  "jget (dget_or (map (\<lambda>(k, r). (k, with_defaults r)) d) cid []) ''public_key''
    = jget (dget_or d cid []) ''public_key''"
proof -
  have "dget (map (\<lambda>(k, r). (k, with_defaults r)) d) cid = map_option with_defaults (dget d cid)"
    by (induction d) auto
  then show ?thesis
    by (simp add: dget_or_def with_defaults_def split: option.split)
qed

text \<open>The pinned keys of the running relay and those a restart would come up with.\<close>

definition pin_inv :: "client_id \<Rightarrow> json \<Rightarrow> relay_state \<Rightarrow> bool" where
  "pin_inv cid pk s \<longleftrightarrow> key_eq (pinned s cid) pk \<and> (\<forall>t. restart s = Inr t \<longrightarrow> key_eq (pinned t cid) pk)"

lemma pin_inv_frame:
  "pin_inv cid pk s \<Longrightarrow> disk t = disk s \<Longrightarrow> max_queue_per_client t = max_queue_per_client s \<Longrightarrow>
     key_eq (pinned t cid) pk \<Longrightarrow> pin_inv cid pk t"
  by (simp add: pin_inv_def restart_def)

lemma pin_inv_save: "key_eq (pinned s cid) pk \<Longrightarrow> pin_inv cid pk (save s)"
  using restart_save [of s]
  by (simp add: pin_inv_def save_def pinned_def pinned_defaults)

lemma pin_inv_restart:
  assumes "pin_inv cid pk s" and "restart s = Inr t"
  shows "pin_inv cid pk t"
proof (rule pin_inv_frame [OF assms(1)])
  show "disk t = disk s" "max_queue_per_client t = max_queue_per_client s"
    using assms(2) by (auto simp: restart_def load_def RelayState_def bindE_eq_Inr split: option.splits)
  show "key_eq (pinned t cid) pk" using assms by (auto simp: pin_inv_def)
qed

lemma register_client_pin:
  assumes "key_eq (pinned s cid) pk" and "pk \<noteq> JNull"
  shows "key_eq (pinned (snd (register_client s cid' pk' replace wall)) cid) pk"
proof -
  have known: "pinned s cid \<noteq> JNull" using assms by (auto simp: key_eq_def split: option.splits)
  show ?thesis
    using assms known
    by (auto simp: register_client_def Let_def pinned_def dest: key_eq_sym intro: key_eq_trans)
qed

lemma state_step_pin:
  assumes "pin_inv cid pk s" and "pk \<noteq> JNull"
  shows "pin_inv cid pk (state_step s e)"
proof -
  have p: "key_eq (pinned s cid) pk" using assms by (simp add: pin_inv_def)
  then have known: "\<exists>r. dget (clients s) cid = Some r"
    using assms(2) by (auto simp: pinned_def dget_or_def key_eq_def split: option.splits)
  show ?thesis
  proof (cases e)
    case (RegisterClient cid' pk' replace wall)
    have "disk (snd (register_client s cid' pk' replace wall)) = disk s"
      "max_queue_per_client (snd (register_client s cid' pk' replace wall)) = max_queue_per_client s"
      by (subst register_client_state(1), simp)+
    with RegisterClient show ?thesis
      by (auto intro!: pin_inv_frame [OF assms(1)] register_client_pin p assms(2))
  next
    case (EnrollClient cid' pk' kind wall)
    with p known assms(1) show ?thesis
      by (auto simp: enroll_client_def pinned_def split: option.split intro!: pin_inv_save)
  next
    case (ClaimAdmin cid')
    with p assms(1) show ?thesis
      by (auto simp: claim_admin_def pinned_def dget_or_def split: option.split intro!: pin_inv_save)
  next
    case (SetClientStatus cid' status)
    with p assms(1) show ?thesis
      by (auto simp: set_client_status_def Let_def pinned_def dget_or_def split: option.split intro!: pin_inv_save)
  next
    case Restart
    with assms(1) show ?thesis by (auto split: sum.split intro: pin_inv_restart)
  qed (use p in \<open>auto intro!: pin_inv_frame [OF assms(1)] pin_inv_save
        simp: queue_envelope_def drain_def remove_wisps_for_owner_def pinned_def\<close>)
qed

lemma state_run_pin: "pin_inv cid pk s \<Longrightarrow> pk \<noteq> JNull \<Longrightarrow> pin_inv cid pk (state_run s es)"
  by (induction es arbitrary: s) (simp_all add: state_step_pin)

text \<open>An identity key is pinned at enrolment for good: once an endpoint is enrolled with a key, no
  sequence of later operations, saves, crashes and restarts changes the key on record, and
  access with any other key is refused as a changed key.\<close>

theorem enrolled_key_is_pinned:
  assumes "enroll_client s cid pk kind wall = (Inr access, t)" and "dget (clients s) cid = None"
    and "pk \<noteq> JNull"
  shows "key_eq (pinned (state_run t es) cid) pk \<and>
         (\<not> key_eq pk other \<longrightarrow> client_access (state_run t es) cid other = ''endpoint_key_changed'')"
proof -
  have t: "t = save (s\<lparr>clients := dput cid [(''public_key'', pk), (''client_kind'', kind),
      (''status'', JStr ''pending''), (''admin'', JBool False), (''last_seen'', JInt wall)] (clients s)\<rparr>)"
    using assms by (auto simp: enroll_client_def Let_def)
  then have "pin_inv cid pk t"
    by (auto simp: pinned_def intro!: pin_inv_save)
  then have p: "key_eq (pinned (state_run t es) cid) pk"
    using state_run_pin [OF _ assms(3), of cid t es] by (simp add: pin_inv_def)
  then obtain r where r: "dget (clients (state_run t es)) cid = Some r" "key_eq (jget r ''public_key'') pk"
    using assms(3) by (auto simp: pinned_def dget_or_def key_eq_def split: option.splits)
  then have "\<not> key_eq pk other \<Longrightarrow> \<not> key_eq (jget r ''public_key'') other"
    by (meson key_eq_sym key_eq_trans)
  with r have "client_access (state_run t es) cid other = ''endpoint_key_changed''" if "\<not> key_eq pk other"
    using that by (simp add: client_access_def)
  with p show ?thesis by blast
qed

theorem enrolled_key_is_pinned_witness:
  "\<exists>t. enroll_client (RelayState None 200) ''c'' (JStr ''k'') (JStr ''desktop'') 7 = (Inr ''pending'', t) \<and>
    client_access (state_run t [ClaimAdmin ''c'', RegisterClient ''c'' (JStr ''k2'') True 8, Restart]) ''c'' (JStr ''k2'')
      = ''endpoint_key_changed''"
proof -
  obtain t where t: "enroll_client (RelayState None 200) ''c'' (JStr ''k'') (JStr ''desktop'') 7 = (Inr ''pending'', t)"
    by (simp add: enroll_client_def RelayState_def)
  have new: "dget (clients (RelayState None 200)) ''c'' = None" by (simp add: RelayState_def)
  have "JStr ''k'' \<noteq> JNull" "\<not> key_eq (JStr ''k'') (JStr ''k2'')" by (simp_all add: key_eq_def)
  with enrolled_key_is_pinned [OF t new, where other = "JStr ''k2''"] t show ?thesis by blast
qed

section \<open>Queues\<close>

lemma del_slice_last:
  assumes "0 < n"
  shows "del_slice n q = drop (length q - nat n) q"
proof -
  have "nat (max 0 (int (length q) - n)) = length q - nat n" using assms by linarith
  with assms show ?thesis by (simp add: del_slice_def)
qed

lemma del_slice_drop_append:
  assumes "0 < n"
  shows "del_slice n (drop (length q - nat n) q @ [e]) = drop (length (q @ [e]) - nat n) (q @ [e])"
proof (cases "length q \<le> nat n")
  case True
  with assms show ?thesis by (simp add: del_slice_last)
next
  case False
  then have "Suc (length q) - nat n = Suc (length q - nat n)" by simp
  with False assms show ?thesis by (simp add: del_slice_last Suc_diff_le)
qed

definition queued :: "relay_state \<Rightarrow> client_id \<Rightarrow> jdict list" where
  "queued s cid = dget_or (queues s) cid []"

lemma queued_envelope [simp]:
  "queued (queue_envelope s cid e) cid' =
     (if cid = cid' then del_slice (max_queue_per_client s) (queued s cid @ [e]) else queued s cid')"
  by (simp add: queued_def queue_envelope_def)

lemma queue_envelope_bound [simp]:
  "max_queue_per_client (queue_envelope s cid e) = max_queue_per_client s"
  by (simp add: queue_envelope_def)

lemma queued_envelopes:
  assumes "0 < max_queue_per_client s" and "dget (queues s) cid = None"
  shows "queued (foldl (\<lambda>s e. queue_envelope s cid e) s es) cid
           = drop (length es - nat (max_queue_per_client s)) es \<and>
         max_queue_per_client (foldl (\<lambda>s e. queue_envelope s cid e) s es) = max_queue_per_client s"
proof (induction es rule: rev_induct)
  case Nil
  with assms(2) show ?case by (simp add: queued_def dget_or_def)
next
  case (snoc e es)
  with assms(1) show ?case
    by (simp add: del_slice_drop_append del: drop_append)
qed

text \<open>A queue is bounded and keeps the newest envelopes in order: after any envelopes have been
  queued for an endpoint, draining returns exactly the last \<open>max_queue_per_client\<close> of them,
  oldest first, and leaves the queue empty, so that a second drain returns nothing.\<close>

theorem drain_returns_newest:
  assumes "0 < max_queue_per_client s" and "dget (queues s) cid = None"
    and "drain (foldl (\<lambda>s e. queue_envelope s cid e) s es) cid = (out, t)"
  shows "out = drop (length es - nat (max_queue_per_client s)) es \<and> int (length out) \<le> max_queue_per_client s
         \<and> fst (drain t cid) = []"
proof -
  from assms(3) have "out = queued (foldl (\<lambda>s e. queue_envelope s cid e) s es) cid" and "queued t cid = []"
    by (auto simp: drain_def queued_def dget_or_def)
  with queued_envelopes [OF assms(1,2), of es] show ?thesis
    using assms(1) by (simp add: drain_def queued_def)
qed

theorem drain_returns_newest_witness:
  "fst (drain (foldl (\<lambda>s e. queue_envelope s ''c'' e) (RelayState None 2) [[(''n'', JInt 1)], [(''n'', JInt 2)], [(''n'', JInt 3)]]) ''c'')
     = [[(''n'', JInt 2)], [(''n'', JInt 3)]]"
proof -
  let ?s = "RelayState None 2" and ?es = "[[(''n'', JInt 1)], [(''n'', JInt 2)], [(''n'', JInt 3)]]"
  obtain out t where d: "drain (foldl (\<lambda>s e. queue_envelope s ''c'' e) ?s ?es) ''c'' = (out, t)"
    by fastforce
  have "0 < max_queue_per_client ?s" "dget (queues ?s) ''c'' = None" by (simp_all add: RelayState_def)
  from drain_returns_newest [OF this d] d show ?thesis by (simp add: RelayState_def)
qed

text \<open>A queue bound of zero does not bound the queue: every queued envelope is kept.\<close>

theorem zero_bound_is_no_bound:
  "fst (drain (foldl (\<lambda>s e. queue_envelope s cid e) (RelayState d 0) es) cid) = es"
proof -
  have "queued (foldl (\<lambda>s e. queue_envelope s cid e) (RelayState d 0) es) cid = es \<and>
        max_queue_per_client (foldl (\<lambda>s e. queue_envelope s cid e) (RelayState d 0) es) = 0"
  proof (induction es rule: rev_induct)
    case Nil
    then show ?case by (simp add: RelayState_def queued_def dget_or_def)
  next
    case (snoc e es)
    then show ?case by (simp add: del_slice_def)
  qed
  then show ?thesis by (simp add: drain_def queued_def)
qed

end
