(* ===== verification/Base64.thy ===== *)
theory Base64
  imports PyText
begin

text \<open>
  The URL-safe base64 of the standard library, as \<open>appserve/e2e.py\<close>,
  \<open>appserve/bootstrap.py\<close> and \<open>server/appserve_server/core.py\<close> use it: padded and
  unpadded encoders, and the non-strict decoder of \<open>binascii.a2b_base64\<close>, which
  skips characters outside the alphabet and stops at the padding.
\<close>

section \<open>The alphabet\<close>

definition b64_char :: "nat \<Rightarrow> char" where
  "b64_char n =
     (if n < 26 then char_of (65 + n)
      else if n < 52 then char_of (71 + n)
      else if n < 62 then char_of (n - 4)
      else if n = 62 then CHR ''-''
      else CHR ''_'')"

text \<open>The decoder translates \<open>-_\<close> to \<open>+/\<close> first, so it takes both spellings.\<close>

definition b64_val :: "char \<Rightarrow> nat option" where
  "b64_val c =
     (let n = code c in
      if 65 \<le> n \<and> n \<le> 90 then Some (n - 65)
      else if 97 \<le> n \<and> n \<le> 122 then Some (n - 71)
      else if 48 \<le> n \<and> n \<le> 57 then Some (n + 4)
      else if n = 45 \<or> n = 43 then Some 62
      else if n = 95 \<or> n = 47 then Some 63
      else None)"

lemma b64_val_char [simp]: "n < 64 \<Longrightarrow> b64_val (b64_char n) = Some n"
  by (auto simp: b64_val_def b64_char_def Let_def code_def)

lemma b64_val_pad [simp]: "b64_val (CHR ''='') = None"
  by (simp add: b64_val_def code_def)

lemma b64_char_not_pad [simp]: "n < 64 \<Longrightarrow> b64_char n \<noteq> CHR ''=''"
  using b64_val_char [of n] by (metis b64_val_pad option.distinct(1))

lemma b64_val_less: "b64_val c = Some n \<Longrightarrow> n < 64"
  by (auto simp: b64_val_def Let_def split: if_splits)

lemma b64_char_ascii: "n < 64 \<Longrightarrow> code (b64_char n) < 128"
  by (auto simp: b64_char_def code_def)

section \<open>Encoding\<close>

fun sextets :: "nat list \<Rightarrow> nat list" where
  "sextets [] = []"
| "sextets [a] = [a div 4, a mod 4 * 16]"
| "sextets [a, b] = [a div 4, a mod 4 * 16 + b div 16, b mod 16 * 4]"
| "sextets (a # b # c # xs) =
     a div 4 # (a mod 4 * 16 + b div 16) # (b mod 16 * 4 + c div 64) # c mod 64 # sextets xs"

text \<open>\<open>-len(value) % 4\<close> padding characters.\<close>

definition pad4 :: "string \<Rightarrow> string" where
  "pad4 s = replicate (nat ((- int (length s)) mod 4)) (CHR ''='')"

definition b64u :: "bytes \<Rightarrow> string" where
  "b64u bs = map b64_char (sextets (map unat bs))"

definition b64 :: "bytes \<Rightarrow> string" where
  "b64 bs = b64u bs @ pad4 (b64u bs)"

section \<open>Decoding\<close>

text \<open>
  The loop of \<open>a2b_base64\<close>: position in the quad, bits left over, padding characters
  seen since the last data character, and the input that is left.
\<close>

fun a2b :: "nat \<Rightarrow> nat \<Rightarrow> nat \<Rightarrow> string \<Rightarrow> nat list result" where
  "a2b q l p [] = (if q = 0 then Inr [] else Inl DecodeError)"
| "a2b q l p (c # s) =
     (if c = CHR ''='' then
        (if 2 \<le> q then (if 4 \<le> q + Suc p then Inr [] else a2b q l (Suc p) s) else a2b q l p s)
      else case b64_val c of
        None \<Rightarrow> a2b q l p s
      | Some v \<Rightarrow>
          (if q = 0 then a2b 1 v 0 s
           else if q = 1 then bindE (a2b 2 (v mod 16) 0 s) (\<lambda>r. Inr ((l * 4 + v div 16) # r))
           else if q = 2 then bindE (a2b 3 (v mod 4) 0 s) (\<lambda>r. Inr ((l * 16 + v div 4) # r))
           else bindE (a2b 0 0 0 s) (\<lambda>r. Inr ((l * 64 + v) # r))))"

definition b64_decode :: "string \<Rightarrow> bytes result" where
  "b64_decode s =
     (if \<exists>c \<in> set s. 128 \<le> code c then Inl (ValueError ''string argument should contain only ASCII characters'')
      else bindE (a2b 0 0 0 s) (\<lambda>r. Inr (map of_nat r)))"

definition unb64 :: "string \<Rightarrow> bytes result" where
  "unb64 s = b64_decode (s @ pad4 s)"

section \<open>Round trip\<close>

lemma sextets_less: "\<forall>n \<in> set xs. n < 256 \<Longrightarrow> \<forall>n \<in> set (sextets xs). n < 64"
  by (induction xs rule: sextets.induct) auto

lemma a2b_step:
  "v < 64 \<Longrightarrow> a2b 0 0 0 (b64_char v # s) = a2b 1 v 0 s"
  "v < 64 \<Longrightarrow> a2b 1 l 0 (b64_char v # s) = bindE (a2b 2 (v mod 16) 0 s) (\<lambda>r. Inr ((l * 4 + v div 16) # r))"
  "v < 64 \<Longrightarrow> a2b 2 l 0 (b64_char v # s) = bindE (a2b 3 (v mod 4) 0 s) (\<lambda>r. Inr ((l * 16 + v div 4) # r))"
  "v < 64 \<Longrightarrow> a2b 3 l 0 (b64_char v # s) = bindE (a2b 0 0 0 s) (\<lambda>r. Inr ((l * 64 + v) # r))"
  by simp_all

lemma a2b_pads:
  "a2b 2 l 0 [CHR ''='', CHR ''=''] = Inr []"
  "a2b 3 l 0 [CHR ''=''] = Inr []"
  "a2b 0 0 0 [] = Inr []"
  by simp_all

lemma pad4_add4: "length t = length s + 4 \<Longrightarrow> pad4 t = pad4 s"
proof -
  assume "length t = length s + 4"
  then have "(- int (length t)) mod 4 = (- int (length s) - 4) mod 4"
    by (simp add: algebra_simps)
  also have "\<dots> = (- int (length s)) mod 4"
    by presburger
  finally show ?thesis by (simp add: pad4_def)
qed

lemma a2b_sextets:
  assumes "\<forall>n \<in> set xs. n < 256"
  shows "a2b 0 0 0 (map b64_char (sextets xs) @ pad4 (map b64_char (sextets xs))) = Inr xs"
  using assms
proof (induction xs rule: sextets.induct)
  case 1
  then show ?case by (simp add: pad4_def)
next
  case (2 a)
  then have "a div 4 < 64" "a mod 4 * 16 < 64" by auto
  moreover have "pad4 [c, d] = ''==''" for c d
    by (simp add: pad4_def numeral_2_eq_2)
  ultimately show ?case
    by (simp add: a2b_step a2b_pads del: a2b.simps One_nat_def)
next
  case (3 a b)
  then have "a div 4 < 64" "a mod 4 * 16 + b div 16 < 64" "b mod 16 * 4 < 64"
    "(a mod 4 * 16 + b div 16) div 16 = a mod 4" "(a mod 4 * 16 + b div 16) mod 16 = b div 16"
    by auto
  then show ?case
    by (simp add: pad4_def a2b_step a2b_pads del: a2b.simps One_nat_def)
next
  case (4 a b c xs)
  let ?r = "map b64_char (sextets xs)"
  from 4 have small: "a < 256" "b < 256" "c < 256" by auto
  have l: "a div 4 < 64" "a mod 4 * 16 + b div 16 < 64" "b mod 16 * 4 + c div 64 < 64" "c mod 64 < 64"
    using small by auto
  have e: "(a mod 4 * 16 + b div 16) div 16 = a mod 4" "(a mod 4 * 16 + b div 16) mod 16 = b div 16"
    "(b mod 16 * 4 + c div 64) div 4 = b mod 16" "(b mod 16 * 4 + c div 64) mod 4 = c div 64"
    using small by auto
  have m: "b div 16 mod 16 = b div 16" "c div 64 mod 4 = c div 64"
    using small by auto
  have "pad4 (map b64_char (sextets (a # b # c # xs))) = pad4 ?r"
    by (rule pad4_add4) simp
  moreover have "a2b 0 0 0 (?r @ pad4 ?r) = Inr xs"
    using 4 by auto
  ultimately show ?case
    using l by (simp add: a2b_step e m del: a2b.simps One_nat_def)
qed

lemma b64u_ascii: "c \<in> set (b64u bs @ pad4 t) \<Longrightarrow> code c < 128"
proof -
  have "\<forall>n \<in> set (map unat bs). n < 256"
    by auto
  from sextets_less [OF this] show "c \<in> set (b64u bs @ pad4 t) \<Longrightarrow> code c < 128"
    by (auto simp: b64u_def pad4_def intro: b64_char_ascii) (simp add: code_def)
qed

lemma map_of_nat_unat [simp]: "map (of_nat \<circ> unat) (bs :: bytes) = bs"
  by (induction bs) auto

lemma unb64_b64u [simp]: "unb64 (b64u bs) = Inr bs"
proof -
  have "\<forall>n \<in> set (map unat bs). n < 256"
    by auto
  from a2b_sextets [OF this]
  have "a2b 0 0 0 (b64u bs @ pad4 (b64u bs)) = Inr (map unat bs)"
    by (simp add: b64u_def)
  with b64u_ascii [of _ bs "b64u bs"] show ?thesis
    unfolding unb64_def b64_decode_def
    by (subst if_not_P) (auto simp: not_le)
qed

lemma pad4_aligned: "(n + nat ((- int n) mod 4)) mod 4 = 0"
proof -
  have "int (n + nat ((- int n) mod 4)) mod 4 = 0"
    by (simp add: mod_add_right_eq)
  then show ?thesis by presburger
qed

lemma length_b64: "4 dvd length (b64 bs)"
  using pad4_aligned [of "length (b64u bs)"]
  by (simp add: b64_def pad4_def mod_eq_0_iff_dvd)

lemma pad4_b64 [simp]: "pad4 (b64 bs) = []"
proof -
  obtain k where "length (b64 bs) = 4 * k" using length_b64 by (rule dvdE)
  then show ?thesis by (simp add: pad4_def)
qed

lemma unb64_b64 [simp]: "unb64 (b64 bs) = Inr bs"
proof -
  have "unb64 (b64 bs) = b64_decode (b64u bs @ pad4 (b64u bs))"
    by (simp add: unb64_def) (simp add: b64_def)
  also have "\<dots> = unb64 (b64u bs)"
    by (simp add: unb64_def)
  finally show ?thesis by simp
qed

lemma b64u_inject: "b64u a = b64u b \<longleftrightarrow> a = b"
  by (metis Inr_inject unb64_b64u)

end
