(* ===== verification/JsonParse.thy ===== *)
theory JsonParse
  imports PyText
begin

text \<open>
  \<open>json.loads\<close>: a recursive-descent parser in the shape of the standard library's
  scanner (numbers by the regular expression of \<open>json.scanner\<close>, strict strings, a
  later duplicate key replacing an earlier one). Not represented: escapes above
  U+00FF and the literals \<open>NaN\<close> and \<open>Infinity\<close>, which are decoding errors here.
  The result of the section is the round trip with \<^const>\<open>json_dumps\<close>.
\<close>

section \<open>Scanning\<close>

definition is_ws :: "char \<Rightarrow> bool" where
  "is_ws c \<longleftrightarrow> c = CHR '' '' \<or> c = CHR 0x09 \<or> c = CHR 0x0A \<or> c = CHR 0x0D"

definition skip_ws :: "string \<Rightarrow> string" where
  "skip_ws = dropWhile is_ws"

definition lex_int :: "string \<Rightarrow> (string \<times> string) option" where
  "lex_int s =
     (let (sg, r) = (case s of c # r \<Rightarrow> if c = CHR ''-'' then ([c], r) else ([], s) | [] \<Rightarrow> ([], []))
      in case r of
           [] \<Rightarrow> None
         | c # r' \<Rightarrow>
             if c = CHR ''0'' then Some (sg @ [c], r')
             else if is_digit c then Some (sg @ takeWhile is_digit r, dropWhile is_digit r)
             else None)"

definition lex_frac :: "string \<Rightarrow> string \<times> string" where
  "lex_frac s =
     (case s of
        c # d # r \<Rightarrow>
          if c = CHR ''.'' \<and> is_digit d
          then (c # takeWhile is_digit (d # r), dropWhile is_digit (d # r)) else ([], s)
      | _ \<Rightarrow> ([], s))"

definition lex_exp :: "string \<Rightarrow> string \<times> string" where
  "lex_exp s =
     (case s of
        [] \<Rightarrow> ([], [])
      | c # r \<Rightarrow>
          let (sg, r') = (case r of x # y \<Rightarrow> if x = CHR ''+'' \<or> x = CHR ''-'' then ([x], y) else ([], r) | [] \<Rightarrow> ([], []))
          in if (c = CHR ''e'' \<or> c = CHR ''E'') \<and> takeWhile is_digit r' \<noteq> []
             then (c # sg @ takeWhile is_digit r', dropWhile is_digit r') else ([], s))"

definition lex_number :: "string \<Rightarrow> (json \<times> string) option" where
  "lex_number s =
     (case lex_int s of
        None \<Rightarrow> None
      | Some (i, r) \<Rightarrow>
          let (f, r1) = lex_frac r; (e, r2) = lex_exp r1
          in Some (if f = [] \<and> e = [] then JInt (signed_digits i) else JFloat (i @ f @ e), r2))"

definition unescape :: "char \<Rightarrow> char option" where
  "unescape c =
     (if c = CHR 0x22 \<or> c = CHR 0x5C \<or> c = CHR ''/'' then Some c
      else if c = CHR ''b'' then Some (CHR 0x08)
      else if c = CHR ''f'' then Some (CHR 0x0C)
      else if c = CHR ''n'' then Some (CHR 0x0A)
      else if c = CHR ''r'' then Some (CHR 0x0D)
      else if c = CHR ''t'' then Some (CHR 0x09)
      else None)"

definition hex4 :: "char \<Rightarrow> char \<Rightarrow> char \<Rightarrow> char \<Rightarrow> char option" where
  "hex4 a b c d =
     (case (hex_val a, hex_val b, hex_val c, hex_val d) of
        (Some 0, Some 0, Some x, Some y) \<Rightarrow> Some (char_of (16 * x + y))
      | _ \<Rightarrow> None)"

fun pstring :: "string \<Rightarrow> (string \<times> string) option" where
  "pstring [] = None"
| "pstring (c # r) =
     (if c = CHR 0x22 then Some ([], r)
      else if c = CHR 0x5C then
        (case r of
           [] \<Rightarrow> None
         | e # r1 \<Rightarrow>
             if e = CHR ''u'' then
               (case r1 of
                  h1 # h2 # h3 # h4 # r2 \<Rightarrow>
                    (case hex4 h1 h2 h3 h4 of
                       None \<Rightarrow> None
                     | Some x \<Rightarrow> map_option (\<lambda>(s, t). (x # s, t)) (pstring r2))
                | _ \<Rightarrow> None)
             else (case unescape e of
                     None \<Rightarrow> None
                   | Some x \<Rightarrow> map_option (\<lambda>(s, t). (x # s, t)) (pstring r1)))
      else if code c < 32 then None
      else map_option (\<lambda>(s, t). (c # s, t)) (pstring r))"

section \<open>The parser\<close>

text \<open>\<open>pval\<close> reads a value, \<open>pelems\<close> and \<open>pmembers\<close> the rest of a non-empty array or object.\<close>

fun pval :: "nat \<Rightarrow> string \<Rightarrow> (json \<times> string) option"
  and pelems :: "nat \<Rightarrow> string \<Rightarrow> (json list \<times> string) option"
  and pmembers :: "nat \<Rightarrow> string \<Rightarrow> ((string \<times> json) list \<times> string) option"
where
  "pval 0 s = None"
| "pval (Suc n) s =
     (case s of
        [] \<Rightarrow> None
      | c # r \<Rightarrow>
          if c = CHR 0x22 then map_option (\<lambda>(t, u). (JStr t, u)) (pstring r)
          else if c = CHR ''{'' then
            (case skip_ws r of
               [] \<Rightarrow> None
             | d # u \<Rightarrow> if d = CHR ''}'' then Some (JObj [], u)
                        else map_option (\<lambda>(kvs, w). (JObj (dmerge [] kvs), w)) (pmembers n (d # u)))
          else if c = CHR ''['' then
            (case skip_ws r of
               [] \<Rightarrow> None
             | d # u \<Rightarrow> if d = CHR '']'' then Some (JList [], u)
                        else map_option (\<lambda>(xs, w). (JList xs, w)) (pelems n (d # u)))
          else if take 4 s = ''null'' then Some (JNull, drop 4 s)
          else if take 4 s = ''true'' then Some (JBool True, drop 4 s)
          else if take 5 s = ''false'' then Some (JBool False, drop 5 s)
          else lex_number s)"
| "pelems 0 s = None"
| "pelems (Suc n) s =
     (case pval n s of
        None \<Rightarrow> None
      | Some (v, r) \<Rightarrow>
          (case skip_ws r of
             [] \<Rightarrow> None
           | d # u \<Rightarrow>
               if d = CHR '']'' then Some ([v], u)
               else if d = CHR '','' then map_option (\<lambda>(xs, w). (v # xs, w)) (pelems n (skip_ws u))
               else None))"
| "pmembers 0 s = None"
| "pmembers (Suc n) s =
     (case s of
        [] \<Rightarrow> None
      | c # r \<Rightarrow>
          if c \<noteq> CHR 0x22 then None
          else (case pstring r of
             None \<Rightarrow> None
           | Some (k, r1) \<Rightarrow>
               (case skip_ws r1 of
                  [] \<Rightarrow> None
                | d # u \<Rightarrow>
                    if d \<noteq> CHR '':'' then None
                    else (case pval n (skip_ws u) of
                       None \<Rightarrow> None
                     | Some (v, r2) \<Rightarrow>
                         (case skip_ws r2 of
                            [] \<Rightarrow> None
                          | e # w \<Rightarrow>
                              if e = CHR ''}'' then Some ([(k, v)], w)
                              else if e = CHR '','' then
                                map_option (\<lambda>(kvs, z). ((k, v) # kvs, z)) (pmembers n (skip_ws w))
                              else None)))))"

definition json_loads_str :: "string \<Rightarrow> json result" where
  "json_loads_str s =
     (case pval (Suc (length s)) (skip_ws s) of
        Some (v, r) \<Rightarrow> if skip_ws r = [] then Inr v else Inl DecodeError
      | None \<Rightarrow> Inl DecodeError)"

definition json_loads :: "bytes \<Rightarrow> json result" where
  "json_loads bs = bindE (utf8_decode bs) json_loads_str"

section \<open>Numbers\<close>

definition num_end :: "string \<Rightarrow> bool" where
  "num_end r \<longleftrightarrow> (case r of [] \<Rightarrow> True
     | c # _ \<Rightarrow> \<not> is_digit c \<and> c \<noteq> CHR ''.'' \<and> c \<noteq> CHR ''e'' \<and> c \<noteq> CHR ''E''
               \<and> c \<noteq> CHR ''+'' \<and> c \<noteq> CHR ''-'')"

lemma digit_char_props [simp]:
  "d < 10 \<Longrightarrow> is_digit (digit_char d)"
  "d < 10 \<Longrightarrow> digit_val (digit_char d) = d"
  by (simp_all add: is_digit_def digit_char_def digit_val_def)

lemma digit_char_0: "digit_char 0 = CHR ''0''"
  by (simp add: digit_char_def char_of_def bit_iff_odd)

lemma digit_char_zero: "d < 10 \<Longrightarrow> digit_char d = CHR ''0'' \<longleftrightarrow> d = 0"
  by (metis digit_char_0 digit_char_props(2) zero_less_numeral)

lemma nat_str_digits: "c \<in> set (nat_str n) \<Longrightarrow> is_digit c"
  by (induction n rule: nat_str.induct) (subst (asm) (2) nat_str.simps, auto split: if_splits)

lemma nat_str_nonempty [simp]: "nat_str n \<noteq> []"
  by (subst nat_str.simps) simp

lemma hd_nat_str: "hd (nat_str n) = CHR ''0'' \<longleftrightarrow> n = 0"
proof (induction n rule: nat_str.induct)
  case (1 n)
  show ?case
  proof (cases "n < 10")
    case True
    then show ?thesis by (subst nat_str.simps) (simp add: digit_char_zero)
  next
    case False
    then have "n div 10 \<noteq> 0" by auto
    with 1 False show ?thesis by (subst nat_str.simps) simp
  qed
qed

lemma digits_val_snoc: "digits_val (s @ [c]) = 10 * digits_val s + digit_val c"
  by (simp add: digits_val_def)

lemma digits_val_nat_str [simp]: "digits_val (nat_str n) = n"
proof (induction n rule: nat_str.induct)
  case (1 n)
  show ?case
  proof (cases "n < 10")
    case True
    then show ?thesis by (subst nat_str.simps) (simp add: digits_val_def)
  next
    case False
    with 1 have "digits_val (nat_str (n div 10)) = n div 10" by simp
    with False show ?thesis by (subst nat_str.simps) (simp add: digits_val_snoc)
  qed
qed

lemma takeWhile_digits:
  "(\<And>c. c \<in> set s \<Longrightarrow> is_digit c) \<Longrightarrow> num_end r \<Longrightarrow> takeWhile is_digit (s @ r) = s"
  "(\<And>c. c \<in> set s \<Longrightarrow> is_digit c) \<Longrightarrow> num_end r \<Longrightarrow> dropWhile is_digit (s @ r) = r"
  by (simp_all add: takeWhile_append dropWhile_append num_end_def split: list.splits)

lemma no_digit_sign: "\<not> is_digit (CHR ''-'')" "\<not> is_digit (CHR ''+'')"
  by (simp_all add: is_digit_def)

lemma lex_int_nat_str:
  "num_end r \<Longrightarrow> lex_int (nat_str n @ r) = Some (nat_str n, r)"
  "num_end r \<Longrightarrow> lex_int (CHR ''-'' # nat_str n @ r) = Some (CHR ''-'' # nat_str n, r)"
proof -
  assume r: "num_end r"
  obtain c t where ct: "nat_str n = c # t" by (cases "nat_str n") auto
  have dig: "is_digit c" using nat_str_digits [of c n] ct by simp
  then have "c \<noteq> CHR ''-''" using no_digit_sign by auto
  have z: "t = []" if "c = CHR ''0''"
  proof -
    have "n = 0" using hd_nat_str [of n] ct that by simp
    then show ?thesis using ct by (simp add: nat_str.simps [of 0])
  qed
  have tw: "takeWhile is_digit (nat_str n @ r) = nat_str n" "dropWhile is_digit (nat_str n @ r) = r"
    by (rule takeWhile_digits [OF _ r], erule nat_str_digits)+
  then have tw': "takeWhile is_digit (c # t @ r) = c # t" "dropWhile is_digit (c # t @ r) = r"
    by (simp_all add: ct)
  show "lex_int (nat_str n @ r) = Some (nat_str n, r)"
    "lex_int (CHR ''-'' # nat_str n @ r) = Some (CHR ''-'' # nat_str n, r)"
    using ct dig \<open>c \<noteq> CHR ''-''\<close> z tw'
    by (auto simp: lex_int_def Let_def)
qed

lemma lex_tail_end: "num_end r \<Longrightarrow> lex_frac r = ([], r)" "num_end r \<Longrightarrow> lex_exp r = ([], r)"
  by (auto simp: num_end_def lex_frac_def lex_exp_def split: list.splits)

lemma signed_digits_int_str [simp]: "signed_digits (int_str i) = i"
proof -
  have nosign: "signed_digits (nat_str n) = int n" for n
  proof -
    obtain c t where ct: "nat_str n = c # t" by (cases "nat_str n") auto
    then have "is_digit c" using nat_str_digits [of c n] by simp
    then have "c \<noteq> CHR ''-''" "c \<noteq> CHR ''+''" using no_digit_sign by auto
    then have "signed_digits (c # t) = int (digits_val (c # t))"
      by (cases "c = CHR ''-''"; cases "c = CHR ''+''") (auto simp: signed_digits_def split: char.splits bool.splits)
    with ct show ?thesis by (metis digits_val_nat_str)
  qed
  show ?thesis
    using nosign by (auto simp: int_str_def) (simp add: signed_digits_def)
qed

lemma lex_number_int: "num_end r \<Longrightarrow> lex_number (int_str i @ r) = Some (JInt i, r)"
  using signed_digits_int_str [of i]
  by (auto simp: lex_number_def int_str_def lex_int_nat_str lex_tail_end)

text \<open>A float literal keeps its value whatever follows it.\<close>

definition float_lit :: "string \<Rightarrow> bool" where
  "float_lit t \<longleftrightarrow> lex_number t = Some (JFloat t, [])"

lemma num_end_hd: "num_end r \<Longrightarrow> r = c # s \<Longrightarrow> \<not> is_digit c"
  by (simp add: num_end_def)

lemma digits_append:
  "num_end r \<Longrightarrow> takeWhile is_digit (s @ r) = takeWhile is_digit s"
  "num_end r \<Longrightarrow> dropWhile is_digit (s @ r) = dropWhile is_digit s @ r"
  by (induction s) (auto simp: num_end_def split: list.splits)

lemma lex_int_unsigned:
  "c \<noteq> CHR ''-'' \<Longrightarrow> lex_int (c # s) =
     (if c = CHR ''0'' then Some ([c], s)
      else if is_digit c then Some (c # takeWhile is_digit s, dropWhile is_digit s) else None)"
  by (simp add: lex_int_def)

lemma lex_int_signed:
  "lex_int (CHR ''-'' # s) =
     (case s of [] \<Rightarrow> None
      | c # s' \<Rightarrow>
          if c = CHR ''0'' then Some ([CHR ''-'', c], s')
          else if is_digit c then Some (CHR ''-'' # c # takeWhile is_digit s', dropWhile is_digit s') else None)"
  by (simp add: lex_int_def split: list.splits)

lemma lex_int_append:
  assumes "lex_int s = Some (i, r)" and z: "num_end z"
  shows "lex_int (s @ z) = Some (i, r @ z)"
proof (cases s)
  case Nil
  with assms show ?thesis by (simp add: lex_int_def)
next
  case (Cons c s')
  show ?thesis
  proof (cases "c = CHR ''-''")
    case True
    with Cons assms(1) obtain d s'' where "s' = d # s''"
      by (cases s') (auto simp: lex_int_signed)
    with Cons True assms(1) digits_append [OF z] show ?thesis
      by (auto simp: lex_int_signed split: if_splits)
  next
    case False
    with Cons assms(1) digits_append [OF z] show ?thesis
      by (auto simp: lex_int_unsigned split: if_splits)
  qed
qed

lemma lex_frac_append:
  assumes "lex_frac s = (f, r)" and "num_end z"
  shows "lex_frac (s @ z) = (f, r @ z)"
proof (cases s)
  case Nil
  with assms show ?thesis by (auto simp: lex_frac_def num_end_def split: list.splits)
next
  case (Cons c s')
  then show ?thesis
    using assms digits_append [OF assms(2)]
    by (cases s') (auto simp: lex_frac_def num_end_def split: list.splits if_splits)
qed

lemma lex_exp_append:
  assumes "lex_exp s = (e, r)" and "num_end z"
  shows "lex_exp (s @ z) = (e, r @ z)"
proof (cases s)
  case Nil
  with assms show ?thesis by (auto simp: lex_exp_def num_end_def split: list.splits)
next
  case (Cons c s')
  show ?thesis
  proof (cases s')
    case Nil
    with Cons assms digits_append [OF assms(2), of "[]"] show ?thesis
      by (cases z) (auto simp: lex_exp_def Let_def num_end_def no_digit_sign split: list.splits if_splits)
  next
    case (Cons d s'')
    with \<open>s = c # s'\<close> assms digits_append [OF assms(2)] show ?thesis
      by (auto simp: lex_exp_def Let_def split: if_splits)
  qed
qed

lemma lex_number_append:
  assumes "lex_number s = Some (v, [])" and "num_end z"
  shows "lex_number (s @ z) = Some (v, z)"
proof -
  obtain i r where i: "lex_int s = Some (i, r)"
    using assms(1) by (auto simp: lex_number_def split: option.splits)
  obtain f r1 where f: "lex_frac r = (f, r1)" by force
  obtain e r2 where e: "lex_exp r1 = (e, r2)" by force
  have "r2 = []" using assms(1) i f e by (simp add: lex_number_def)
  then show ?thesis
    using assms i f e lex_int_append [OF i assms(2)] lex_frac_append [OF f assms(2)]
      lex_exp_append [OF e assms(2)]
    by (simp add: lex_number_def)
qed

section \<open>Strings\<close>

lemma hex_val_zero [simp]: "hex_val (CHR ''0'') = Some 0"
  by (simp add: hex_val_def code_def)

lemma hex4_code: "hex4 (CHR ''0'') (CHR ''0'') (hex_char (code c div 16)) (hex_char (code c mod 16)) = Some c"
proof -
  have "code c div 16 < 16" "code c mod 16 < 16"
    using code_less [of c] by (simp_all add: less_mult_imp_div_less)
  moreover have "16 * (code c div 16) + code c mod 16 = code c"
    by (rule mult_div_mod_eq)
  ultimately show ?thesis
    by (simp add: hex4_def hex_val_char)
qed

lemma code_literals [simp]:
  "code (CHR 0x22) = 34" "code (CHR 0x5C) = 92"
  by (simp_all add: code_def)

lemma pstring_escape: "pstring (json_escape c @ r) = map_option (\<lambda>(s, t). (c # s, t)) (pstring r)"
  by (auto simp: json_escape_def unescape_def hex4_code)

lemma pstring_quote: "pstring (concat (map json_escape s) @ CHR 0x22 # r) = Some (s, r)"
  by (induction s) (simp_all add: pstring_escape del: pstring.simps(2), simp)

section \<open>Round trip\<close>

fun wf_json :: "json \<Rightarrow> bool" where
  "wf_json (JFloat t) = float_lit t"
| "wf_json (JList xs) = (\<forall>x \<in> set xs. wf_json x)"
| "wf_json (JObj d) = (wf_dict d \<and> (\<forall>p \<in> set d. wf_json (snd p)))"
| "wf_json _ = True"

lemma dmerge_append: "wf_dict (d @ e) \<Longrightarrow> dmerge d e = d @ e"
proof (induction e arbitrary: d)
  case Nil
  then show ?case by (simp add: dmerge_def)
next
  case (Cons p e)
  obtain k v where p: "p = (k, v)" by force
  have "k \<notin> fst ` set d" using Cons.prems p by (auto simp: wf_dict_def)
  then have "dput k v d = d @ [(k, v)]"
    by (induction d) auto
  moreover have "dmerge (d @ [(k, v)]) e = (d @ [(k, v)]) @ e"
    by (rule Cons.IH) (use Cons.prems p in simp)
  ultimately show ?case using p by (simp add: dmerge_def)
qed

lemma dmerge_Nil [simp]: "wf_dict d \<Longrightarrow> dmerge [] d = d"
  using dmerge_append [of "[]" d] by simp

definition starts_value :: "string \<Rightarrow> bool" where
  "starts_value s \<longleftrightarrow> (case s of [] \<Rightarrow> False | c # _ \<Rightarrow> \<not> is_ws c \<and> c \<noteq> CHR ''}'' \<and> c \<noteq> CHR '']'')"

lemma digit_starts: "is_digit c \<Longrightarrow> \<not> is_ws c \<and> c \<noteq> CHR ''}'' \<and> c \<noteq> CHR '']''"
  by (auto simp: is_ws_def is_digit_def)

lemma lex_number_hd: "lex_number s = Some v \<Longrightarrow> \<exists>c t. s = c # t \<and> (c = CHR ''-'' \<or> is_digit c)"
proof -
  assume "lex_number s = Some v"
  then have "lex_int s \<noteq> None" by (auto simp: lex_number_def split: option.splits)
  moreover have "is_digit (CHR ''0'')" by (simp add: is_digit_def)
  ultimately show ?thesis
    by (cases s) (auto simp: lex_int_def Let_def split: list.splits if_splits)
qed

lemma lex_number_pval:
  assumes "lex_number s = Some (v, r)"
  shows "pval (Suc n) s = Some (v, r)"
proof -
  obtain c t where s: "s = c # t" and c: "c = CHR ''-'' \<or> is_digit c"
    using lex_number_hd [OF assms] by blast
  have "c \<noteq> CHR 0x22 \<and> c \<noteq> CHR ''{'' \<and> c \<noteq> CHR ''['' \<and> c \<noteq> CHR ''n'' \<and> c \<noteq> CHR ''t'' \<and> c \<noteq> CHR ''f''"
    using c by (auto simp: is_digit_def)
  with s assms show ?thesis by (simp add: eval_nat_numeral)
qed

lemma starts_dumps: "wf_json j \<Longrightarrow> starts_value (json_dumps j @ r)"
proof (cases j)
  case (JInt i)
  have "num_end []" by (simp add: num_end_def)
  from lex_number_hd [OF lex_number_int [OF this, of i]] JInt show ?thesis
    by (auto simp: starts_value_def is_ws_def dest: digit_starts)
next
  case (JFloat t)
  assume "wf_json j"
  with JFloat have "lex_number t = Some (JFloat t, [])" by (simp add: float_lit_def)
  from lex_number_hd [OF this] JFloat show ?thesis
    by (auto simp: starts_value_def is_ws_def dest: digit_starts)
qed (auto simp: starts_value_def is_ws_def json_quote_def)

lemma skip_ws_starts [simp]: "starts_value s \<Longrightarrow> skip_ws s = s"
  by (cases s) (auto simp: starts_value_def skip_ws_def)

lemma skip_ws_Nil [simp]: "skip_ws [] = []"
  by (simp add: skip_ws_def)

lemma skip_ws_quote [simp]: "skip_ws (CHR 0x22 # s) = CHR 0x22 # s"
  by (simp add: skip_ws_def is_ws_def)

lemma skip_ws_punct [simp]:
  "skip_ws (CHR '','' # s) = CHR '','' # s" "skip_ws (CHR '']'' # s) = CHR '']'' # s"
  "skip_ws (CHR ''}'' # s) = CHR ''}'' # s" "skip_ws (CHR '':'' # s) = CHR '':'' # s"
  by (simp_all add: skip_ws_def is_ws_def)

lemma num_end_punct [simp]:
  "num_end []" "num_end (CHR '','' # s)" "num_end (CHR '']'' # s)" "num_end (CHR ''}'' # s)"
  by (simp_all add: num_end_def is_digit_def)

text \<open>One value, then the arrays and objects built from values that already round-trip.\<close>

definition parses :: "json \<Rightarrow> bool" where
  "parses j \<longleftrightarrow> (\<forall>n r. length (json_dumps j) \<le> n \<longrightarrow> num_end r \<longrightarrow> pval n (json_dumps j @ r) = Some (j, r))"

lemma dumps_nonempty: "wf_json j \<Longrightarrow> 0 < length (json_dumps j)"
  using starts_dumps [of j "[]"] by (cases "json_dumps j") (auto simp: starts_value_def)

lemma intercalate_Cons: "xs \<noteq> [] \<Longrightarrow> intercalate sep (x # xs) = x @ sep @ intercalate sep xs"
  by (cases xs) simp_all

lemma pelems_dumps:
  assumes "xs \<noteq> []" and "\<forall>x \<in> set xs. wf_json x \<and> parses x"
    and "length (intercalate '','' (map json_dumps xs)) < n"
  shows "pelems n (intercalate '','' (map json_dumps xs) @ CHR '']'' # r) = Some (xs, r)"
  using assms
proof (induction xs arbitrary: n rule: list_nonempty_induct)
  case (single x)
  then obtain m where "n = Suc m" by (cases n) auto
  with single show ?case by (auto simp: parses_def)
next
  case (cons x xs)
  then obtain m where n: "n = Suc m" by (cases n) auto
  obtain y ys where xs: "xs = y # ys" using cons.hyps by (cases xs) auto
  let ?t = "intercalate '','' (map json_dumps xs) @ CHR '']'' # r"
  have split: "intercalate '','' (map json_dumps (x # xs)) = json_dumps x @ '','' @ intercalate '','' (map json_dumps xs)"
    by (simp add: intercalate_Cons cons.hyps)
  have "starts_value ?t"
  proof (cases ys)
    case Nil
    with cons.prems xs starts_dumps [of y] show ?thesis by simp
  next
    case (Cons z zs)
    with cons.prems xs starts_dumps [of y] show ?thesis by simp
  qed
  moreover have "pelems m ?t = Some (xs, r)"
    by (rule cons.IH) (use cons.prems split n in auto)
  moreover have "pval m (json_dumps x @ CHR '','' # ?t) = Some (x, CHR '','' # ?t)"
    using cons.prems split n by (simp add: parses_def)
  ultimately show ?case
    using n cons.hyps by (simp add: intercalate_Cons)
qed

definition member_text :: "string \<times> json \<Rightarrow> string" where
  "member_text p = json_quote (fst p) @ '':'' @ json_dumps (snd p)"

lemma pmembers_dumps:
  assumes "d \<noteq> []" and "\<forall>p \<in> set d. wf_json (snd p) \<and> parses (snd p)"
    and "length (intercalate '','' (map member_text d)) < n"
  shows "pmembers n (intercalate '','' (map member_text d) @ CHR ''}'' # r) = Some (d, r)"
  using assms
proof (induction d arbitrary: n rule: list_nonempty_induct)
  case (single p)
  then obtain m where n: "n = Suc m" by (cases n) auto
  have "pval m (json_dumps (snd p) @ CHR ''}'' # r) = Some (snd p, CHR ''}'' # r)"
    using single n by (simp add: parses_def member_text_def)
  with single n starts_dumps [of "snd p" "CHR ''}'' # r"] show ?case
    by (simp add: member_text_def json_quote_def pstring_quote)
next
  case (cons p d)
  then obtain m where n: "n = Suc m" by (cases n) auto
  obtain q e where d: "d = q # e" using cons.hyps by (cases d) auto
  let ?t = "intercalate '','' (map member_text d) @ CHR ''}'' # r"
  have split: "intercalate '','' (map member_text (p # d)) = member_text p @ '','' @ intercalate '','' (map member_text d)"
    by (simp add: intercalate_Cons cons.hyps)
  have "length (json_dumps (snd p)) \<le> length (member_text p)"
    by (simp add: member_text_def)
  then have len: "length (json_dumps (snd p)) \<le> m"
    using cons.prems(2) unfolding split n by simp
  have "skip_ws ?t = ?t"
    by (cases e) (simp_all add: d member_text_def json_quote_def)
  moreover have "pmembers m ?t = Some (d, r)"
    by (rule cons.IH) (use cons.prems split n in auto)
  moreover have "pval m (json_dumps (snd p) @ CHR '','' # ?t) = Some (snd p, CHR '','' # ?t)"
    using cons.prems len by (simp add: parses_def)
  ultimately show ?case
    using n starts_dumps [of "snd p" "CHR '','' # ?t"] cons.prems cons.hyps
    by (simp add: intercalate_Cons) (simp add: member_text_def [of p] json_quote_def pstring_quote)
qed

lemma dumps_parses: "wf_json j \<Longrightarrow> parses j"
proof (induction j)
  case JNull
  show ?case unfolding parses_def
  proof (intro allI impI)
    fix n r assume "length (json_dumps JNull) \<le> n"
    then obtain m where "n = Suc m" by (cases n) auto
    then show "pval n (json_dumps JNull @ r) = Some (JNull, r)" by simp
  qed
next
  case (JBool b)
  show ?case unfolding parses_def
  proof (intro allI impI)
    fix n r assume "length (json_dumps (JBool b)) \<le> n"
    then obtain m where "n = Suc m" by (cases n) (auto split: if_splits)
    then show "pval n (json_dumps (JBool b) @ r) = Some (JBool b, r)" by simp
  qed
next
  case (JInt i)
  show ?case unfolding parses_def
  proof (intro allI impI)
    fix n r assume "length (json_dumps (JInt i)) \<le> n" and r: "num_end r"
    then obtain m where "n = Suc m"
      using dumps_nonempty [of "JInt i"] by (cases n) auto
    with lex_number_pval [OF lex_number_int [OF r]]
    show "pval n (json_dumps (JInt i) @ r) = Some (JInt i, r)" by simp
  qed
next
  case (JFloat t)
  then have t: "lex_number t = Some (JFloat t, [])" by (simp add: float_lit_def)
  show ?case unfolding parses_def
  proof (intro allI impI)
    fix n r assume "length (json_dumps (JFloat t)) \<le> n" and r: "num_end r"
    then obtain m where "n = Suc m"
      using dumps_nonempty [OF JFloat] by (cases n) auto
    with lex_number_pval [OF lex_number_append [OF t r]]
    show "pval n (json_dumps (JFloat t) @ r) = Some (JFloat t, r)" by simp
  qed
next
  case (JStr s)
  show ?case unfolding parses_def
  proof (intro allI impI)
    fix n r assume "length (json_dumps (JStr s)) \<le> n"
    then obtain m where "n = Suc m" by (cases n) (auto simp: json_quote_def)
    then show "pval n (json_dumps (JStr s) @ r) = Some (JStr s, r)"
      by (simp add: json_quote_def pstring_quote)
  qed
next
  case (JList xs)
  show ?case unfolding parses_def
  proof (intro allI impI)
    fix n r assume len: "length (json_dumps (JList xs)) \<le> n"
    then obtain m where n: "n = Suc m" by (cases n) auto
    show "pval n (json_dumps (JList xs) @ r) = Some (JList xs, r)"
    proof (cases xs)
      case Nil
      with n show ?thesis by simp
    next
      case (Cons y ys)
      let ?t = "intercalate '','' (map json_dumps xs) @ CHR '']'' # r"
      have y: "wf_json y" using JList.prems Cons by simp
      have "starts_value ?t"
        using starts_dumps [OF y] Cons by (cases ys) simp_all
      then obtain c u where t: "?t = c # u" "c \<noteq> CHR '']''" "skip_ws ?t = ?t"
        by (cases ?t) (auto simp: starts_value_def)
      have "pelems m ?t = Some (xs, r)"
        by (rule pelems_dumps) (use Cons JList len n in auto)
      with n t show ?thesis by simp
    qed
  qed
next
  case (JObj d)
  have eq: "json_dumps (JObj d) = ''{'' @ intercalate '','' (map member_text d) @ ''}''"
    by (simp add: member_text_def [abs_def])
  show ?case unfolding parses_def
  proof (intro allI impI)
    fix n r assume len: "length (json_dumps (JObj d)) \<le> n"
    then obtain m where n: "n = Suc m" by (cases n) auto
    show "pval n (json_dumps (JObj d) @ r) = Some (JObj d, r)"
    proof (cases d)
      case Nil
      with n show ?thesis by simp
    next
      case (Cons p e)
      let ?t = "intercalate '','' (map member_text d) @ CHR ''}'' # r"
      obtain u where t: "?t = CHR 0x22 # u"
        using Cons by (cases e) (simp_all add: member_text_def json_quote_def)
      have "pmembers m ?t = Some (d, r)"
      proof (rule pmembers_dumps)
        show "\<forall>p \<in> set d. wf_json (snd p) \<and> parses (snd p)"
          using JObj by (auto intro: snds.intros)
        show "length (intercalate '','' (map member_text d)) < m"
          using len n eq by simp
      qed (use Cons in simp)
      with n t eq JObj.prems show ?thesis by simp
    qed
  qed
qed

lemma json_loads_dumps_str: "wf_json j \<Longrightarrow> json_loads_str (json_dumps j) = Inr j"
proof -
  assume wf: "wf_json j"
  have "pval (Suc (length (json_dumps j))) (json_dumps j @ []) = Some (j, [])"
    using dumps_parses [OF wf] unfolding parses_def by (metis le_SucI num_end_punct(1) order_refl)
  with starts_dumps [OF wf, of "[]"] show ?thesis
    by (simp add: json_loads_str_def del: pval.simps)
qed

lemma json_loads_dumps [simp]: "wf_json j \<Longrightarrow> json_loads (utf8 (json_dumps j)) = Inr j"
  by (simp add: json_loads_def json_loads_dumps_str)

lemma json_dumps_inject: "wf_json a \<Longrightarrow> wf_json b \<Longrightarrow> json_dumps a = json_dumps b \<longleftrightarrow> a = b"
  by (metis Inr_inject json_loads_dumps_str)

end
