(* ===== verification/Session.thy ===== *)
theory Session
  imports Base64 JsonParse "HOL-Library.Sublist"
begin

text \<open>
  \<open>appserve/e2e.py\<close>, the symmetric peer session: key derivation, the per-direction
  nonce and additional data, and \<open>PeerSession.encrypt\<close>/\<open>decrypt\<close>. AES-GCM, HKDF and
  HMAC come from third-party code and are parameters; the facts relied on are the
  predicates \<open>aead_correct\<close> and \<open>aead_authentic\<close>.
\<close>

type_synonym time = rat

section \<open>Primitives from outside the repository\<close>

text \<open>\<open>AESGCM(key).encrypt(nonce, data, aad)\<close> and \<open>.decrypt\<close>, which raises \<open>InvalidTag\<close>.\<close>

record aead =
  aes_gcm_encrypt :: "bytes \<Rightarrow> bytes \<Rightarrow> bytes \<Rightarrow> bytes \<Rightarrow> bytes"
  aes_gcm_decrypt :: "bytes \<Rightarrow> bytes \<Rightarrow> bytes \<Rightarrow> bytes \<Rightarrow> bytes option"

definition aead_correct :: "aead \<Rightarrow> bool" where
  "aead_correct c \<longleftrightarrow>
     (\<forall>k n p a. aes_gcm_decrypt c k n (aes_gcm_encrypt c k n p a) a = Some p)"

text \<open>
  Authenticity of a set of presented ciphertexts: under key \<open>k\<close> one of them opens with a
  nonce and additional data only if that triple is one of the sent triples \<open>T\<close>.
\<close>

definition aead_authentic :: "aead \<Rightarrow> bytes \<Rightarrow> bytes set \<Rightarrow> (bytes \<times> bytes \<times> bytes) set \<Rightarrow> bool" where
  "aead_authentic c k presented T \<longleftrightarrow>
     (\<forall>ct \<in> presented. \<forall>n a p. aes_gcm_decrypt c k n ct a = Some p \<longrightarrow> (n, ct, a) \<in> T)"

text \<open>\<open>HKDF(SHA256, length=32, salt, info).derive(ikm)\<close>: arguments \<open>ikm\<close>, \<open>salt\<close>, \<open>info\<close>.\<close>

type_synonym hkdf = "bytes \<Rightarrow> bytes \<Rightarrow> bytes \<Rightarrow> bytes"

text \<open>\<open>hmac.digest(key, message, "sha256")\<close>.\<close>

type_synonym hmac = "bytes \<Rightarrow> bytes \<Rightarrow> bytes"

section \<open>Key derivation and the acceptance proof\<close>

definition SESSION_LIFETIME_SECONDS :: time where
  "SESSION_LIFETIME_SECONDS = 30 * 60"

definition SESSION_NONCE_PREFIX :: bytes where
  "SESSION_NONCE_PREFIX = [0x57, 0x47, 0x01, 0x00]"

definition ANDROID_TO_WISP :: bytes where
  "ANDROID_TO_WISP = utf8 ''wispgate-session-v1/android-to-wisp''"

definition WISP_TO_ANDROID :: bytes where
  "WISP_TO_ANDROID = utf8 ''wispgate-session-v1/wisp-to-android''"

definition derive_session_keys :: "hkdf \<Rightarrow> bytes \<Rightarrow> string \<Rightarrow> (bytes \<times> bytes) result" where
  "derive_session_keys kdf master sid =
     (if length master \<noteq> 32 \<or> sid = []
      then Inl (ValueError ''session master secret and id are required'')
      else Inr (kdf master (utf8 sid) ANDROID_TO_WISP, kdf master (utf8 sid) WISP_TO_ANDROID))"

text \<open>\<open>b"\0".join(parts)\<close>.\<close>

definition join0 :: "bytes list \<Rightarrow> bytes" where
  "join0 parts = intercalate [0] parts"

definition session_accept_proof ::
  "hkdf \<Rightarrow> hmac \<Rightarrow> bytes \<Rightarrow> string \<Rightarrow> string \<Rightarrow> string \<Rightarrow> string \<Rightarrow> string result" where
  "session_accept_proof kdf mac master sid challenge android_id wisp_id =
     bindE (derive_session_keys kdf master sid)
       (\<lambda>(_, wisp_key).
          let transcript = join0 [utf8 ''wispgate-session-v1/accept'', utf8 sid, utf8 challenge,
                                  utf8 android_id, utf8 wisp_id]
          in Inr (b64u (mac wisp_key transcript)))"

section \<open>Nonces and additional data\<close>

text \<open>\<open>x.to_bytes(n, "big")\<close>.\<close>

fun be_bytes :: "nat \<Rightarrow> int \<Rightarrow> bytes" where
  "be_bytes 0 x = []"
| "be_bytes (Suc n) x = be_bytes n (x div 256) @ [of_int (x mod 256)]"

definition session_nonce :: "json \<Rightarrow> bytes result" where
  "session_nonce v =
     (case v of
        JInt n \<Rightarrow>
          if 0 \<le> n \<and> n < 2 ^ 64 then Inr (SESSION_NONCE_PREFIX @ be_bytes 8 n)
          else Inl (ValueError ''invalid session sequence'')
      | _ \<Rightarrow> Inl (ValueError ''invalid session sequence''))"

definition session_route :: "string \<Rightarrow> json \<Rightarrow> json \<Rightarrow> int \<Rightarrow> jdict" where
  "session_route sid sender recipient n =
     [(''version'', JInt 1), (''type'', JStr ''session_envelope''), (''session_id'', JStr sid),
      (''sender'', sender), (''recipient'', recipient), (''sequence'', JInt n)]"

definition session_aad :: "string \<Rightarrow> json \<Rightarrow> json \<Rightarrow> int \<Rightarrow> bytes" where
  "session_aad sid sender recipient n =
     utf8 (json_dumps (JObj (sort_by_key fst (session_route sid sender recipient n))))"

section \<open>The session object\<close>

text \<open>
  The peer's id is the \<open>sender\<close> of the handshake as it was decoded. Text is expected there; a
  number or \<open>None\<close> would be kept as well, compared as Python compares it (\<open>key_eq\<close>).
\<close>

record peer_session =
  session_id :: string
  local_id :: string
  peer_id :: json
  created_at :: time
  send_sequence :: int
  receive_sequence :: int
  send_key :: bytes
  receive_key :: bytes

definition new_peer_session ::
  "string \<Rightarrow> string \<Rightarrow> json \<Rightarrow> bytes \<Rightarrow> bytes \<Rightarrow> time \<Rightarrow> bool \<Rightarrow> peer_session" where
  "new_peer_session sid local peer android_to_wisp wisp_to_android now android_side =
     \<lparr>session_id = sid, local_id = local, peer_id = peer, created_at = now,
      send_sequence = 0, receive_sequence = 0,
      send_key = (if android_side then android_to_wisp else wisp_to_android),
      receive_key = (if android_side then wisp_to_android else android_to_wisp)\<rparr>"

definition check_live :: "peer_session \<Rightarrow> time \<Rightarrow> unit result" where
  "check_live s now =
     (if now \<ge> created_at s + SESSION_LIFETIME_SECONDS then Inl (ValueError ''session expired'') else Inr ())"

definition bulk_key :: "hkdf \<Rightarrow> peer_session \<Rightarrow> json \<Rightarrow> bool \<Rightarrow> bytes result" where
  "bulk_key kdf s transfer sending =
     (case transfer of
        JStr t \<Rightarrow>
          if t = [] then Inl (ValueError ''bulk transfer id is required'')
          else Inr (kdf (if sending then send_key s else receive_key s) (utf8 t) (utf8 ''wispgate-bulk-v2''))
      | _ \<Rightarrow> Inl (ValueError ''bulk transfer id is required''))"

definition encrypt :: "aead \<Rightarrow> peer_session \<Rightarrow> jdict \<Rightarrow> time \<Rightarrow> jdict result \<times> peer_session" where
  "encrypt c s body now =
     (case check_live s now of
        Inl e \<Rightarrow> (Inl e, s)
      | Inr _ \<Rightarrow>
          let n = send_sequence s;
              envelope = session_route (session_id s) (JStr (local_id s)) (peer_id s) n;
              plaintext = utf8 (json_dumps (JObj body))
          in (case session_nonce (JInt n) of
                Inl e \<Rightarrow> (Inl e, s)
              | Inr nonce \<Rightarrow>
                  let ct = aes_gcm_encrypt c (send_key s) nonce plaintext
                             (session_aad (session_id s) (JStr (local_id s)) (peer_id s) n)
                  in (Inr (dput ''ciphertext'' (JStr (b64u ct)) envelope),
                      s\<lparr>send_sequence := n + 1\<rparr>)))"

text \<open>\<open>_unb64\<close> of an arbitrary value: anything but a string fails in \<open>len\<close> or \<open>+\<close>.\<close>

definition unb64_json :: "json \<Rightarrow> bytes result" where
  "unb64_json v = (case v of JStr t \<Rightarrow> unb64 t | _ \<Rightarrow> Inl TypeError)"

definition route_ok :: "peer_session \<Rightarrow> jdict \<Rightarrow> bool" where
  "route_ok s envelope \<longleftrightarrow>
     eq_int (jget envelope ''version'') 1 \<and> eq_str (jget envelope ''type'') ''session_envelope''
     \<and> eq_str (jget envelope ''session_id'') (session_id s)
     \<and> key_eq (jget envelope ''sender'') (peer_id s)
     \<and> eq_str (jget envelope ''recipient'') (local_id s)"

definition open_frame :: "aead \<Rightarrow> peer_session \<Rightarrow> jdict \<Rightarrow> time \<Rightarrow> jdict result" where
  "open_frame c s envelope now =
     bindE (check_live s now) (\<lambda>_.
     if \<not> route_ok s envelope then Inl (ValueError ''invalid session route'')
     else let seqv = jget envelope ''sequence'' in
       if \<not> eq_int seqv (receive_sequence s) then Inl (ValueError ''invalid session sequence'')
       else bindE (session_nonce seqv) (\<lambda>nonce.
            bindE (jitem envelope ''ciphertext'') (\<lambda>field.
            bindE (unb64_json field) (\<lambda>ct.
            case aes_gcm_decrypt c (receive_key s) nonce ct
                   (session_aad (session_id s) (peer_id s) (JStr (local_id s)) (receive_sequence s)) of
              None \<Rightarrow> Inl InvalidTag
            | Some plaintext \<Rightarrow>
                bindE (json_loads plaintext) (\<lambda>body.
                case body of
                  JObj d \<Rightarrow> Inr d
                | _ \<Rightarrow> Inl (ValueError ''session body must be an object''))))))"

text \<open>Only the very last statement of \<open>decrypt\<close> changes the session.\<close>

definition decrypt :: "aead \<Rightarrow> peer_session \<Rightarrow> jdict \<Rightarrow> time \<Rightarrow> jdict result \<times> peer_session" where
  "decrypt c s envelope now =
     (case open_frame c s envelope now of
        Inl e \<Rightarrow> (Inl e, s)
      | Inr body \<Rightarrow> (Inr body, s\<lparr>receive_sequence := receive_sequence s + 1\<rparr>))"

section \<open>Injectivity of nonces and additional data\<close>

definition from_be :: "bytes \<Rightarrow> int" where
  "from_be = foldl (\<lambda>a b. a * 256 + uint b) 0"

lemma length_be_bytes [simp]: "length (be_bytes n x) = n"
  by (induction n arbitrary: x) auto

lemma from_be_snoc: "from_be (bs @ [b]) = from_be bs * 256 + uint b"
  by (simp add: from_be_def)

lemma from_be_bytes: "from_be (be_bytes n x) = x mod 256 ^ n"
proof (induction n arbitrary: x)
  case 0
  then show ?case by (simp add: from_be_def)
next
  case (Suc n)
  have "uint (of_int (x mod 256) :: 8 word) = x mod 256"
    by (simp add: uint_word_of_int)
  then have "from_be (be_bytes (Suc n) x) = (x div 256 mod 256 ^ n) * 256 + x mod 256"
    by (simp add: from_be_snoc Suc.IH)
  also have "\<dots> = x mod 256 ^ Suc n"
    by (simp add: zmod_zmult2_eq mult.commute)
  finally show ?case .
qed

lemma session_nonce_eq:
  "session_nonce v = Inr n \<longleftrightarrow>
     (\<exists>i. v = JInt i \<and> 0 \<le> i \<and> i < 2 ^ 64 \<and> n = SESSION_NONCE_PREFIX @ be_bytes 8 i)"
  by (auto simp: session_nonce_def split: json.splits if_splits)

lemma session_nonce_inject:
  assumes "session_nonce v = Inr n" and "session_nonce w = Inr n"
  shows "v = w"
proof -
  from assms obtain i j where ij: "v = JInt i" "w = JInt j" "0 \<le> i" "i < 2 ^ 64" "0 \<le> j" "j < 2 ^ 64"
    "be_bytes 8 i = be_bytes 8 j"
    by (auto simp: session_nonce_eq)
  then have "i mod 256 ^ 8 = j mod 256 ^ 8"
    by (metis from_be_bytes)
  with ij show ?thesis by simp
qed

lemma sorted_session_route:
  "sort_by_key fst (session_route sid sender recipient n) =
     [(''recipient'', recipient), (''sender'', sender), (''sequence'', JInt n),
      (''session_id'', JStr sid), (''type'', JStr ''session_envelope''), (''version'', JInt 1)]"
  by (simp add: sort_by_key_def session_route_def code_def)

text \<open>The additional data authenticated with a session frame determine the whole route: two
  frames with the same additional data agree on session id, sender, recipient and sequence.\<close>

theorem session_aad_injective:
  "session_aad sid (JStr sender) (JStr recipient) n = session_aad sid' (JStr sender') (JStr recipient') n' \<longleftrightarrow>
     sid = sid' \<and> sender = sender' \<and> recipient = recipient' \<and> n = n'"
  by (auto simp: session_aad_def sorted_session_route json_dumps_inject wf_dict_def simp del: json_dumps.simps)

section \<open>The two operations, branch by branch\<close>

lemma session_nonce_JInt [simp]:
  "0 \<le> i \<Longrightarrow> i < 2 ^ 64 \<Longrightarrow> session_nonce (JInt i) = Inr (SESSION_NONCE_PREFIX @ be_bytes 8 i)"
  by (simp add: session_nonce_def)

lemma session_route_wf [simp]: "wf_dict (session_route a b c n)"
  by (simp add: session_route_def wf_dict_def)

lemma jget_session_route [simp]:
  "jget (session_route a b c n) ''version'' = JInt 1"
  "jget (session_route a b c n) ''type'' = JStr ''session_envelope''"
  "jget (session_route a b c n) ''session_id'' = JStr a"
  "jget (session_route a b c n) ''sender'' = b"
  "jget (session_route a b c n) ''recipient'' = c"
  "jget (session_route a b c n) ''sequence'' = JInt n"
  by (simp_all add: session_route_def)

definition live :: "peer_session \<Rightarrow> time \<Rightarrow> bool" where
  "live s now \<longleftrightarrow> now < created_at s + SESSION_LIFETIME_SECONDS"

lemma check_live_eq [simp]:
  "check_live s now = (if live s now then Inr () else Inl (ValueError ''session expired''))"
  by (simp add: check_live_def live_def not_less)

text \<open>The frame \<open>encrypt\<close> emits under a given sequence number.\<close>

definition sealed :: "aead \<Rightarrow> peer_session \<Rightarrow> jdict \<Rightarrow> int \<Rightarrow> bytes" where
  "sealed c s body n =
     aes_gcm_encrypt c (send_key s) (SESSION_NONCE_PREFIX @ be_bytes 8 n) (utf8 (json_dumps (JObj body)))
       (session_aad (session_id s) (JStr (local_id s)) (peer_id s) n)"

definition frame :: "aead \<Rightarrow> peer_session \<Rightarrow> jdict \<Rightarrow> int \<Rightarrow> jdict" where
  "frame c s body n =
     dput ''ciphertext'' (JStr (b64u (sealed c s body n)))
       (session_route (session_id s) (JStr (local_id s)) (peer_id s) n)"

lemma encrypt_eq:
  "encrypt c s body now =
     (if \<not> live s now then (Inl (ValueError ''session expired''), s)
      else if 0 \<le> send_sequence s \<and> send_sequence s < 2 ^ 64
      then (Inr (frame c s body (send_sequence s)), s\<lparr>send_sequence := send_sequence s + 1\<rparr>)
      else (Inl (ValueError ''invalid session sequence''), s))"
  by (simp add: encrypt_def frame_def sealed_def Let_def session_nonce_def)

lemma frame_fields [simp]:
  "jget (frame c s body n) ''sequence'' = JInt n"
  "jget (frame c s body n) ''ciphertext'' = JStr (b64u (sealed c s body n))"
  "jitem (frame c s body n) ''ciphertext'' = Inr (JStr (b64u (sealed c s body n)))"
  by (simp_all add: frame_def jitem_def)

lemma frame_route_ok:
  "session_id s = session_id r \<Longrightarrow> JStr (local_id s) = peer_id r \<Longrightarrow> peer_id s = JStr (local_id r) \<Longrightarrow>
     route_ok r (frame c s body n)"
  by (simp add: route_ok_def frame_def)

text \<open>What an accepted frame must look like.\<close>

lemma open_frameD:
  assumes "open_frame c s e now = Inr body"
  shows "live s now" and "route_ok s e" and "jget e ''sequence'' = JInt (receive_sequence s)"
    and "\<exists>t ct p. jget e ''ciphertext'' = JStr t \<and> unb64 t = Inr ct \<and>
           aes_gcm_decrypt c (receive_key s) (SESSION_NONCE_PREFIX @ be_bytes 8 (receive_sequence s)) ct
             (session_aad (session_id s) (peer_id s) (JStr (local_id s)) (receive_sequence s)) = Some p \<and>
           json_loads p = Inr (JObj body)"
    and "0 \<le> receive_sequence s" and "receive_sequence s < 2 ^ 64"
proof -
  show l: "live s now" and r: "route_ok s e"
    using assms by (auto simp: open_frame_def bindE_eq_Inr split: if_splits)
  have ei: "eq_int (jget e ''sequence'') (receive_sequence s)"
    using assms l r by (auto simp: open_frame_def bindE_eq_Inr Let_def split: if_splits)
  then obtain nonce field ct p v where
    n: "session_nonce (jget e ''sequence'') = Inr nonce" and
    f: "jitem e ''ciphertext'' = Inr field" "unb64_json field = Inr ct"
      "aes_gcm_decrypt c (receive_key s) nonce ct
        (session_aad (session_id s) (peer_id s) (JStr (local_id s)) (receive_sequence s)) = Some p"
      "json_loads p = Inr v" "(case v of JObj d \<Rightarrow> Inr d | _ \<Rightarrow> Inl (ValueError ''session body must be an object'')) = Inr body"
    using assms l r
    by (auto simp: open_frame_def bindE_eq_Inr Let_def split: if_splits option.splits)
  from n ei show q: "jget e ''sequence'' = JInt (receive_sequence s)"
    by (auto simp: session_nonce_eq)
  with n show "0 \<le> receive_sequence s" "receive_sequence s < 2 ^ 64"
    by (auto simp: session_nonce_eq)
  have "v = JObj body" using f(5) by (cases v) auto
  moreover obtain t where "field = JStr t" "unb64 t = Inr ct"
    using f(2) by (cases field) (auto simp: unb64_json_def)
  moreover have "jget e ''ciphertext'' = field"
    using f(1) by (auto simp: jitem_def jget_def dget_or_def split: option.splits)
  moreover have "nonce = SESSION_NONCE_PREFIX @ be_bytes 8 (receive_sequence s)"
    using n q by (auto simp: session_nonce_eq)
  ultimately show "\<exists>t ct p. jget e ''ciphertext'' = JStr t \<and> unb64 t = Inr ct \<and>
       aes_gcm_decrypt c (receive_key s) (SESSION_NONCE_PREFIX @ be_bytes 8 (receive_sequence s)) ct
         (session_aad (session_id s) (peer_id s) (JStr (local_id s)) (receive_sequence s)) = Some p \<and>
       json_loads p = Inr (JObj body)"
    using f by auto
qed

section \<open>Runs of a session\<close>

text \<open>A sender works through send requests, keeping what it emitted; failed attempts emit nothing.\<close>

fun encrypt_all ::
  "aead \<Rightarrow> peer_session \<Rightarrow> (jdict \<times> time) list \<Rightarrow> (jdict \<times> jdict) list \<times> peer_session" where
  "encrypt_all c s [] = ([], s)"
| "encrypt_all c s ((body, now) # reqs) =
     (case encrypt c s body now of
        (Inl _, s') \<Rightarrow> encrypt_all c s' reqs
      | (Inr e, s') \<Rightarrow> (let (es, s'') = encrypt_all c s' reqs in ((body, e) # es, s'')))"

text \<open>A receiver sees any list of envelopes; \<open>accepted\<close> are the bodies it lets through.\<close>

fun decrypt_all :: "aead \<Rightarrow> peer_session \<Rightarrow> (jdict \<times> time) list \<Rightarrow> jdict list \<times> peer_session" where
  "decrypt_all c s [] = ([], s)"
| "decrypt_all c s ((e, now) # arrivals) =
     (case decrypt c s e now of
        (Inl _, s') \<Rightarrow> decrypt_all c s' arrivals
      | (Inr body, s') \<Rightarrow> (let (bs, s'') = decrypt_all c s' arrivals in (body # bs, s'')))"

lemma frame_seq_update [simp]: "frame c (s\<lparr>send_sequence := n\<rparr>) body m = frame c s body m"
  by (simp add: frame_def sealed_def)

lemma live_seq_update [simp]:
  "live (s\<lparr>send_sequence := n\<rparr>) now = live s now"
  "live (s\<lparr>receive_sequence := n\<rparr>) now = live s now"
  by (simp_all add: live_def)

lemma encrypt_all_frames:
  assumes "encrypt_all c s reqs = (sent, t)"
  shows "t = s\<lparr>send_sequence := send_sequence s + int (length sent)\<rparr> \<and>
    (\<forall>i < length sent. snd (sent ! i) = frame c s (fst (sent ! i)) (send_sequence s + int i) \<and>
       0 \<le> send_sequence s \<and> send_sequence s + int i < 2 ^ 64)"
  using assms
proof (induction c s reqs arbitrary: sent t rule: encrypt_all.induct)
  case (1 c s)
  then show ?case by auto
next
  case (2 c s body now reqs)
  show ?case
  proof (cases "live s now \<and> 0 \<le> send_sequence s \<and> send_sequence s < 2 ^ 64")
    case True
    let ?s' = "s\<lparr>send_sequence := send_sequence s + 1\<rparr>"
    obtain es t' where rec: "encrypt_all c ?s' reqs = (es, t')" by force
    with "2.prems" True have sent: "sent = (body, frame c s body (send_sequence s)) # es" "t = t'"
      by (auto simp: encrypt_eq)
    have ih: "t' = ?s'\<lparr>send_sequence := send_sequence ?s' + int (length es)\<rparr> \<and>
      (\<forall>i < length es. snd (es ! i) = frame c ?s' (fst (es ! i)) (send_sequence ?s' + int i) \<and>
       0 \<le> send_sequence ?s' \<and> send_sequence ?s' + int i < 2 ^ 64)"
      by (rule "2.IH"(2) [OF _ refl rec]) (use True in \<open>simp_all add: encrypt_eq\<close>)
    show ?thesis
    proof (intro conjI allI impI)
      show "t = s\<lparr>send_sequence := send_sequence s + int (length sent)\<rparr>"
        using ih sent by simp
    next
      fix i assume i: "i < length sent"
      show "snd (sent ! i) = frame c s (fst (sent ! i)) (send_sequence s + int i)"
        "0 \<le> send_sequence s" "send_sequence s + int i < 2 ^ 64"
        using i ih sent True by (cases i; auto simp: algebra_simps)+
    qed
  next
    case False
    then obtain e where e: "encrypt c s body now = (Inl e, s)"
      by (metis encrypt_eq)
    with "2.prems" have run: "encrypt_all c s reqs = (sent, t)" by simp
    show ?thesis by (rule "2.IH"(1) [OF _ refl run]) (simp add: e)
  qed
qed

text \<open>C37: no nonce is ever used twice with a session's send key, whatever is sent, whenever, and
  however many attempts fail. Every emitted frame carries its sequence number, its ciphertext
  is the encryption under the send key, under the nonce of exactly that number, and the
  nonces of all frames of a run are pairwise different.\<close>

theorem session_nonces_never_repeat:
  "distinct (map (\<lambda>e. session_nonce (jget (snd e) ''sequence'')) (fst (encrypt_all c s reqs))) \<and>
   (\<forall>e \<in> set (fst (encrypt_all c s reqs)). \<exists>n nonce.
      jget (snd e) ''sequence'' = JInt n \<and> session_nonce (JInt n) = Inr nonce \<and>
      jget (snd e) ''ciphertext'' =
        JStr (b64u (aes_gcm_encrypt c (send_key s) nonce (utf8 (json_dumps (JObj (fst e))))
          (session_aad (session_id s) (JStr (local_id s)) (peer_id s) n))))"
proof -
  obtain sent t where run: "encrypt_all c s reqs = (sent, t)" by force
  note fr = encrypt_all_frames [OF run]
  let ?f = "\<lambda>e. session_nonce (jget (snd e) ''sequence'')"
  have nonce: "?f (sent ! i) = Inr (SESSION_NONCE_PREFIX @ be_bytes 8 (send_sequence s + int i))"
    and seq: "jget (snd (sent ! i)) ''sequence'' = JInt (send_sequence s + int i)"
    if "i < length sent" for i
    using fr that by auto
  have "distinct (map ?f sent)"
    unfolding distinct_conv_nth
  proof (intro allI impI)
    fix i j assume ij: "i < length (map ?f sent)" "j < length (map ?f sent)" "i \<noteq> j"
    show "map ?f sent ! i \<noteq> map ?f sent ! j"
    proof
      assume "map ?f sent ! i = map ?f sent ! j"
      with ij nonce [of i] nonce [of j]
      have "jget (snd (sent ! i)) ''sequence'' = jget (snd (sent ! j)) ''sequence''"
        by (intro session_nonce_inject) auto
      with ij seq [of i] seq [of j] show False by simp
    qed
  qed
  moreover have "\<exists>n nonce. jget (snd e) ''sequence'' = JInt n \<and> session_nonce (JInt n) = Inr nonce \<and>
      jget (snd e) ''ciphertext'' =
        JStr (b64u (aes_gcm_encrypt c (send_key s) nonce (utf8 (json_dumps (JObj (fst e))))
          (session_aad (session_id s) (JStr (local_id s)) (peer_id s) n)))" if "e \<in> set sent" for e
  proof -
    obtain i where i: "i < length sent" "e = sent ! i" using \<open>e \<in> set sent\<close> by (metis in_set_conv_nth)
    with fr nonce [OF i(1)] show ?thesis
      by (intro exI [of _ "send_sequence s + int i"]
            exI [of _ "SESSION_NONCE_PREFIX @ be_bytes 8 (send_sequence s + int i)"])
         (simp add: sealed_def)
  qed
  ultimately show ?thesis using run by simp
qed

section \<open>Paired sessions\<close>

definition paired :: "peer_session \<Rightarrow> peer_session \<Rightarrow> bool" where
  "paired a b \<longleftrightarrow> session_id a = session_id b \<and> JStr (local_id a) = peer_id b \<and> peer_id a = JStr (local_id b) \<and>
     send_key a = receive_key b \<and> receive_key a = send_key b"

lemma open_own_frame:
  assumes "aead_correct c" and "paired a b" and "wf_json (JObj body)" and "live b now"
    and "receive_sequence b = n" and "0 \<le> n" and "n < 2 ^ 64"
  shows "open_frame c b (frame c a body n) now = Inr body"
  using assms frame_route_ok [of a b c body n]
  by (simp add: open_frame_def paired_def unb64_json_def sealed_def aead_correct_def Let_def
      del: wf_json.simps json_dumps.simps)

lemma decrypt_own_frame:
  assumes "aead_correct c" and "paired a b" and "wf_json (JObj body)" and "live b now"
    and "receive_sequence b = n" and "0 \<le> n" and "n < 2 ^ 64"
  shows "decrypt c b (frame c a body n) now = (Inr body, b\<lparr>receive_sequence := n + 1\<rparr>)"
  using open_own_frame [OF assms] assms(5) by (simp add: decrypt_def)

text \<open>What one side sends the other side receives: a batch of bodies sent while the session is
  live arrives, over a network that keeps the order, as the same batch, and both counters
  have moved by its length.\<close>

theorem session_channel_roundtrip:
  assumes "aead_correct c" and "paired a b" and "send_sequence a = receive_sequence b"
    and "0 \<le> send_sequence a" and "send_sequence a + int (length bodies) \<le> 2 ^ 64"
    and "\<forall>m \<in> set bodies. wf_json (JObj m)" and "live a now" and "live b now'"
  shows "\<exists>sent. encrypt_all c a (map (\<lambda>m. (m, now)) bodies)
            = (sent, a\<lparr>send_sequence := send_sequence a + int (length bodies)\<rparr>) \<and>
          decrypt_all c b (map (\<lambda>e. (snd e, now')) sent)
            = (bodies, b\<lparr>receive_sequence := receive_sequence b + int (length bodies)\<rparr>)"
  using assms
proof (induction bodies arbitrary: a b)
  case Nil
  then show ?case by simp
next
  case (Cons m bodies)
  let ?n = "send_sequence a"
  let ?a = "a\<lparr>send_sequence := ?n + 1\<rparr>" and ?b = "b\<lparr>receive_sequence := ?n + 1\<rparr>"
  have "\<exists>sent. encrypt_all c ?a (map (\<lambda>m. (m, now)) bodies)
            = (sent, ?a\<lparr>send_sequence := send_sequence ?a + int (length bodies)\<rparr>) \<and>
          decrypt_all c ?b (map (\<lambda>e. (snd e, now')) sent)
            = (bodies, ?b\<lparr>receive_sequence := receive_sequence ?b + int (length bodies)\<rparr>)"
    by (rule Cons.IH) (use Cons.prems in \<open>auto simp: paired_def\<close>)
  then obtain sent where s: "encrypt_all c ?a (map (\<lambda>m. (m, now)) bodies)
            = (sent, ?a\<lparr>send_sequence := send_sequence ?a + int (length bodies)\<rparr>)"
    "decrypt_all c ?b (map (\<lambda>e. (snd e, now')) sent)
            = (bodies, ?b\<lparr>receive_sequence := receive_sequence ?b + int (length bodies)\<rparr>)"
    by blast
  have e: "encrypt c a m now = (Inr (frame c a m ?n), ?a)"
    using Cons.prems by (simp add: encrypt_eq)
  have d: "decrypt c b (frame c a m ?n) now' = (Inr m, ?b)"
    by (rule decrypt_own_frame) (use Cons.prems in auto)
  show ?case
    using e d s Cons.prems(3) by (intro exI [of _ "(m, frame c a m ?n) # sent"]) (simp add: algebra_simps)
qed

section \<open>A hostile network\<close>

text \<open>The triples (nonce, ciphertext, additional data) of a list of sent frames, numbered from \<open>n\<close>.\<close>

definition sent_triples ::
  "aead \<Rightarrow> peer_session \<Rightarrow> int \<Rightarrow> jdict list \<Rightarrow> (bytes \<times> bytes \<times> bytes) set" where
  "sent_triples c a n bodies =
     {(SESSION_NONCE_PREFIX @ be_bytes 8 (n + int i), sealed c a (bodies ! i) (n + int i),
       session_aad (session_id a) (JStr (local_id a)) (peer_id a) (n + int i)) | i. i < length bodies}"

definition presented_ciphertexts :: "(jdict \<times> time) list \<Rightarrow> bytes set" where
  "presented_ciphertexts arrivals =
     {ct. \<exists>e \<in> set (map fst arrivals). \<exists>t. jget e ''ciphertext'' = JStr t \<and> unb64 t = Inr ct}"

lemma presented_Cons:
  "presented_ciphertexts (x # xs) =
     {ct. \<exists>t. jget (fst x) ''ciphertext'' = JStr t \<and> unb64 t = Inr ct} \<union> presented_ciphertexts xs"
  by (auto simp: presented_ciphertexts_def)

lemma be_bytes_inject:
  assumes "be_bytes 8 i = be_bytes 8 j" and "0 \<le> i" "i < 2 ^ 64" "0 \<le> j" "j < 2 ^ 64"
  shows "i = j"
  using session_nonce_inject [of "JInt i" _ "JInt j"] assms by simp

lemma accepted_body:
  assumes correct: "aead_correct c" and pair: "paired a b"
    and recv: "receive_sequence b = n + int j"
    and n: "0 \<le> n" "\<forall>i < length bodies. n + int i < 2 ^ 64"
    and wf: "\<forall>m \<in> set bodies. wf_json (JObj m)"
    and auth: "aead_authentic c (receive_key b) P (sent_triples c a n bodies)"
    and P: "\<And>t ct. jget e ''ciphertext'' = JStr t \<Longrightarrow> unb64 t = Inr ct \<Longrightarrow> ct \<in> P"
    and ok: "open_frame c b e now = Inr body"
  shows "j < length bodies \<and> body = bodies ! j"
proof -
  let ?nonce = "SESSION_NONCE_PREFIX @ be_bytes 8 (receive_sequence b)"
  from open_frameD(4) [OF ok] obtain t ct p where
    ct: "jget e ''ciphertext'' = JStr t" "unb64 t = Inr ct" and
    dec: "aes_gcm_decrypt c (receive_key b) ?nonce ct
            (session_aad (session_id b) (peer_id b) (JStr (local_id b)) (receive_sequence b)) = Some p" and
    p: "json_loads p = Inr (JObj body)"
    by blast
  from auth P [OF ct] dec have "(?nonce, ct, session_aad (session_id b) (peer_id b) (JStr (local_id b)) (receive_sequence b))
      \<in> sent_triples c a n bodies"
    by (auto simp: aead_authentic_def)
  then obtain i where i: "i < length bodies" "?nonce = SESSION_NONCE_PREFIX @ be_bytes 8 (n + int i)"
    "ct = sealed c a (bodies ! i) (n + int i)"
    by (auto simp: sent_triples_def)
  have "receive_sequence b = n + int i"
    by (rule be_bytes_inject) (use i n open_frameD(5,6) [OF ok] in auto)
  with recv have ij: "i = j" by simp
  have "p = utf8 (json_dumps (JObj (bodies ! j)))"
    using dec i recv ij correct pair by (simp add: sealed_def aead_correct_def paired_def)
  with p wf i ij have "body = bodies ! j"
    by (metis Inr_inject json.inject(6) json_loads_dumps nth_mem)
  with i ij show ?thesis by simp
qed

lemma hostile_run:
  assumes "aead_correct c" and "paired a b"
    and "receive_sequence b = n + int j" and "j \<le> length bodies"
    and "0 \<le> n" and "\<forall>i < length bodies. n + int i < 2 ^ 64"
    and "\<forall>m \<in> set bodies. wf_json (JObj m)"
    and "aead_authentic c (receive_key b) (presented_ciphertexts arrivals) (sent_triples c a n bodies)"
  shows "prefix (fst (decrypt_all c b arrivals)) (drop j bodies)"
  using assms
proof (induction arrivals arbitrary: b j)
  case Nil
  then show ?case by simp
next
  case (Cons x arrivals)
  obtain e now where x: "x = (e, now)" by force
  have auth: "aead_authentic c (receive_key b) (presented_ciphertexts arrivals) (sent_triples c a n bodies)"
    using Cons.prems(8) by (auto simp: aead_authentic_def presented_Cons)
  show ?case
  proof (cases "open_frame c b e now")
    case (Inl err)
    with x show ?thesis
      using Cons.IH [OF Cons.prems(1-7) auth] by (simp add: decrypt_def)
  next
    case (Inr body)
    let ?b = "b\<lparr>receive_sequence := receive_sequence b + 1\<rparr>"
    have j: "j < length bodies \<and> body = bodies ! j"
    proof (rule accepted_body [OF Cons.prems(1-3,5-8) _ Inr])
      fix t ct assume "jget e ''ciphertext'' = JStr t" "unb64 t = Inr ct"
      then show "ct \<in> presented_ciphertexts (x # arrivals)"
        using x by (auto simp: presented_Cons)
    qed
    have "prefix (fst (decrypt_all c ?b arrivals)) (drop (Suc j) bodies)"
    proof (rule Cons.IH)
      show "paired a ?b" "receive_sequence ?b = n + int (Suc j)"
        using Cons.prems(2,3) by (simp_all add: paired_def)
      show "aead_authentic c (receive_key ?b) (presented_ciphertexts arrivals) (sent_triples c a n bodies)"
        using auth by simp
    qed (use Cons.prems j in auto)
    with x Inr j show ?thesis
      by (auto simp: decrypt_def Cons_nth_drop_Suc [symmetric] split: prod.split)
  qed
qed

text \<open>C1: over a hostile network (frames dropped, replayed, reordered, rewritten, invented) the
  receiver accepts exactly a prefix of what the paired sender sent, in order and each body at
  most once, as long as no presented ciphertext opens except as the frame it was sealed for.\<close>

theorem session_accepts_prefix_of_sent:
  assumes "aead_correct c" and "paired a b" and "send_sequence a = receive_sequence b"
    and "0 \<le> send_sequence a"
    and "\<forall>r \<in> set reqs. wf_json (JObj (fst r))"
    and "bodies = map fst (fst (encrypt_all c a reqs))"
    and "aead_authentic c (receive_key b) (presented_ciphertexts arrivals)
           (sent_triples c a (send_sequence a) bodies)"
  shows "prefix (fst (decrypt_all c b arrivals)) bodies"
proof -
  obtain sent t where run: "encrypt_all c a reqs = (sent, t)" by force
  have sub: "set (map fst (fst (encrypt_all c s rs))) \<subseteq> set (map fst rs)" for s rs
    by (induction c s rs rule: encrypt_all.induct) (force split: prod.splits sum.splits)+
  have "\<forall>m \<in> set bodies. wf_json (JObj m)"
    using sub [of a reqs] assms(5,6) by fastforce
  moreover have "\<forall>i < length bodies. send_sequence a + int i < 2 ^ 64"
    using encrypt_all_frames [OF run] run assms(6) by auto
  ultimately show ?thesis
    using hostile_run [OF assms(1,2), of "send_sequence a" 0 bodies arrivals] assms by simp
qed

section \<open>Replays, expiry and the handshake\<close>

lemma decrypt_cases:
  obtains (rejected) err where "decrypt c s e now = (Inl err, s)"
  | (accepted) body where "open_frame c s e now = Inr body"
      "decrypt c s e now = (Inr body, s\<lparr>receive_sequence := receive_sequence s + 1\<rparr>)"
  by (cases "open_frame c s e now") (auto simp: decrypt_def)

text \<open>A receiving session only ever moves its counter, upwards.\<close>

lemma decrypt_all_state:
  "\<exists>n \<ge> receive_sequence s. snd (decrypt_all c s arrivals) = s\<lparr>receive_sequence := n\<rparr>"
proof (induction c s arrivals rule: decrypt_all.induct)
  case (1 c s)
  then show ?case by (intro exI [of _ "receive_sequence s"]) simp
next
  case (2 c s e now arrivals)
  show ?case
  proof (cases rule: decrypt_cases [of c s e now])
    case (rejected err)
    with "2.IH"(1) [of "Inl err" s err] show ?thesis by simp
  next
    case (accepted body)
    with "2.IH"(2) [OF accepted(2) [symmetric] refl] obtain n
      where "n \<ge> receive_sequence s + 1"
        "snd (decrypt_all c (s\<lparr>receive_sequence := receive_sequence s + 1\<rparr>) arrivals) = s\<lparr>receive_sequence := n\<rparr>"
      by auto
    with accepted show ?thesis by (intro exI [of _ n]) (auto split: prod.split)
  qed
qed

text \<open>An accepted frame is never accepted again: after any further traffic, whatever it was, the
  same envelope is refused with an error and the session is left as it is.\<close>

theorem session_replay_rejected:
  assumes "decrypt c s e now = (Inr body, s')"
  shows "\<exists>m. decrypt c (snd (decrypt_all c s' arrivals)) e now'
             = (Inl (ValueError m), snd (decrypt_all c s' arrivals))
           \<and> m \<in> {''session expired'', ''invalid session sequence''}"
proof -
  have ok: "open_frame c s e now = Inr body" and s': "s' = s\<lparr>receive_sequence := receive_sequence s + 1\<rparr>"
    using assms by (cases rule: decrypt_cases [of c s e now]; simp)+
  obtain n where n: "n \<ge> receive_sequence s + 1" and t: "snd (decrypt_all c s' arrivals) = s\<lparr>receive_sequence := n\<rparr>"
    using decrypt_all_state [of s' c arrivals] s' by auto
  from open_frameD [OF ok] have "route_ok (s\<lparr>receive_sequence := n\<rparr>) e"
    "jget e ''sequence'' = JInt (receive_sequence s)"
    by (simp_all add: route_ok_def)
  with n show ?thesis
    unfolding t by (simp add: decrypt_def open_frame_def)
qed

text \<open>A session has an absolute lifetime of thirty minutes that no activity extends: after any
  sends and any deliveries, at or past the deadline neither operation succeeds, and neither
  changes the session.\<close>

theorem session_lifetime_is_absolute:
  assumes "created_at s + 1800 \<le> now"
    and "s' = snd (decrypt_all c (snd (encrypt_all c s reqs)) arrivals)"
  shows "encrypt c s' body now = (Inl (ValueError ''session expired''), s')
       \<and> decrypt c s' e now = (Inl (ValueError ''session expired''), s')"
proof -
  obtain sent t where run: "encrypt_all c s reqs = (sent, t)" by force
  obtain n where "s' = t\<lparr>receive_sequence := n\<rparr>"
    using decrypt_all_state [of t c arrivals] assms(2) run by auto
  with encrypt_all_frames [OF run] have "created_at s' = created_at s" by simp
  then have "\<not> live s' now"
    using assms(1) by (simp add: live_def SESSION_LIFETIME_SECONDS_def)
  then show ?thesis
    by (simp_all add: encrypt_eq decrypt_def open_frame_def)
qed

text \<open>The two ends of a handshake, the Android side and the Wisp side, build sessions from one
  master secret that pair up: what one sends with the other receives with, and both counters
  start together.\<close>

theorem handshake_sessions_pair:
  assumes "derive_session_keys kdf master sid = Inr (android_key, wisp_key)"
  shows "paired (new_peer_session sid android (JStr wisp) android_key wisp_key t True)
                (new_peer_session sid wisp (JStr android) android_key wisp_key t' False)
       \<and> paired (new_peer_session sid wisp (JStr android) android_key wisp_key t' False)
                (new_peer_session sid android (JStr wisp) android_key wisp_key t True)
       \<and> send_sequence (new_peer_session sid android (JStr wisp) android_key wisp_key t True)
         = receive_sequence (new_peer_session sid wisp (JStr android) android_key wisp_key t' False)
       \<and> length master = 32 \<and> sid \<noteq> []
       \<and> android_key = kdf master (utf8 sid) ANDROID_TO_WISP \<and> wisp_key = kdf master (utf8 sid) WISP_TO_ANDROID"
  using assms by (auto simp: paired_def new_peer_session_def derive_session_keys_def split: if_splits)

section \<open>Witnesses\<close>

text \<open>
  A concrete cipher for the hypotheses above: the ciphertext spells out the nonce and the
  additional data (lengths in unary) before the plaintext. It hides nothing, but it meets
  both predicates, as a real AEAD does towards an adversary without the key.
\<close>

definition demo_header :: "bytes \<Rightarrow> bytes \<Rightarrow> bytes" where
  "demo_header n a = replicate (length n) 1 @ [0] @ n @ replicate (length a) 1 @ [0] @ a"

definition demo_aead :: aead where
  "demo_aead =
     \<lparr>aes_gcm_encrypt = (\<lambda>k n p a. demo_header n a @ p),
      aes_gcm_decrypt = (\<lambda>k n ct a.
        if take (length (demo_header n a)) ct = demo_header n a
        then Some (drop (length (demo_header n a)) ct) else None)\<rparr>"

lemma demo_correct: "aead_correct demo_aead"
  by (simp add: aead_correct_def demo_aead_def)

lemma unary_inject:
  "replicate m (1 :: 8 word) @ 0 # xs = replicate m' 1 @ 0 # xs' \<Longrightarrow> m = m' \<and> xs = xs'"
proof (induction m arbitrary: m')
  case 0
  then show ?case by (cases m') auto
next
  case (Suc m)
  then show ?case by (cases m') auto
qed

lemma demo_header_inject: "demo_header n a @ p = demo_header n' a' @ p' \<Longrightarrow> n = n' \<and> a = a'"
  by (auto simp: demo_header_def dest!: unary_inject)

lemma demo_authentic:
  assumes "\<And>ct. ct \<in> P \<Longrightarrow> \<exists>i < length bodies. ct = sealed demo_aead a (bodies ! i) (n + int i)"
  shows "aead_authentic demo_aead k P (sent_triples demo_aead a n bodies)"
  unfolding aead_authentic_def
proof (intro ballI allI impI)
  fix ct m ad p
  assume "ct \<in> P" and dec: "aes_gcm_decrypt demo_aead k m ct ad = Some p"
  from assms [OF this(1)] obtain i where i: "i < length bodies" "ct = sealed demo_aead a (bodies ! i) (n + int i)"
    by blast
  have "ct = demo_header m ad @ p"
    using dec by (auto simp: demo_aead_def split: if_splits) (metis append_take_drop_id)
  moreover have "ct = demo_header (SESSION_NONCE_PREFIX @ be_bytes 8 (n + int i))
      (session_aad (session_id a) (JStr (local_id a)) (peer_id a) (n + int i)) @ utf8 (json_dumps (JObj (bodies ! i)))"
    using i by (simp add: sealed_def demo_aead_def)
  ultimately have "m = SESSION_NONCE_PREFIX @ be_bytes 8 (n + int i)
      \<and> ad = session_aad (session_id a) (JStr (local_id a)) (peer_id a) (n + int i)"
    using demo_header_inject by metis
  with i show "(m, ct, ad) \<in> sent_triples demo_aead a n bodies"
    by (auto simp: sent_triples_def)
qed

definition demo_android :: peer_session where
  "demo_android = new_peer_session ''s1'' ''android'' (JStr ''wisp'') [1] [2] 0 True"

definition demo_wisp :: peer_session where
  "demo_wisp = new_peer_session ''s1'' ''wisp'' (JStr ''android'') [1] [2] 0 False"

lemmas demo_sessions = demo_android_def demo_wisp_def new_peer_session_def

lemma demo_paired: "paired demo_android demo_wisp"
  by (simp add: paired_def demo_sessions)

lemma demo_live: "live demo_android 5" "live demo_wisp 5"
  by (simp_all add: live_def demo_sessions SESSION_LIFETIME_SECONDS_def)

lemma session_nonces_never_repeat_witness:
  "length (fst (encrypt_all demo_aead demo_android [([(''x'', JInt 7)], 5), ([], 5)])) = 2 \<and>
   distinct (map (\<lambda>e. session_nonce (jget (snd e) ''sequence''))
     (fst (encrypt_all demo_aead demo_android [([(''x'', JInt 7)], 5), ([], 5)])))"
proof -
  have "length (fst (encrypt_all demo_aead demo_android [([(''x'', JInt 7)], 5), ([], 5)])) = 2"
    by (simp add: encrypt_eq) (simp add: demo_sessions live_def SESSION_LIFETIME_SECONDS_def)
  with session_nonces_never_repeat [of demo_aead demo_android "[([(''x'', JInt 7)], 5), ([], 5)]"]
  show ?thesis by blast
qed

lemma session_channel_roundtrip_witness:
  "\<exists>sent. encrypt_all demo_aead demo_android (map (\<lambda>m. (m, 5)) [[(''wisp_id'', JStr ''prime'')], []])
       = (sent, demo_android\<lparr>send_sequence := send_sequence demo_android + int (length [[(''wisp_id'', JStr ''prime'')], []])\<rparr>) \<and>
     decrypt_all demo_aead demo_wisp (map (\<lambda>e. (snd e, 5)) sent)
       = ([[(''wisp_id'', JStr ''prime'')], []],
          demo_wisp\<lparr>receive_sequence := receive_sequence demo_wisp + int (length [[(''wisp_id'', JStr ''prime'')], []])\<rparr>)"
  by (rule session_channel_roundtrip [OF demo_correct demo_paired])
     (simp_all add: demo_live wf_dict_def, simp_all add: demo_sessions)

lemma session_accepts_prefix_of_sent_witness:
  "prefix (fst (decrypt_all demo_aead demo_wisp
      [(frame demo_aead demo_android [(''x'', JInt 7)] 0, 5), (frame demo_aead demo_android [(''x'', JInt 7)] 0, 6)]))
    (map fst (fst (encrypt_all demo_aead demo_android [([(''x'', JInt 7)], 5)])))"
proof (rule session_accepts_prefix_of_sent [OF demo_correct demo_paired _ _ _ refl])
  have run: "map fst (fst (encrypt_all demo_aead demo_android [([(''x'', JInt 7)], 5)])) = [[(''x'', JInt 7)]]"
    using demo_live by (simp add: encrypt_eq) (simp add: demo_sessions)
  show "aead_authentic demo_aead (receive_key demo_wisp)
      (presented_ciphertexts [(frame demo_aead demo_android [(''x'', JInt 7)] 0, 5), (frame demo_aead demo_android [(''x'', JInt 7)] 0, 6)])
      (sent_triples demo_aead demo_android (send_sequence demo_android)
        (map fst (fst (encrypt_all demo_aead demo_android [([(''x'', JInt 7)], 5)]))))"
    unfolding run
    by (rule demo_authentic) (simp add: presented_ciphertexts_def, simp add: demo_sessions)
qed (simp_all add: demo_sessions wf_dict_def)

lemma session_replay_rejected_witness:
  "\<exists>m. decrypt demo_aead (snd (decrypt_all demo_aead (demo_wisp\<lparr>receive_sequence := 1\<rparr>) []))
         (frame demo_aead demo_android [(''x'', JInt 7)] 0) 6
       = (Inl (ValueError m), snd (decrypt_all demo_aead (demo_wisp\<lparr>receive_sequence := 1\<rparr>) []))
     \<and> m \<in> {''session expired'', ''invalid session sequence''}"
proof (rule session_replay_rejected)
  show "decrypt demo_aead demo_wisp (frame demo_aead demo_android [(''x'', JInt 7)] 0) 5
      = (Inr [(''x'', JInt 7)], demo_wisp\<lparr>receive_sequence := 1\<rparr>)"
    using decrypt_own_frame [OF demo_correct demo_paired _ demo_live(2), of "[(''x'', JInt 7)]" 0]
    by (simp add: wf_dict_def) (simp add: demo_sessions)
qed

lemma session_lifetime_is_absolute_witness:
  "encrypt demo_aead (snd (decrypt_all demo_aead (snd (encrypt_all demo_aead demo_wisp [([], 5)])) [])) [] 1800
     = (Inl (ValueError ''session expired''),
        snd (decrypt_all demo_aead (snd (encrypt_all demo_aead demo_wisp [([], 5)])) []))
   \<and> decrypt demo_aead (snd (decrypt_all demo_aead (snd (encrypt_all demo_aead demo_wisp [([], 5)])) [])) [] 1800
     = (Inl (ValueError ''session expired''),
        snd (decrypt_all demo_aead (snd (encrypt_all demo_aead demo_wisp [([], 5)])) []))"
  by (rule session_lifetime_is_absolute [OF _ refl]) (simp add: demo_sessions)

lemma labels_differ: "ANDROID_TO_WISP \<noteq> WISP_TO_ANDROID"
  by (simp add: ANDROID_TO_WISP_def WISP_TO_ANDROID_def del: utf8_simps)

lemma handshake_sessions_pair_witness:
  "paired (new_peer_session ''s'' ''a'' (JStr ''w'') [1] [2] 0 True) (new_peer_session ''s'' ''w'' (JStr ''a'') [1] [2] 0 False)"
  using handshake_sessions_pair
    [of "\<lambda>m sid label. if label = ANDROID_TO_WISP then [1] else [2]" "replicate 32 0" "''s''" "[1]" "[2]" "''a''" "''w''" 0 0]
    labels_differ
  by (simp add: derive_session_keys_def)

end
