(* ===== verification/Crypto.thy ===== *)
theory Crypto
  imports Session
begin

text \<open>
  The public-key primitives the repository takes from the \<open>cryptography\<close> package, as a
  record of functions, with the documented facts the theorems rely on. Randomness is an
  explicit argument: the seed of OAEP and the salt of PSS. A public key object is named
  by its DER encoding; \<open>spki_der\<close> is the encoding \<open>public_bytes\<close> writes for the key
  loaded from a given encoding.
\<close>

datatype public_key = RSAPublicKey nat | OtherPublicKey

datatype mgf = MGF1_SHA1 | MGF1_SHA256

record 'k rsa =
  public_der :: "'k \<Rightarrow> bytes"
  load_der :: "bytes \<Rightarrow> public_key option"
  spki_der :: "bytes \<Rightarrow> bytes"
  oaep_encrypt :: "mgf \<Rightarrow> bytes \<Rightarrow> bytes \<Rightarrow> bytes \<Rightarrow> bytes option"
  oaep_decrypt :: "mgf \<Rightarrow> 'k \<Rightarrow> bytes \<Rightarrow> bytes option"
  pss_sign :: "'k \<Rightarrow> bytes \<Rightarrow> bytes \<Rightarrow> bytes"
  pss_verify :: "bytes \<Rightarrow> bytes \<Rightarrow> bytes \<Rightarrow> bool"

text \<open>
  What is relied on of a private key of at least 2048 bits: its public half loads, short
  values encrypted to it decrypt to themselves, and its signatures verify.
\<close>

definition rsa_correct :: "'k rsa \<Rightarrow> 'k \<Rightarrow> bool" where
  "rsa_correct r k \<longleftrightarrow>
     (\<exists>n \<ge> 2048. load_der r (public_der r k) = Some (RSAPublicKey n)) \<and>
     spki_der r (public_der r k) = public_der r k \<and>
     (\<forall>g seed v. length v \<le> 190 \<longrightarrow>
        (\<exists>ct. oaep_encrypt r g (public_der r k) seed v = Some ct \<and> oaep_decrypt r g k ct = Some v)) \<and>
     (\<forall>salt data. pss_verify r (public_der r k) (pss_sign r k salt data) data)"

lemma rsa_correctD:
  assumes "rsa_correct r k"
  shows "\<exists>n \<ge> 2048. load_der r (public_der r k) = Some (RSAPublicKey n)"
    and "length v \<le> 190 \<Longrightarrow>
        \<exists>ct. oaep_encrypt r g (public_der r k) seed v = Some ct \<and> oaep_decrypt r g k ct = Some v"
    and "pss_verify r (public_der r k) (pss_sign r k salt data) data"
    and "spki_der r (public_der r k) = public_der r k"
  using assms by (simp_all add: rsa_correct_def)

text \<open>
  The contract of OAEP for values of any length: what the encryption accepts, the private key
  gives back. How much it accepts depends on the size of the key.
\<close>

definition oaep_correct :: "'k rsa \<Rightarrow> mgf \<Rightarrow> 'k \<Rightarrow> bool" where
  "oaep_correct r g k \<longleftrightarrow>
     (\<forall>seed v ct. oaep_encrypt r g (public_der r k) seed v = Some ct \<longrightarrow> oaep_decrypt r g k ct = Some v)"

text \<open>
  Unforgeability of the signatures that were presented: under the public key one of them
  verifies only for data that the holder of the private key signed.
\<close>

definition pss_unforgeable :: "'k rsa \<Rightarrow> bytes \<Rightarrow> bytes set \<Rightarrow> bytes set \<Rightarrow> bool" where
  "pss_unforgeable r der presented S \<longleftrightarrow>
     (\<forall>s \<in> presented. \<forall>data. pss_verify r der s data \<longrightarrow> data \<in> S)"

section \<open>Failures as exceptions\<close>

definition load_key :: "'k rsa \<Rightarrow> bytes \<Rightarrow> public_key result" where
  "load_key r der =
     (case load_der r der of None \<Rightarrow> Inl (ValueError ''could not load key'') | Some k \<Rightarrow> Inr k)"

definition oaep_open :: "'k rsa \<Rightarrow> mgf \<Rightarrow> 'k \<Rightarrow> bytes \<Rightarrow> bytes result" where
  "oaep_open r g k ct =
     (case oaep_decrypt r g k ct of None \<Rightarrow> Inl (ValueError ''Decryption failed'') | Some v \<Rightarrow> Inr v)"

definition oaep_seal :: "'k rsa \<Rightarrow> mgf \<Rightarrow> bytes \<Rightarrow> bytes \<Rightarrow> bytes \<Rightarrow> bytes result" where
  "oaep_seal r g der seed v =
     (case oaep_encrypt r g der seed v of None \<Rightarrow> Inl (ValueError ''Encryption failed'') | Some ct \<Rightarrow> Inr ct)"

text \<open>\<open>AESGCM(key)\<close> checks the key length, \<open>decrypt\<close> the nonce length before the tag.\<close>

definition aes_key :: "bytes \<Rightarrow> bytes result" where
  "aes_key key =
     (if length key \<in> {16, 24, 32} then Inr key
      else Inl (ValueError ''AESGCM key must be 128, 192, or 256 bits.''))"

definition aes_open :: "aead \<Rightarrow> bytes \<Rightarrow> bytes \<Rightarrow> bytes \<Rightarrow> bytes \<Rightarrow> bytes result" where
  "aes_open c key nonce ct ad =
     (if length nonce < 8 \<or> 128 < length nonce then Inl (ValueError ''Nonce must be between 8 and 128 bytes'')
      else case aes_gcm_decrypt c key nonce ct ad of None \<Rightarrow> Inl InvalidTag | Some p \<Rightarrow> Inr p)"

lemma aes_open_seal:
  "aead_correct c \<Longrightarrow> length key = 32 \<Longrightarrow> length nonce = 12 \<Longrightarrow>
     aes_key key = Inr key \<and> aes_open c key nonce (aes_gcm_encrypt c key nonce p ad) ad = Inr p"
  by (simp add: aes_key_def aes_open_def aead_correct_def)

section \<open>Text as bytes\<close>

text \<open>\<open>s.encode("ascii")\<close> and \<open>b.decode("ascii")\<close>.\<close>

definition ascii_encode :: "string \<Rightarrow> bytes result" where
  "ascii_encode s = (if \<forall>c \<in> set s. code c < 128 then Inr (map (\<lambda>c. of_nat (code c)) s) else Inl DecodeError)"

definition ascii_decode :: "bytes \<Rightarrow> string result" where
  "ascii_decode bs =
     (if \<forall>b \<in> set bs. unat b < 128 then Inr (map (\<lambda>b. char_of (unat b)) bs) else Inl DecodeError)"

lemma ascii_roundtrip: "ascii_encode s = Inr bs \<Longrightarrow> ascii_decode bs = Inr s"
  by (auto simp: ascii_encode_def ascii_decode_def comp_def intro!: map_idI split: if_splits)

lemma ascii_utf8: "ascii_encode s = Inr bs \<Longrightarrow> bs = utf8 s"
proof -
  have "\<forall>c \<in> set s. code c < 128 \<Longrightarrow> map (\<lambda>c. of_nat (code c)) s = utf8 s"
    by (induction s) (simp_all add: utf8_char_def)
  then show "ascii_encode s = Inr bs \<Longrightarrow> bs = utf8 s"
    by (auto simp: ascii_encode_def split: if_splits)
qed

lemma ascii_inject: "ascii_encode s = Inr bs \<Longrightarrow> ascii_encode t = Inr bs \<Longrightarrow> s = t"
  using ascii_roundtrip by (metis Inr_inject)

lemma b64u_encodes: "\<exists>bs'. ascii_encode (b64u bs) = Inr bs' \<and> 0 \<notin> set bs'"
proof -
  have "\<forall>c \<in> set (b64u bs). code c < 128" using b64u_ascii [of _ bs "[]"] by auto
  moreover have "\<forall>c \<in> set (b64u bs). code c \<noteq> 0"
  proof
    fix c assume "c \<in> set (b64u bs)"
    then obtain n where n: "n \<in> set (sextets (map unat bs))" "c = b64_char n" by (auto simp: b64u_def)
    then have "n < 64" using sextets_less [of "map unat bs"] by auto
    then show "code c \<noteq> 0" unfolding n(2) by (auto simp: b64_char_def code_def split: if_splits)
  qed
  ultimately show ?thesis
    by (force simp: ascii_encode_def word_of_nat_eq_0_iff dest: nat_dvd_not_less)
qed

text \<open>\<open>v.encode("ascii")\<close> of a decoded value.\<close>

definition ascii_field :: "json \<Rightarrow> bytes result" where
  "ascii_field v = (case v of JStr s \<Rightarrow> ascii_encode s | _ \<Rightarrow> Inl (AttributeError ''encode''))"

lemma ascii_field_eq: "ascii_field v = Inr bs \<longleftrightarrow> (\<exists>s. v = JStr s \<and> ascii_encode s = Inr bs)"
  by (cases v) (auto simp: ascii_field_def)

section \<open>Joining with NUL\<close>

lemma join0_count:
  "parts \<noteq> [] \<Longrightarrow> count_list (join0 parts) 0 + 1 = length parts + sum_list (map (\<lambda>p. count_list p 0) parts)"
  unfolding join0_def
proof (induction "[0 :: 8 word]" parts rule: intercalate.induct)
  case 1
  then show ?case by simp
next
  case (2 x)
  then show ?case by simp
next
  case (3 x y xs)
  then show ?case by simp
qed

lemma append_zero_split:
  "0 \<notin> set a \<Longrightarrow> 0 \<notin> set b \<Longrightarrow> a @ (0 :: 8 word) # x = b @ 0 # y \<Longrightarrow> a = b \<and> x = y"
proof (induction a arbitrary: b)
  case Nil
  then show ?case by (cases b) auto
next
  case (Cons c a)
  then show ?case by (cases b) auto
qed

lemma join0_inject:
  "length ps = length qs \<Longrightarrow> \<forall>p \<in> set ps. 0 \<notin> set p \<Longrightarrow> \<forall>q \<in> set qs. 0 \<notin> set q \<Longrightarrow>
     join0 ps = join0 qs \<Longrightarrow> ps = qs"
proof (induction ps qs rule: list_induct2)
  case Nil
  then show ?case by simp
next
  case (Cons p ps q qs)
  show ?case
  proof (cases ps)
    case Nil
    with Cons show ?thesis by (simp add: join0_def)
  next
    case (Cons p' ps')
    then obtain q' qs' where qs: "qs = q' # qs'" using Cons.hyps by (cases qs) auto
    have "p @ 0 # join0 ps = q @ 0 # join0 qs"
      using Cons.prems(3) Cons qs by (simp add: join0_def)
    then have "p = q \<and> join0 ps = join0 qs"
      by (rule append_zero_split [rotated 2]) (use Cons.prems in simp_all)
    with Cons.IH Cons.prems show ?thesis by simp
  qed
qed

text \<open>
  A join of parts without NUL determines the parts even against a join of parts that may
  hold NULs: the number of separators gives those away.
\<close>

lemma join0_unambiguous:
  assumes "length ps = length qs" and "ps \<noteq> []" and "\<forall>q \<in> set qs. 0 \<notin> set q" and "join0 ps = join0 qs"
  shows "ps = qs"
proof (rule join0_inject [OF assms(1) _ assms(3,4)])
  have "qs \<noteq> []" using assms(1,2) by auto
  moreover have "sum_list (map (\<lambda>q. count_list q 0) qs) = 0"
    using assms(3) by (simp add: sum_list_eq_0_iff count_list_0_iff)
  ultimately have "sum_list (map (\<lambda>p. count_list p 0) ps) = 0"
    using join0_count [OF assms(2)] join0_count [of qs] assms(1,4) by simp
  then show "\<forall>p \<in> set ps. 0 \<notin> set p"
    by (simp add: sum_list_eq_0_iff count_list_0_iff)
qed

end
