(* ===== verification/Envelope.thy ===== *)
theory Envelope
  imports Crypto
begin

text \<open>
  \<open>appserve/e2e.py\<close>, the public-key envelope that bootstraps a peer session: a random
  content key under RSA-OAEP, the body under AES-GCM with the route as additional data,
  and a PSS signature over all of it. The sampled content key, nonce, OAEP seed and PSS
  salt are arguments.
\<close>

definition E2E_ALGORITHM :: string where
  "E2E_ALGORITHM = ''RSA-OAEP-256+A256GCM+PS256''"

definition public_key_text :: "'k rsa \<Rightarrow> 'k \<Rightarrow> string" where
  "public_key_text r k = b64u (public_der r k)"

text \<open>\<open>_public_key\<close>: the encoding of the RSA key that a text stands for.\<close>

definition peer_key :: "'k rsa \<Rightarrow> json \<Rightarrow> bytes result" where
  "peer_key r v =
     bindE (unb64_json v) (\<lambda>der.
     bindE (load_key r der) (\<lambda>key.
     case key of
       RSAPublicKey _ \<Rightarrow> Inr der
     | OtherPublicKey \<Rightarrow> Inl (ValueError ''WispGate peer key must be RSA'')))"

lemma peer_key_der: "peer_key r v = Inr der \<Longrightarrow> unb64_json v = Inr der"
  by (cases "unb64_json v")
     (auto simp: peer_key_def load_key_def split: option.split_asm public_key.split_asm)

definition envelope_aad :: "jdict \<Rightarrow> bytes result" where
  "envelope_aad e =
     bindE (jitem e ''version'') (\<lambda>version.
     bindE (jitem e ''type'') (\<lambda>type.
     bindE (jitem e ''sender'') (\<lambda>sender.
     bindE (jitem e ''recipient'') (\<lambda>recipient.
     bindE (jitem e ''message_id'') (\<lambda>message_id.
     bindE (jitem e ''algorithm'') (\<lambda>algorithm.
     Inr (utf8 (json_dumps (JObj (sort_by_key fst
       [(''version'', version), (''type'', type), (''sender'', sender), (''recipient'', recipient),
        (''message_id'', message_id), (''algorithm'', algorithm)]))))))))))"

definition signed_bytes :: "jdict \<Rightarrow> bytes result" where
  "signed_bytes e =
     bindE (envelope_aad e) (\<lambda>aad.
     bindE (jitem e ''encrypted_key'') (\<lambda>k. bindE (ascii_field k) (\<lambda>encrypted_key.
     bindE (jitem e ''nonce'') (\<lambda>n. bindE (ascii_field n) (\<lambda>nonce.
     bindE (jitem e ''ciphertext'') (\<lambda>c. bindE (ascii_field c) (\<lambda>ciphertext.
     Inr (join0 [aad, encrypted_key, nonce, ciphertext]))))))))"

definition encrypt_envelope ::
  "'k rsa \<Rightarrow> aead \<Rightarrow> bytes \<Rightarrow> bytes \<Rightarrow> bytes \<Rightarrow> bytes \<Rightarrow> string \<Rightarrow> string \<Rightarrow> string \<Rightarrow> jdict \<Rightarrow> json
     \<Rightarrow> 'k \<Rightarrow> bool \<Rightarrow> jdict result" where
  "encrypt_envelope r c content_key nonce seed salt sender recipient message_id body
       recipient_public_key sender_private_key advertise_sender_key =
     (let envelope = [(''version'', JInt 1), (''type'', JStr ''envelope''), (''sender'', JStr sender),
            (''recipient'', JStr recipient), (''message_id'', JStr message_id), (''algorithm'', JStr E2E_ALGORITHM)];
          plaintext = utf8 (json_dumps (JObj body))
      in bindE (peer_key r recipient_public_key) (\<lambda>der.
         bindE (oaep_seal r MGF1_SHA1 der seed content_key) (\<lambda>encrypted_key.
         let envelope1 = dput ''nonce'' (JStr (b64u nonce))
                           (dput ''encrypted_key'' (JStr (b64u encrypted_key)) envelope)
         in bindE (envelope_aad envelope1) (\<lambda>aad.
            let envelope2 = dput ''ciphertext'' (JStr (b64u (aes_gcm_encrypt c content_key nonce plaintext aad))) envelope1;
                envelope3 = (if advertise_sender_key
                             then dput ''sender_public_key'' (JStr (public_key_text r sender_private_key)) envelope2
                             else envelope2)
            in bindE (signed_bytes envelope3) (\<lambda>signed.
               Inr (dput ''signature'' (JStr (b64u (pss_sign r sender_private_key salt signed))) envelope3))))))"

text \<open>The key an envelope is checked against: the pinned one, else the advertised one.\<close>

definition sender_key :: "string option \<Rightarrow> jdict \<Rightarrow> json result" where
  "sender_key known e =
     (let advertised = jget e ''sender_public_key'';
          known_key = (case known of Some pk \<Rightarrow> JStr pk | None \<Rightarrow> JNull)
      in if truthy known_key \<and> truthy advertised \<and> advertised \<noteq> known_key
         then Inl (ValueError ''peer public key changed'')
         else let chosen = (if truthy known_key then known_key else advertised)
         in if \<not> truthy chosen then Inl (ValueError ''sender public key required'') else Inr chosen)"

definition decrypt_envelope ::
  "'k rsa \<Rightarrow> aead \<Rightarrow> jdict \<Rightarrow> 'k \<Rightarrow> string option \<Rightarrow> (jdict \<times> json) result" where
  "decrypt_envelope r c e recipient_private_key known =
     (if \<not> eq_str (jget e ''algorithm'') E2E_ALGORITHM \<or> \<not> eq_str (jget e ''type'') ''envelope''
      then Inl (ValueError ''unsupported encrypted envelope'')
      else
        bindE (sender_key known e) (\<lambda>pk.
        bindE (peer_key r pk) (\<lambda>der.
        bindE (jitem e ''signature'') (\<lambda>s. bindE (unb64_json s) (\<lambda>signature.
        bindE (signed_bytes e) (\<lambda>signed.
        if \<not> pss_verify r der signature signed then Inl (ValueError ''invalid envelope signature'')
        else
          bindE (jitem e ''encrypted_key'') (\<lambda>k. bindE (unb64_json k) (\<lambda>encrypted_key.
          bindE (oaep_open r MGF1_SHA1 recipient_private_key encrypted_key) (\<lambda>content_key.
          bindE (aes_key content_key) (\<lambda>gcm.
          bindE (jitem e ''nonce'') (\<lambda>n. bindE (unb64_json n) (\<lambda>nonce.
          bindE (jitem e ''ciphertext'') (\<lambda>t. bindE (unb64_json t) (\<lambda>ciphertext.
          bindE (envelope_aad e) (\<lambda>aad.
          bindE (aes_open c gcm nonce ciphertext aad) (\<lambda>plaintext.
          bindE (json_loads plaintext) (\<lambda>body.
          case body of
            JObj d \<Rightarrow> Inr (d, pk)
          | _ \<Rightarrow> Inl (ValueError ''encrypted envelope body must be an object''))))))))))))))))))"

section \<open>The shape of a genuine envelope\<close>

text \<open>
  What \<open>encrypt_envelope\<close> returns, field by field: the lemmas below rest on these lookups
  rather than on the construction.
\<close>

definition route_fields :: "string list" where
  "route_fields = [''version'', ''type'', ''sender'', ''recipient'', ''message_id'', ''algorithm'']"

definition sealed_fields :: "string list" where
  "sealed_fields = [''encrypted_key'', ''nonce'', ''ciphertext'']"

definition envelope_route :: "string \<Rightarrow> string \<Rightarrow> string \<Rightarrow> jdict" where
  "envelope_route sender recipient message_id =
     [(''algorithm'', JStr E2E_ALGORITHM), (''message_id'', JStr message_id), (''recipient'', JStr recipient),
      (''sender'', JStr sender), (''type'', JStr ''envelope''), (''version'', JInt 1)]"

definition route_aad :: "string \<Rightarrow> string \<Rightarrow> string \<Rightarrow> bytes" where
  "route_aad sender recipient message_id = utf8 (json_dumps (JObj (envelope_route sender recipient message_id)))"

lemma jitem_dput [simp, dict_simps]: "jitem (dput k v d) k' = (if k = k' then Inr v else jitem d k')"
  by (simp add: jitem_def)

lemma jitem_eq: "jitem d k = Inr v \<longleftrightarrow> dget d k = Some v"
  by (simp add: jitem_def split: option.split)

lemma route_sorted:
  "sort_by_key fst [(''version'', a), (''type'', b), (''sender'', c), (''recipient'', d), (''message_id'', e), (''algorithm'', f)]
     = [(''algorithm'', f), (''message_id'', e), (''recipient'', d), (''sender'', c), (''type'', b), (''version'', a)]"
  by (simp add: sort_by_key_def code_def)

lemma envelope_aad_eq:
  "envelope_aad e = Inr aad \<longleftrightarrow>
     (\<exists>version type sender recipient message_id algorithm.
        map (dget e) route_fields = [Some version, Some type, Some sender, Some recipient, Some message_id, Some algorithm] \<and>
        aad = utf8 (json_dumps (JObj [(''algorithm'', algorithm), (''message_id'', message_id),
          (''recipient'', recipient), (''sender'', sender), (''type'', type), (''version'', version)])))"
  by (auto simp: envelope_aad_def bindE_eq_Inr jitem_eq route_fields_def route_sorted
      simp del: utf8_simps json_dumps.simps)

lemma signed_bytes_eq:
  "signed_bytes e = Inr bs \<longleftrightarrow>
     (\<exists>aad k n t k' n' t'. envelope_aad e = Inr aad \<and>
        map (dget e) sealed_fields = [Some (JStr k), Some (JStr n), Some (JStr t)] \<and>
        ascii_encode k = Inr k' \<and> ascii_encode n = Inr n' \<and> ascii_encode t = Inr t' \<and>
        bs = join0 [aad, k', n', t'])"
  by (auto simp: signed_bytes_def bindE_eq_Inr jitem_eq ascii_field_eq sealed_fields_def) fastforce?

lemma route_aad_of:
  "map (dget e) route_fields = [Some (JInt 1), Some (JStr ''envelope''), Some (JStr sender),
      Some (JStr recipient), Some (JStr message_id), Some (JStr E2E_ALGORITHM)] \<Longrightarrow>
     envelope_aad e = Inr (route_aad sender recipient message_id)"
  by (auto simp: envelope_aad_eq route_aad_def envelope_route_def simp del: utf8_simps json_dumps.simps)

definition genuine ::
  "'k rsa \<Rightarrow> aead \<Rightarrow> bytes \<Rightarrow> bytes \<Rightarrow> bytes \<Rightarrow> bytes \<Rightarrow> string \<Rightarrow> string \<Rightarrow> string \<Rightarrow> jdict \<Rightarrow> json
     \<Rightarrow> 'k \<Rightarrow> bool \<Rightarrow> jdict \<Rightarrow> bool" where
  "genuine r c content_key nonce seed salt sender recipient message_id body rpk k advertise e \<longleftrightarrow>
     (\<exists>der ek signed.
        peer_key r rpk = Inr der \<and> oaep_encrypt r MGF1_SHA1 der seed content_key = Some ek \<and>
        map (dget e) route_fields = [Some (JInt 1), Some (JStr ''envelope''), Some (JStr sender),
          Some (JStr recipient), Some (JStr message_id), Some (JStr E2E_ALGORITHM)] \<and>
        map (dget e) sealed_fields = [Some (JStr (b64u ek)), Some (JStr (b64u nonce)),
          Some (JStr (b64u (aes_gcm_encrypt c content_key nonce (utf8 (json_dumps (JObj body)))
                              (route_aad sender recipient message_id))))] \<and>
        signed_bytes e = Inr signed \<and>
        dget e ''signature'' = Some (JStr (b64u (pss_sign r k salt signed))) \<and>
        dget e ''sender_public_key'' = (if advertise then Some (JStr (public_key_text r k)) else None))"

lemma encrypt_envelope_genuine:
  assumes "encrypt_envelope r c content_key nonce seed salt sender recipient message_id body rpk k advertise = Inr e"
  shows "genuine r c content_key nonce seed salt sender recipient message_id body rpk k advertise e"
proof -
  let ?e0 = "[(''version'', JInt 1), (''type'', JStr ''envelope''), (''sender'', JStr sender),
            (''recipient'', JStr recipient), (''message_id'', JStr message_id), (''algorithm'', JStr E2E_ALGORITHM)]"
  from assms obtain der ek where 1: "peer_key r rpk = Inr der" "oaep_encrypt r MGF1_SHA1 der seed content_key = Some ek"
    by (auto simp: encrypt_envelope_def Let_def bindE_eq_Inr oaep_seal_def split: option.splits)
  let ?e1 = "dput ''nonce'' (JStr (b64u nonce)) (dput ''encrypted_key'' (JStr (b64u ek)) ?e0)"
  have aad: "envelope_aad ?e1 = Inr (route_aad sender recipient message_id)"
    by (rule route_aad_of) (simp add: route_fields_def)
  let ?e2 = "dput ''ciphertext'' (JStr (b64u (aes_gcm_encrypt c content_key nonce (utf8 (json_dumps (JObj body)))
                              (route_aad sender recipient message_id)))) ?e1"
  let ?e3 = "if advertise then dput ''sender_public_key'' (JStr (public_key_text r k)) ?e2 else ?e2"
  have eq: "encrypt_envelope r c content_key nonce seed salt sender recipient message_id body rpk k advertise =
      bindE (signed_bytes ?e3) (\<lambda>signed. Inr (dput ''signature'' (JStr (b64u (pss_sign r k salt signed))) ?e3))"
    unfolding encrypt_envelope_def Let_def 1 bindE_simps oaep_seal_def option.case aad ..
  from assms obtain signed where 2: "signed_bytes ?e3 = Inr signed"
    "e = dput ''signature'' (JStr (b64u (pss_sign r k salt signed))) ?e3"
    unfolding eq bindE_eq_Inr by blast
  have "signed_bytes (dput ''signature'' v d) = signed_bytes d" for v d
    by (simp add: signed_bytes_def envelope_aad_def)
  with 1 2 show ?thesis
    unfolding genuine_def by (auto simp: route_fields_def sealed_fields_def simp del: utf8_simps json_dumps.simps)
qed

section \<open>Round trip\<close>

lemma peer_key_text: "rsa_correct r k \<Longrightarrow> peer_key r (JStr (public_key_text r k)) = Inr (public_der r k)"
  using rsa_correctD(1) [of r k] by (auto simp: peer_key_def public_key_text_def unb64_json_def load_key_def)

text \<open>A genuine envelope opens at its recipient.\<close>

lemma open_genuine:
  assumes "rsa_correct r recipient_key" and "rsa_correct r own_key" and "aead_correct c"
    and "length content_key = 32" and "length nonce = 12" and "wf_json (JObj body)"
    and "genuine r c content_key nonce seed salt sender recipient message_id body
           (JStr (public_key_text r recipient_key)) own_key advertise e"
    and "known = Some (public_key_text r own_key) \<or> known = None \<and> advertise"
    and "public_key_text r own_key \<noteq> []"
  shows "decrypt_envelope r c e recipient_key known = Inr (body, JStr (public_key_text r own_key))"
proof -
  from assms(7) obtain ek signed where
    ek: "oaep_encrypt r MGF1_SHA1 (public_der r recipient_key) seed content_key = Some ek"
    and route: "map (dget e) route_fields = [Some (JInt 1), Some (JStr ''envelope''), Some (JStr sender),
          Some (JStr recipient), Some (JStr message_id), Some (JStr E2E_ALGORITHM)]"
    and sealed: "map (dget e) sealed_fields = [Some (JStr (b64u ek)), Some (JStr (b64u nonce)),
          Some (JStr (b64u (aes_gcm_encrypt c content_key nonce (utf8 (json_dumps (JObj body)))
                              (route_aad sender recipient message_id))))]"
    and signed: "signed_bytes e = Inr signed"
      "dget e ''signature'' = Some (JStr (b64u (pss_sign r own_key salt signed)))"
    and adv: "dget e ''sender_public_key'' = (if advertise then Some (JStr (public_key_text r own_key)) else None)"
    unfolding genuine_def peer_key_text [OF assms(1)] sum.inject by (elim exE conjE) (rule that, simp_all)
  have "oaep_decrypt r MGF1_SHA1 recipient_key ek = Some content_key"
    using rsa_correctD(2) [OF assms(1), of content_key MGF1_SHA1 seed] ek assms(4) by auto
  moreover have "pss_verify r (public_der r own_key) (pss_sign r own_key salt signed) signed"
    by (rule rsa_correctD(3) [OF assms(2)])
  moreover have "sender_key known e = Inr (JStr (public_key_text r own_key))"
    using adv assms(8,9) by (auto simp: sender_key_def jget_def dget_or_def)
  moreover have "jget e ''algorithm'' = JStr E2E_ALGORITHM" "jget e ''type'' = JStr ''envelope''"
    using route by (simp_all add: jget_def dget_or_def route_fields_def)
  moreover have "jitem e f = Inr v" if "dget e f = Some v" for f v
    using that by (simp add: jitem_eq)
  ultimately show ?thesis
    using sealed signed peer_key_text [OF assms(2)] route_aad_of [OF route] assms(6)
      aes_open_seal [OF assms(3,4,5)]
    by (simp add: decrypt_envelope_def sealed_fields_def unb64_json_def oaep_open_def del: utf8_simps json_dumps.simps)
qed

text \<open>C31: an envelope encrypted to an endpoint opens there to the body that was sealed, together
  with the sender's key, both when the sender's key is pinned already and when the envelope
  advertises it to a recipient that has none.\<close>

theorem envelope_roundtrip:
  assumes "rsa_correct r recipient_key" and "rsa_correct r own_key" and "aead_correct c"
    and "length content_key = 32" and "length nonce = 12" and "wf_json (JObj body)"
    and "encrypt_envelope r c content_key nonce seed salt sender recipient message_id body
           (JStr (public_key_text r recipient_key)) own_key advertise = Inr e"
    and "known = Some (public_key_text r own_key) \<or> known = None \<and> advertise"
    and "public_key_text r own_key \<noteq> []"
  shows "decrypt_envelope r c e recipient_key known = Inr (body, JStr (public_key_text r own_key))"
  by (rule open_genuine [OF assms(1-6) encrypt_envelope_genuine [OF assms(7)] assms(8,9)])

section \<open>Authenticity\<close>

lemma hex_char_not_nul: "d < 16 \<Longrightarrow> CHR 0x00 \<noteq> hex_char d"
proof -
  have "hex_val (CHR 0x00) = None" by (simp add: hex_val_def code_def)
  then show "d < 16 \<Longrightarrow> CHR 0x00 \<noteq> hex_char d" using hex_val_char by fastforce
qed

lemma nul_json_escape: "CHR 0x00 \<notin> set (json_escape ch)"
proof (cases "32 \<le> code ch")
  case True
  then have "CHR 0x00 \<noteq> ch" by (auto simp: code_def)
  moreover have "code ch div 16 < 16" "code ch mod 16 < 16" using code_less [of ch] by linarith+
  ultimately show ?thesis by (simp add: json_escape_def hex_char_not_nul)
next
  case False
  moreover have "code ch div 16 < 16" "code ch mod 16 < 16" using code_less [of ch] by linarith+
  ultimately show ?thesis by (simp add: json_escape_def hex_char_not_nul)
qed

lemma nul_json_quote: "CHR 0x00 \<notin> set (json_quote s)"
  using nul_json_escape by (auto simp: json_quote_def)

lemma nul_route_aad: "0 \<notin> set (route_aad sender recipient message_id)"
proof -
  have "CHR 0x00 \<notin> set (json_dumps (JInt 1))"
    using nat_str_digits [of "CHR 0x00" 1] by (auto simp: int_str_def is_digit_def)
  with nul_json_quote show ?thesis
    unfolding route_aad_def zero_in_utf8 envelope_route_def by simp
qed

text \<open>The signed text of a genuine envelope determines every field that goes into it.\<close>

lemma signed_bytes_inject:
  assumes gen: "genuine r c content_key nonce seed salt sender recipient message_id body rpk k advertise e0"
    and same: "signed_bytes e = Inr bs" "signed_bytes e0 = Inr bs" and wf: "wf_json (JObj e)"
  shows "\<forall>f \<in> set (route_fields @ sealed_fields). dget e f = dget e0 f"
proof -
  from gen obtain ek where
    route0: "map (dget e0) route_fields = [Some (JInt 1), Some (JStr ''envelope''), Some (JStr sender),
          Some (JStr recipient), Some (JStr message_id), Some (JStr E2E_ALGORITHM)]"
    and sealed0: "map (dget e0) sealed_fields = [Some (JStr (b64u ek)), Some (JStr (b64u nonce)),
          Some (JStr (b64u (aes_gcm_encrypt c content_key nonce (utf8 (json_dumps (JObj body)))
                              (route_aad sender recipient message_id))))]" (is "_ = [_, _, Some (JStr (b64u ?ct))]")
    unfolding genuine_def by (elim exE conjE) (rule that)
  from same(1) obtain aad ks ns ts k' n' t' where e: "envelope_aad e = Inr aad"
    "map (dget e) sealed_fields = [Some (JStr ks), Some (JStr ns), Some (JStr ts)]"
    "ascii_encode ks = Inr k'" "ascii_encode ns = Inr n'" "ascii_encode ts = Inr t'"
    "bs = join0 [aad, k', n', t']"
    unfolding signed_bytes_eq by (elim exE conjE) (rule that)
  from same(2) obtain k0 n0 t0 where e0:
    "ascii_encode (b64u ek) = Inr k0" "ascii_encode (b64u nonce) = Inr n0" "ascii_encode (b64u ?ct) = Inr t0"
    "bs = join0 [route_aad sender recipient message_id, k0, n0, t0]"
    unfolding signed_bytes_eq route_aad_of [OF route0] sealed0 by auto
  have "[aad, k', n', t'] = [route_aad sender recipient message_id, k0, n0, t0]"
  proof (rule join0_unambiguous)
    show "\<forall>q \<in> set [route_aad sender recipient message_id, k0, n0, t0]. 0 \<notin> set q"
      using nul_route_aad b64u_encodes [of ek] b64u_encodes [of nonce] b64u_encodes [of ?ct] e0 by auto
  qed (use e e0 in simp_all)
  then have parts: "aad = route_aad sender recipient message_id" "ks = b64u ek" "ns = b64u nonce" "ts = b64u ?ct"
    using e e0 by (auto intro: ascii_inject)
  obtain version type sndr rcpt mid alg where route:
    "map (dget e) route_fields = [Some version, Some type, Some sndr, Some rcpt, Some mid, Some alg]"
    "aad = utf8 (json_dumps (JObj [(''algorithm'', alg), (''message_id'', mid),
          (''recipient'', rcpt), (''sender'', sndr), (''type'', type), (''version'', version)]))"
    using e(1) unfolding envelope_aad_eq by (elim exE conjE) (rule that)
  have vals: "wf_json v" if "dget e f = Some v" for f v
    using wf map_of_SomeD [OF that] by auto
  have "JObj [(''algorithm'', alg), (''message_id'', mid), (''recipient'', rcpt), (''sender'', sndr),
          (''type'', type), (''version'', version)] = JObj (envelope_route sender recipient message_id)"
  proof (rule iffD1 [OF json_dumps_inject])
    show "wf_json (JObj [(''algorithm'', alg), (''message_id'', mid), (''recipient'', rcpt), (''sender'', sndr),
          (''type'', type), (''version'', version)])"
      using route(1) by (auto simp: wf_dict_def route_fields_def intro: vals)
    show "wf_json (JObj (envelope_route sender recipient message_id))"
      by (simp add: envelope_route_def wf_dict_def)
    show "json_dumps (JObj [(''algorithm'', alg), (''message_id'', mid), (''recipient'', rcpt), (''sender'', sndr),
          (''type'', type), (''version'', version)]) = json_dumps (JObj (envelope_route sender recipient message_id))"
      using route(2) parts(1) by (simp add: route_aad_def del: json_dumps.simps utf8_simps)
  qed
  then have "map (dget e) route_fields = map (dget e0) route_fields"
    unfolding route(1) route0 by (simp add: envelope_route_def)
  moreover have "map (dget e) sealed_fields = map (dget e0) sealed_fields"
    unfolding e(2) sealed0 by (simp add: parts)
  ultimately show ?thesis by auto
qed

text \<open>C30: an envelope accepted against a pinned key is one its owner made: when the presented
  signature verifies only for data that the owner signed, the accepted envelope agrees with
  one of the owner's envelopes on the route, the algorithm, the encrypted key, the nonce and
  the ciphertext, although the four signed parts are merely joined with NUL bytes.\<close>

theorem envelope_authentic:
  assumes "decrypt_envelope r c e recipient_key (Some pk) = Inr (body, used)" and "pk \<noteq> []"
    and "unb64 pk = Inr der" and "wf_json (JObj e)"
    and "\<forall>e0 \<in> set made. \<exists>content_key nonce seed salt sender recipient message_id b rpk advertise.
           encrypt_envelope r c content_key nonce seed salt sender recipient message_id b rpk own_key advertise = Inr e0"
    and "pss_unforgeable r der {s. \<exists>t. jget e ''signature'' = JStr t \<and> unb64 t = Inr s}
           {bs. \<exists>e0 \<in> set made. signed_bytes e0 = Inr bs}"
  shows "used = JStr pk \<and>
         (\<exists>e0 \<in> set made. \<forall>f \<in> set (route_fields @ sealed_fields). dget e f = dget e0 f)"
proof -
  from assms(1) obtain d s sig sgn where pk: "sender_key (Some pk) e = Inr used" and
    sgn: "peer_key r used = Inr d" "jitem e ''signature'' = Inr s" "unb64_json s = Inr sig"
      "signed_bytes e = Inr sgn" "pss_verify r d sig sgn"
    by (auto simp: decrypt_envelope_def bindE_eq_Inr split: if_splits)
       (auto split: json.split_asm)
  have used: "used = JStr pk" using pk assms(2) by (simp add: sender_key_def Let_def split: if_splits)
  have d: "d = der"
    using peer_key_der [OF sgn(1)] assms(3) by (simp add: used unb64_json_def)
  from sgn(2,3) obtain t where "jget e ''signature'' = JStr t" "unb64 t = Inr sig"
    by (auto simp: jitem_eq jget_def dget_or_def unb64_json_def split: json.splits)
  with assms(6) sgn(5) d obtain e0 where e0: "e0 \<in> set made" "signed_bytes e0 = Inr sgn"
    unfolding pss_unforgeable_def by blast
  with assms(5) encrypt_envelope_genuine have
    "\<exists>content_key nonce seed salt sender recipient message_id b rpk advertise.
       genuine r c content_key nonce seed salt sender recipient message_id b rpk own_key advertise e0"
    by metis
  then have "\<forall>f \<in> set (route_fields @ sealed_fields). dget e f = dget e0 f"
    using signed_bytes_inject [OF _ sgn(4) e0(2) assms(4)] by metis
  with used e0 show ?thesis by blast
qed

section \<open>Witnesses\<close>

lemma encrypt_envelope_total:
  assumes "rsa_correct r recipient_key" and "length content_key = 32"
  shows "\<exists>e. encrypt_envelope r c content_key nonce seed salt sender recipient message_id body
           (JStr (public_key_text r recipient_key)) own_key advertise = Inr e"
proof -
  let ?e0 = "[(''version'', JInt 1), (''type'', JStr ''envelope''), (''sender'', JStr sender),
            (''recipient'', JStr recipient), (''message_id'', JStr message_id), (''algorithm'', JStr E2E_ALGORITHM)]"
  obtain ek where ek: "oaep_encrypt r MGF1_SHA1 (public_der r recipient_key) seed content_key = Some ek"
    using rsa_correctD(2) [OF assms(1), of content_key MGF1_SHA1 seed] assms(2) by auto
  let ?e1 = "dput ''nonce'' (JStr (b64u nonce)) (dput ''encrypted_key'' (JStr (b64u ek)) ?e0)"
  have aad: "envelope_aad ?e1 = Inr (route_aad sender recipient message_id)"
    by (rule route_aad_of) (simp add: route_fields_def)
  let ?ct = "aes_gcm_encrypt c content_key nonce (utf8 (json_dumps (JObj body))) (route_aad sender recipient message_id)"
  let ?e2 = "dput ''ciphertext'' (JStr (b64u ?ct)) ?e1"
  let ?e3 = "if advertise then dput ''sender_public_key'' (JStr (public_key_text r own_key)) ?e2 else ?e2"
  have "envelope_aad ?e3 = Inr (route_aad sender recipient message_id)"
    by (rule route_aad_of) (simp add: route_fields_def)
  moreover have "map (dget ?e3) sealed_fields = [Some (JStr (b64u ek)), Some (JStr (b64u nonce)), Some (JStr (b64u ?ct))]"
    by (simp add: sealed_fields_def)
  ultimately have "\<exists>signed. signed_bytes ?e3 = Inr signed"
    using b64u_encodes [of ek] b64u_encodes [of nonce] b64u_encodes [of ?ct] unfolding signed_bytes_eq by metis
  then obtain signed where "signed_bytes ?e3 = Inr signed" ..
  then show ?thesis
    unfolding encrypt_envelope_def Let_def peer_key_text [OF assms(1)] ek bindE_simps oaep_seal_def option.case aad
    by auto
qed

text \<open>A concrete instance of the primitives: it hides nothing but meets both contracts.\<close>

definition demo_rsa :: "bytes rsa" where
  "demo_rsa = \<lparr>public_der = (\<lambda>k. k), load_der = (\<lambda>d. Some (RSAPublicKey 3072)), spki_der = (\<lambda>d. d),
     oaep_encrypt = (\<lambda>g der seed v. Some v), oaep_decrypt = (\<lambda>g k ct. Some ct),
     pss_sign = (\<lambda>k salt data. k @ data), pss_verify = (\<lambda>der s data. s = der @ data)\<rparr>"

lemma demo_rsa_correct: "rsa_correct demo_rsa k"
  by (auto simp: rsa_correct_def demo_rsa_def intro: exI [of _ 3072])

lemma demo_key_text: "k \<noteq> [] \<Longrightarrow> public_key_text demo_rsa k \<noteq> []"
  unfolding public_key_text_def demo_rsa_def by (metis b64u_inject rsa.select_convs(1) b64u_def list.map(1) sextets.simps(1))

lemma envelope_roundtrip_witness:
  "\<exists>e. encrypt_envelope demo_rsa demo_aead (replicate 32 1) (replicate 12 2) [] [] ''android'' ''wisp'' ''m1''
         [(''type'', JStr ''session_open'')] (JStr (public_key_text demo_rsa [7])) [9] True = Inr e \<and>
       decrypt_envelope demo_rsa demo_aead e [7] None
         = Inr ([(''type'', JStr ''session_open'')], JStr (public_key_text demo_rsa [9]))"
proof -
  obtain e where e: "encrypt_envelope demo_rsa demo_aead (replicate 32 1) (replicate 12 2) [] [] ''android'' ''wisp'' ''m1''
         [(''type'', JStr ''session_open'')] (JStr (public_key_text demo_rsa [7])) [9] True = Inr e"
    using encrypt_envelope_total [OF demo_rsa_correct] by (metis length_replicate)
  moreover have "decrypt_envelope demo_rsa demo_aead e [7] None
         = Inr ([(''type'', JStr ''session_open'')], JStr (public_key_text demo_rsa [9]))"
    by (rule envelope_roundtrip [OF demo_rsa_correct demo_rsa_correct demo_correct _ _ _ e])
       (simp_all add: wf_dict_def demo_key_text)
  ultimately show ?thesis by blast
qed

lemma demo_verify: "pss_verify demo_rsa der s data \<longleftrightarrow> s = der @ data"
  by (simp add: demo_rsa_def)

lemma envelope_authentic_witness:
  "\<exists>e0. encrypt_envelope demo_rsa demo_aead (replicate 32 1) (replicate 12 2) [] [] ''android'' ''wisp'' ''m1''
         [] (JStr (public_key_text demo_rsa [7])) [9] False = Inr e0 \<and>
       (\<exists>e \<in> set [e0]. \<forall>f \<in> set (route_fields @ sealed_fields). dget e0 f = dget e f)"
proof -
  obtain e0 where e0: "encrypt_envelope demo_rsa demo_aead (replicate 32 1) (replicate 12 2) [] [] ''android'' ''wisp'' ''m1''
         [] (JStr (public_key_text demo_rsa [7])) [9] False = Inr e0"
    using encrypt_envelope_total [OF demo_rsa_correct] by (metis length_replicate)
  obtain signed where s: "signed_bytes e0 = Inr signed"
    "dget e0 ''signature'' = Some (JStr (b64u (pss_sign demo_rsa [9] [] signed)))"
    using encrypt_envelope_genuine [OF e0] unfolding genuine_def by (elim exE conjE) (rule that)
  have dec: "decrypt_envelope demo_rsa demo_aead e0 [7] (Some (public_key_text demo_rsa [9]))
         = Inr ([], JStr (public_key_text demo_rsa [9]))"
    by (rule envelope_roundtrip [OF demo_rsa_correct demo_rsa_correct demo_correct _ _ _ e0])
       (simp_all add: wf_dict_def demo_key_text)
  have wf: "wf_json (JObj e0)"
    using e0 by (auto simp: encrypt_envelope_def Let_def bindE_eq_Inr wf_dict_def simp del: utf8_simps json_dumps.simps)
  have der: "unb64 (public_key_text demo_rsa [9]) = Inr [9]"
    by (simp add: public_key_text_def demo_rsa_def)
  have "pss_unforgeable demo_rsa [9] {s. \<exists>t. jget e0 ''signature'' = JStr t \<and> unb64 t = Inr s}
      {bs. \<exists>e \<in> set [e0]. signed_bytes e = Inr bs}"
    using s by (auto simp: pss_unforgeable_def jget_def dget_or_def demo_rsa_def)
  from envelope_authentic [OF dec demo_key_text der wf _ this, of "[9]"] e0 show ?thesis by auto
qed

end
