(* ===== verification/Bootstrap.thy ===== *)
theory Bootstrap
  imports Envelope
begin

text \<open>
  The certificate bootstrap: \<open>appserve/bootstrap.py\<close> on the client side and the functions of
  the same names in \<open>server/appserve_server/core.py\<close> on the relay side (the two modules hold
  the same \<open>_seal\<close> and \<open>_open\<close>), and the RSA-sealed join payload \<open>build_bootstrap\<close> and
  \<open>parse_bootstrap\<close> with \<open>RelayConfig\<close>. Sampled keys, nonces and seeds and the wall clock are
  arguments.
\<close>

section \<open>Sealing\<close>

text \<open>\<open>v[k]\<close> on a decoded value: only a dictionary takes a string subscript.\<close>

definition subscript :: "json \<Rightarrow> string \<Rightarrow> json result" where
  "subscript v k = (case v of JObj d \<Rightarrow> jitem d k | _ \<Rightarrow> Inl TypeError)"

text \<open>\<open>_unb64\<close> of \<open>core.py\<close> and \<open>bootstrap.py\<close> encodes its argument as ASCII first.\<close>

definition unb64_ascii :: "json \<Rightarrow> bytes result" where
  "unb64_ascii v = (case v of
       JStr s \<Rightarrow> bindE (ascii_encode s) (\<lambda>_. unb64 s)
     | _ \<Rightarrow> Inl (AttributeError ''encode''))"

definition seal :: "'k rsa \<Rightarrow> aead \<Rightarrow> bytes \<Rightarrow> bytes \<Rightarrow> bytes \<Rightarrow> bytes \<Rightarrow> bytes \<Rightarrow> bytes result" where
  "seal r c content_key nonce seed der payload =
     bindE (oaep_seal r MGF1_SHA1 der seed content_key) (\<lambda>key.
     ascii_encode (json_dumps (JObj
       [(''key'', JStr (b64 key)), (''nonce'', JStr (b64 nonce)),
        (''ciphertext'', JStr (b64 (aes_gcm_encrypt c content_key nonce payload [])))])))"

definition open_sealed :: "'k rsa \<Rightarrow> aead \<Rightarrow> 'k \<Rightarrow> bytes \<Rightarrow> bytes result" where
  "open_sealed r c k message =
     bindE (json_loads message) (\<lambda>envelope.
     bindE (subscript envelope ''key'') (\<lambda>v. bindE (unb64_ascii v) (\<lambda>key.
     bindE (oaep_open r MGF1_SHA1 k key) (\<lambda>content_key.
     bindE (aes_key content_key) (\<lambda>gcm.
     bindE (subscript envelope ''nonce'') (\<lambda>v. bindE (unb64_ascii v) (\<lambda>nonce.
     bindE (subscript envelope ''ciphertext'') (\<lambda>v. bindE (unb64_ascii v) (\<lambda>ciphertext.
     aes_open c gcm nonce ciphertext [])))))))))"

section \<open>The request\<close>

definition build_bootstrap_request ::
  "'k rsa \<Rightarrow> aead \<Rightarrow> bytes \<Rightarrow> bytes \<Rightarrow> bytes \<Rightarrow> bytes \<Rightarrow> string \<Rightarrow> bytes \<Rightarrow> bytes \<Rightarrow> string \<Rightarrow> bytes result" where
  "build_bootstrap_request r c content_key seal_nonce seed relay_der client_id client_der nonce client_kind =
     (let payload = utf8 (json_dumps (JObj
            [(''version'', JInt 1), (''client_id'', JStr client_id), (''client_kind'', JStr client_kind),
             (''client_public_key'', JStr (b64u client_der)), (''nonce'', JStr (b64 nonce))]))
      in bindE (seal r c content_key seal_nonce seed relay_der payload) (\<lambda>message. ascii_encode (b64u message)))"

record bootstrap_request =
  request_client_id :: string
  request_client_kind :: string
  request_client_key :: bytes
  request_nonce :: bytes

definition decrypt_bootstrap_request :: "'k rsa \<Rightarrow> aead \<Rightarrow> 'k \<Rightarrow> bytes \<Rightarrow> bootstrap_request result" where
  "decrypt_bootstrap_request r c k message =
     bindE (ascii_decode message) (\<lambda>text.
     bindE (unb64_ascii (JStr text)) (\<lambda>box.
     bindE (open_sealed r c k box) (\<lambda>plain.
     bindE (json_loads plain) (\<lambda>v.
     bindE (as_dict v) (\<lambda>payload.
     case (eq_int (jget payload ''version'') 1, jget payload ''client_id'',
           dget_or payload ''client_kind'' (JStr ''unknown'')) of
       (True, JStr client_id, JStr client_kind) \<Rightarrow>
         bindE (jitem payload ''client_public_key'') (\<lambda>pk. bindE (unb64_ascii pk) (\<lambda>der.
         bindE (load_key r der) (\<lambda>client_key.
         bindE (jitem payload ''nonce'') (\<lambda>n. bindE (unb64_ascii n) (\<lambda>nonce.
         if client_key = OtherPublicKey \<or> length nonce < 16 then Inl (ValueError ''invalid bootstrap request'')
         else Inr \<lparr>request_client_id = client_id, request_client_kind = client_kind,
                   request_client_key = spki_der r der, request_nonce = nonce\<rparr>)))))
     | _ \<Rightarrow> Inl (ValueError ''invalid bootstrap request''))))))"

section \<open>The response\<close>

definition build_bootstrap_response ::
  "'k rsa \<Rightarrow> aead \<Rightarrow> (bytes \<Rightarrow> bytes) \<Rightarrow> bytes \<Rightarrow> bytes \<Rightarrow> bytes \<Rightarrow> bytes \<Rightarrow> bytes \<Rightarrow> bytes \<Rightarrow> bytes result" where
  "build_bootstrap_response r c sha256 content_key seal_nonce seed client_der nonce certificate_der =
     (let payload = utf8 (json_dumps (JObj
            [(''version'', JInt 1), (''nonce'', JStr (b64u nonce)), (''certificate_der'', JStr (b64u certificate_der)),
             (''certificate_sha256'', JStr (b64u (sha256 certificate_der)))]))
      in bindE (seal r c content_key seal_nonce seed client_der payload) (\<lambda>message. ascii_encode (b64u message)))"

text \<open>The three entries of the returned dictionary: nonce, certificate, digest.\<close>

definition decrypt_bootstrap_response ::
  "'k rsa \<Rightarrow> aead \<Rightarrow> (bytes \<Rightarrow> bytes) \<Rightarrow> 'k \<Rightarrow> bytes \<Rightarrow> bytes \<Rightarrow> (bytes \<times> bytes \<times> bytes) result" where
  "decrypt_bootstrap_response r c sha256 k message expected_nonce =
     bindE (ascii_decode message) (\<lambda>text.
     bindE (unb64_ascii (JStr text)) (\<lambda>box.
     bindE (open_sealed r c k box) (\<lambda>plain.
     bindE (json_loads plain) (\<lambda>payload.
     bindE (subscript payload ''nonce'') (\<lambda>v. bindE (unb64_ascii v) (\<lambda>nonce.
     if nonce \<noteq> expected_nonce then Inl (ValueError ''bootstrap nonce mismatch'')
     else
       bindE (subscript payload ''certificate_der'') (\<lambda>v. bindE (unb64_ascii v) (\<lambda>certificate_der.
       bindE (subscript payload ''certificate_sha256'') (\<lambda>v. bindE (unb64_ascii v) (\<lambda>certificate_sha256.
       if certificate_sha256 \<noteq> sha256 certificate_der
       then Inl (ValueError ''bootstrap certificate hash mismatch'')
       else Inr (nonce, certificate_der, certificate_sha256)))))))))))"

section \<open>The join payload\<close>

record 'k relay_config =
  server_private_key :: 'k
  deployment_id :: string
  max_bootstrap_age :: int
  enrollment_enabled :: bool

definition RelayConfig :: "'k \<Rightarrow> 'k relay_config" where
  "RelayConfig k = \<lparr>server_private_key = k, deployment_id = ''private'', max_bootstrap_age = 300,
     enrollment_enabled = False\<rparr>"

text \<open>\<open>RelayConfig.public_key_text\<close>: this module's \<open>_b64\<close> keeps the padding.\<close>

definition relay_public_key_text :: "'k rsa \<Rightarrow> 'k relay_config \<Rightarrow> string" where
  "relay_public_key_text r cfg = b64 (public_der r (server_private_key cfg))"

text \<open>\<open>int(v)\<close>: numbers are truncated towards zero, text may carry blanks, a sign and single underscores.\<close>

fun int_digits :: "string \<Rightarrow> bool" where
  "int_digits [] = False"
| "int_digits [c] = is_digit c"
| "int_digits (c # d # s) = (is_digit c \<and> (if d = CHR ''_'' then int_digits s else int_digits (d # s)))"

definition py_int_str :: "string \<Rightarrow> int result" where
  "py_int_str s =
     (let strip = (\<lambda>t. dropWhile (\<lambda>c. code c \<in> {9, 10, 11, 12, 13, 28, 29, 30, 31, 32, 133, 160}) t);
          t = rev (strip (rev (strip s)));
          (neg, ds) = (case t of CHR ''-'' # r \<Rightarrow> (True, r) | CHR ''+'' # r \<Rightarrow> (False, r) | r \<Rightarrow> (False, r))
      in if int_digits ds
         then let n = int (digits_val (filter is_digit ds)) in Inr (if neg then - n else n)
         else Inl (ValueError ''invalid literal for int()''))"

definition trunc :: "rat \<Rightarrow> int" where
  "trunc q = (if q < 0 then - \<lfloor>- q\<rfloor> else \<lfloor>q\<rfloor>)"

fun py_int :: "json \<Rightarrow> int result" where
  "py_int (JInt i) = Inr i"
| "py_int (JBool b) = Inr (if b then 1 else 0)"
| "py_int (JFloat t) = Inr (trunc (float_val t))"
| "py_int (JStr s) = py_int_str s"
| "py_int _ = Inl TypeError"

definition build_bootstrap ::
  "'k rsa \<Rightarrow> 'k relay_config \<Rightarrow> bytes \<Rightarrow> string \<Rightarrow> int \<Rightarrow> jdict \<Rightarrow> bytes result" where
  "build_bootstrap r cfg seed token wall payload =
     (let body = dsetdefault ''timestamp'' (JInt wall)
                   (dsetdefault ''nonce'' (JStr token)
                     (dsetdefault ''deployment_id'' (JStr (deployment_id cfg)) payload));
          encoded = utf8 (json_dumps (JObj body))
      in bindE (oaep_seal r MGF1_SHA256 (public_der r (server_private_key cfg)) seed encoded)
           (\<lambda>encrypted. ascii_encode (b64 encrypted)))"

definition parse_bootstrap :: "'k rsa \<Rightarrow> 'k relay_config \<Rightarrow> int \<Rightarrow> bytes \<Rightarrow> jdict result" where
  "parse_bootstrap r cfg wall message =
     bindE (ascii_decode message) (\<lambda>text.
     bindE (unb64_ascii (JStr text)) (\<lambda>box.
     bindE (oaep_open r MGF1_SHA256 (server_private_key cfg) box) (\<lambda>encoded.
     bindE (json_loads encoded) (\<lambda>v.
     bindE (as_dict v) (\<lambda>payload.
     if \<not> eq_str (jget payload ''deployment_id'') (deployment_id cfg) then Inl (ValueError ''wrong deployment'')
     else
       bindE (jitem payload ''timestamp'') (\<lambda>t.
       bindE (py_int t) (\<lambda>timestamp.
       if \<bar>wall - timestamp\<bar> > max_bootstrap_age cfg then Inl (ValueError ''stale bootstrap'')
       else Inr payload)))))))"

section \<open>Round trips\<close>

lemma b64_encodes: "\<exists>bs'. ascii_encode (b64 bs) = Inr bs'"
proof -
  have "\<forall>c \<in> set (b64 bs). code c < 128"
    unfolding b64_def using b64u_ascii [of _ bs "b64u bs"] by auto
  then show ?thesis by (simp add: ascii_encode_def)
qed

lemma unb64_ascii_b64 [simp]:
  "unb64_ascii (JStr (b64 bs)) = Inr bs"
  "unb64_ascii (JStr (b64u bs)) = Inr bs"
  using b64_encodes [of bs] b64u_encodes [of bs] by (auto simp: unb64_ascii_def)

lemma message_text:
  "ascii_encode (b64u box) = Inr m \<Longrightarrow> ascii_decode m = Inr (b64u box)"
  "ascii_encode (b64 box) = Inr m \<Longrightarrow> ascii_decode m = Inr (b64 box)"
  by (simp_all add: ascii_roundtrip)

lemma open_sealed_seal:
  assumes "rsa_correct r k" and "aead_correct c" and "length content_key = 32" and "length nonce = 12"
    and "seal r c content_key nonce seed (public_der r k) payload = Inr box"
  shows "open_sealed r c k box = Inr payload"
proof -
  obtain key where key: "oaep_encrypt r MGF1_SHA1 (public_der r k) seed content_key = Some key"
    "oaep_decrypt r MGF1_SHA1 k key = Some content_key"
    using rsa_correctD(2) [OF assms(1), of content_key MGF1_SHA1 seed] assms(3) by auto
  let ?d = "[(''key'', JStr (b64 key)), (''nonce'', JStr (b64 nonce)),
        (''ciphertext'', JStr (b64 (aes_gcm_encrypt c content_key nonce payload [])))]"
  have "box = utf8 (json_dumps (JObj ?d))"
    using assms(5) key(1) by (auto simp: seal_def oaep_seal_def simp del: json_dumps.simps dest: ascii_utf8)
  then have "json_loads box = Inr (JObj ?d)"
    by (simp add: wf_dict_def del: utf8_simps json_dumps.simps)
  with key(2) aes_open_seal [OF assms(2-4), of payload "[]"] show ?thesis
    by (simp add: open_sealed_def subscript_def oaep_open_def)
qed

lemma request_roundtrip:
  assumes "rsa_correct r relay_key" and "aead_correct c" and "length content_key = 32" and "length seal_nonce = 12"
    and "\<exists>n. load_der r client_der = Some (RSAPublicKey n)" and "spki_der r client_der = client_der"
    and "16 \<le> length nonce"
    and "build_bootstrap_request r c content_key seal_nonce seed (public_der r relay_key) client_id client_der nonce kind
           = Inr message"
  shows "decrypt_bootstrap_request r c relay_key message
           = Inr \<lparr>request_client_id = client_id, request_client_kind = kind,
                  request_client_key = client_der, request_nonce = nonce\<rparr>"
proof -
  let ?payload = "utf8 (json_dumps (JObj
            [(''version'', JInt 1), (''client_id'', JStr client_id), (''client_kind'', JStr kind),
             (''client_public_key'', JStr (b64u client_der)), (''nonce'', JStr (b64 nonce))]))"
  obtain box where box: "seal r c content_key seal_nonce seed (public_der r relay_key) ?payload = Inr box"
    "ascii_encode (b64u box) = Inr message"
    using assms(8) unfolding build_bootstrap_request_def Let_def bindE_eq_Inr by blast
  have "json_loads ?payload = Inr (JObj [(''version'', JInt 1), (''client_id'', JStr client_id),
      (''client_kind'', JStr kind), (''client_public_key'', JStr (b64u client_der)), (''nonce'', JStr (b64 nonce))])"
    by (rule json_loads_dumps) (simp add: wf_dict_def)
  with open_sealed_seal [OF assms(1-4) box(1)] message_text(1) [OF box(2)] assms(5-7) show ?thesis
    by (auto simp: decrypt_bootstrap_request_def dget_or_def load_key_def simp del: utf8_simps json_dumps.simps)
qed

lemma response_roundtrip:
  assumes "rsa_correct r client_key" and "aead_correct c" and "length content_key = 32" and "length seal_nonce = 12"
    and "build_bootstrap_response r c sha256 content_key seal_nonce seed (public_der r client_key) nonce certificate
           = Inr message"
  shows "decrypt_bootstrap_response r c sha256 client_key message expected
           = (if nonce = expected then Inr (nonce, certificate, sha256 certificate)
              else Inl (ValueError ''bootstrap nonce mismatch''))"
proof -
  let ?payload = "utf8 (json_dumps (JObj
            [(''version'', JInt 1), (''nonce'', JStr (b64u nonce)), (''certificate_der'', JStr (b64u certificate)),
             (''certificate_sha256'', JStr (b64u (sha256 certificate)))]))"
  obtain box where box: "seal r c content_key seal_nonce seed (public_der r client_key) ?payload = Inr box"
    "ascii_encode (b64u box) = Inr message"
    using assms(5) unfolding build_bootstrap_response_def Let_def bindE_eq_Inr by blast
  have "json_loads ?payload = Inr (JObj [(''version'', JInt 1), (''nonce'', JStr (b64u nonce)),
      (''certificate_der'', JStr (b64u certificate)), (''certificate_sha256'', JStr (b64u (sha256 certificate)))])"
    by (rule json_loads_dumps) (simp add: wf_dict_def)
  with open_sealed_seal [OF assms(1-4) box(1)] message_text(1) [OF box(2)] show ?thesis
    by (simp add: decrypt_bootstrap_response_def subscript_def del: utf8_simps json_dumps.simps)
qed

text \<open>C36: the certificate bootstrap does its job: the relay reads exactly the identity, kind, key and
  nonce the client sealed to it; the client, given the relay's response to that nonce,
  obtains the relay's certificate with its digest; and the same response is refused by a client
  that is waiting for any other nonce.\<close>

theorem bootstrap_exchange:
  assumes "rsa_correct r relay_key" and "rsa_correct r client_key" and "aead_correct c"
    and "length k1 = 32" and "length n1 = 12" and "length k2 = 32" and "length n2 = 12" and "16 \<le> length nonce"
    and "build_bootstrap_request r c k1 n1 seed1 (public_der r relay_key) client_id (public_der r client_key) nonce kind
           = Inr request"
    and "build_bootstrap_response r c sha256 k2 n2 seed2 (public_der r client_key) nonce certificate = Inr response"
  shows "decrypt_bootstrap_request r c relay_key request
           = Inr \<lparr>request_client_id = client_id, request_client_kind = kind,
                  request_client_key = public_der r client_key, request_nonce = nonce\<rparr> \<and>
         decrypt_bootstrap_response r c sha256 client_key response nonce
           = Inr (nonce, certificate, sha256 certificate) \<and>
         (other \<noteq> nonce \<longrightarrow>
            decrypt_bootstrap_response r c sha256 client_key response other
              = Inl (ValueError ''bootstrap nonce mismatch''))"
  using request_roundtrip [OF assms(1,3,4,5) _ _ assms(8,9)] rsa_correctD(1,4) [OF assms(2)]
    response_roundtrip [OF assms(2,3,6,7,10)] by auto

lemma dsetdefault_append:
  "dsetdefault k v d = d @ filter (\<lambda>(k, _). dget d k = None) [(k, v)]"
proof -
  have "dput k v d = d @ [(k, v)]" if "dget d k = None"
    using that by (induction d) (auto split: if_splits)
  then show ?thesis by (auto simp: dsetdefault_def split: option.splits)
qed

text \<open>C38: a join payload is read back by a relay that holds the key as exactly the dictionary it was,
  followed by those of the fields \<open>deployment_id\<close>, \<open>nonce\<close> and \<open>timestamp\<close> that it did not bring
  itself, with the deployment, the fresh nonce and the time of the sender; a field the payload
  brings is never replaced. A relay of any other deployment than the one the sealed
  payload names refuses it, and so does any relay whose clock is more than \<open>max_bootstrap_age\<close>
  seconds away from the sealed timestamp on either side, or to which that timestamp is no number.
  The payload is any dictionary JSON can write back; of OAEP only is used that decryption
  inverts it on what it accepts, whatever its length.\<close>

theorem join_payload_roundtrip:
  assumes "oaep_correct r MGF1_SHA256 (server_private_key cfg)" and "wf_json (JObj payload)"
    and "build_bootstrap r cfg seed token wall payload = Inr message"
    and "body = payload @ filter (\<lambda>(k, _). dget payload k = None)
           [(''deployment_id'', JStr (deployment_id cfg)), (''nonce'', JStr token), (''timestamp'', JInt wall)]"
  shows "parse_bootstrap r (cfg\<lparr>deployment_id := d\<rparr>) now message
           = (if jget body ''deployment_id'' \<noteq> JStr d then Inl (ValueError ''wrong deployment'')
              else case py_int (jget body ''timestamp'') of
                Inl e \<Rightarrow> Inl e
              | Inr stamp \<Rightarrow> if \<bar>now - stamp\<bar> > max_bootstrap_age cfg then Inl (ValueError ''stale bootstrap'')
                            else Inr body)"
proof -
  have body: "dsetdefault ''timestamp'' (JInt wall) (dsetdefault ''nonce'' (JStr token)
      (dsetdefault ''deployment_id'' (JStr (deployment_id cfg)) payload)) = body"
    unfolding assms(4) dsetdefault_append by (auto split: option.splits)
  let ?plain = "utf8 (json_dumps (JObj body))"
  obtain ct where enc: "oaep_encrypt r MGF1_SHA256 (public_der r (server_private_key cfg)) seed ?plain = Some ct"
    and asc: "ascii_encode (b64 ct) = Inr message"
    using assms(3) unfolding build_bootstrap_def Let_def body oaep_seal_def
    by (auto simp del: utf8_simps json_dumps.simps split: option.splits)
  from enc assms(1) have ct: "oaep_decrypt r MGF1_SHA256 (server_private_key cfg) ct = Some ?plain"
    by (simp add: oaep_correct_def)
  from message_text(2) [OF asc] have dec: "ascii_decode message = Inr (b64 ct)" .
  have "wf_json (JObj body)"
    unfolding assms(4) using assms(2) by (auto simp: wf_dict_def map_of_eq_None_iff)
  then have "json_loads ?plain = Inr (JObj body)" by (rule json_loads_dumps)
  moreover have "jitem body ''timestamp'' = Inr (jget body ''timestamp'')"
    by (auto simp: body [symmetric] jitem_def jget_def dget_or_def split: option.splits)
  ultimately show ?thesis
    using ct dec by (auto simp: parse_bootstrap_def oaep_open_def eq_str_def bindE_def
        simp del: utf8_simps json_dumps.simps split: sum.splits)
qed

section \<open>Witnesses\<close>

lemma json_quote_ascii: "\<forall>ch \<in> set (json_quote s). code ch < 128"
proof -
  have "\<forall>x \<in> set (json_escape ch). code x < 128" for ch
  proof (cases "32 \<le> code ch \<and> code ch \<le> 126")
    case True
    then show ?thesis by (auto simp: json_escape_def code_def)
  next
    case False
    have d: "code ch div 16 < 16" "code ch mod 16 < 16" using code_less [of ch] by linarith+
    have "code (hex_char d) < 128" if "d < 16" for d
      using that by (simp add: hex_char_def)
    with d False show ?thesis by (simp add: json_escape_def) (simp add: code_def)
  qed
  then show ?thesis by (auto simp: json_quote_def code_def)
qed

lemma seal_total:
  assumes "rsa_correct r k" and "length content_key = 32"
  shows "\<exists>box. seal r c content_key nonce seed (public_der r k) payload = Inr box"
proof -
  obtain key where key: "oaep_encrypt r MGF1_SHA1 (public_der r k) seed content_key = Some key"
    using rsa_correctD(2) [OF assms(1), of content_key MGF1_SHA1 seed] assms(2) by auto
  have "\<forall>ch \<in> set (json_dumps (JObj [(''key'', JStr a), (''nonce'', JStr b), (''ciphertext'', JStr d)])). code ch < 128" for a b d
    using json_quote_ascii by (auto simp: code_def)
  then show ?thesis
    using key unfolding seal_def oaep_seal_def ascii_encode_def by simp
qed

lemma request_total:
  assumes "rsa_correct r relay_key" and "length k = 32"
  shows "\<exists>m. build_bootstrap_request r c k n seed (public_der r relay_key) client_id der nonce kind = Inr m"
proof -
  have "\<exists>m. bindE (seal r c k n seed (public_der r relay_key) payload) (\<lambda>box. ascii_encode (b64u box)) = Inr m" for payload
    using seal_total [OF assms, of c n seed payload] b64u_encodes by (auto simp: bindE_eq_Inr) blast
  then show ?thesis unfolding build_bootstrap_request_def Let_def .
qed

lemma response_total:
  assumes "rsa_correct r client_key" and "length k = 32"
  shows "\<exists>m. build_bootstrap_response r c sha256 k n seed (public_der r client_key) nonce cert = Inr m"
proof -
  have "\<exists>m. bindE (seal r c k n seed (public_der r client_key) payload) (\<lambda>box. ascii_encode (b64u box)) = Inr m" for payload
    using seal_total [OF assms, of c n seed payload] b64u_encodes by (auto simp: bindE_eq_Inr) blast
  then show ?thesis unfolding build_bootstrap_response_def Let_def .
qed

lemma bootstrap_exchange_witness:
  "\<exists>request response.
     decrypt_bootstrap_request demo_rsa demo_aead [7] request
       = Inr \<lparr>request_client_id = ''phone'', request_client_kind = ''android'',
              request_client_key = [9], request_nonce = replicate 16 5\<rparr> \<and>
     decrypt_bootstrap_response demo_rsa demo_aead (\<lambda>b. [of_nat (length b)]) [9] response (replicate 16 5)
       = Inr (replicate 16 5, [1, 2, 3], [3])"
proof -
  obtain request where q: "build_bootstrap_request demo_rsa demo_aead (replicate 32 1) (replicate 12 2) []
      (public_der demo_rsa [7]) ''phone'' (public_der demo_rsa [9]) (replicate 16 5) ''android'' = Inr request"
    using request_total [OF demo_rsa_correct] by (metis length_replicate)
  obtain response where p: "build_bootstrap_response demo_rsa demo_aead (\<lambda>b. [of_nat (length b)]) (replicate 32 3)
      (replicate 12 4) [] (public_der demo_rsa [9]) (replicate 16 5) [1, 2, 3] = Inr response"
    using response_total [OF demo_rsa_correct] by (metis length_replicate)
  from bootstrap_exchange [OF demo_rsa_correct demo_rsa_correct demo_correct _ _ _ _ _ q p] show ?thesis
    by (intro exI [of _ request] exI [of _ response]) (simp add: demo_rsa_def)
qed

lemma demo_oaep_correct: "oaep_correct demo_rsa g k"
  by (simp add: oaep_correct_def demo_rsa_def)

text \<open>A payload that names another deployment than the sealing configuration does.\<close>

lemma join_payload_roundtrip_witness:
  "\<exists>message. build_bootstrap demo_rsa (RelayConfig [7]) [] ''t'' 1000
       [(''client_id'', JStr ''phone''), (''deployment_id'', JStr ''lab'')] = Inr message \<and>
     parse_bootstrap demo_rsa (RelayConfig [7]\<lparr>deployment_id := ''lab''\<rparr>) 1300 message
       = Inr [(''client_id'', JStr ''phone''), (''deployment_id'', JStr ''lab''),
              (''nonce'', JStr ''t''), (''timestamp'', JInt 1000)] \<and>
     parse_bootstrap demo_rsa (RelayConfig [7]\<lparr>deployment_id := ''private''\<rparr>) 1300 message
       = Inl (ValueError ''wrong deployment'')"
proof -
  let ?p = "[(''client_id'', JStr ''phone''), (''deployment_id'', JStr ''lab'')]" and ?cfg = "RelayConfig [7]"
  obtain message where m: "build_bootstrap demo_rsa ?cfg [] ''t'' 1000 ?p = Inr message"
    using b64_encodes unfolding build_bootstrap_def Let_def by (auto simp: demo_rsa_def oaep_seal_def)
  have "wf_json (JObj ?p)" by (simp add: wf_dict_def)
  from join_payload_roundtrip [OF demo_oaep_correct this m refl, where now = 1300] m show ?thesis
    by (intro exI [of _ message]) (simp add: RelayConfig_def jget_def dget_or_def)
qed

end
