(* ===== verification/Relay.thy ===== *)
theory Relay
  imports RelayState Bootstrap
begin

text \<open>
  \<open>server/appserve_server/service.py\<close>, the runtime of the relay apart from its connection
  handlers: what is sent to whom, presence, the Wisp catalog, and the management actions with
  the page they render. A \<open>StreamWriter\<close> is a connection number; what is written to it is
  recorded in order. Writing to a connection that was lost raises \<open>ConnectionError\<close>, writing
  to one that this side has closed already is discarded.
\<close>

type_synonym conn = nat

text \<open>What the handlers read from the host: the update log and the journal as text or an error, and
  whether \<open>subprocess.Popen\<close> works.\<close>

record host =
  update_log :: "string + string"
  journal :: "string + string \<times> string"
  popen_ok :: bool

record relay =
  state :: relay_state
  sessions :: "(client_id, client_id \<times> conn) dict"
  relay_liveness :: "(client_id, time) dict"
  control_sessions :: "(client_id, client_id \<times> conn) dict"
  auth_challenges :: "(string, string \<times> string \<times> string \<times> json \<times> time) dict"
  monotonic :: time
  wall_clock :: int
  host :: host
  outbox :: "(conn \<times> jdict) list"
  closed_conns :: "conn list"
  lost_conns :: "conn list"
  launched :: "string list list"

text \<open>What stays fixed while a relay runs, with the libraries it calls.\<close>

record 'k relay_env =
  rsa_lib :: "'k rsa"
  aes_lib :: aead
  sha256_lib :: "bytes \<Rightarrow> bytes"
  config :: "'k relay_config"
  update_command :: "string list option"
  server_version :: string
  certificate_der :: "bytes option"

definition HEARTBEAT_TIMEOUT_SECONDS :: time where
  "HEARTBEAT_TIMEOUT_SECONDS = 75"

section \<open>Sending\<close>

text \<open>The line \<open>send_json\<close> writes: the compact document and a newline.\<close>

definition wire :: "jdict \<Rightarrow> bytes" where
  "wire v = utf8 (json_dumps (JObj v)) @ [10]"

definition send_json :: "conn \<Rightarrow> jdict \<Rightarrow> (relay, unit) act" where
  "send_json w v s =
     (if w \<in> set (lost_conns s) then (Inl (ConnectionError ''Connection lost''), s)
      else if w \<in> set (closed_conns s) then (Inr (), s)
      else (Inr (), s\<lparr>outbox := outbox s @ [(w, v)]\<rparr>))"

definition close_conn :: "conn \<Rightarrow> relay \<Rightarrow> relay" where
  "close_conn w s = s\<lparr>closed_conns := w # closed_conns s\<rparr>"

text \<open>The documents written to a connection, in order.\<close>

definition received :: "relay \<Rightarrow> conn \<Rightarrow> jdict list" where
  "received s w = map snd (filter (\<lambda>m. fst m = w) (outbox s))"

definition failed :: "string \<Rightarrow> jdict" where
  "failed e = [(''ok'', JBool False), (''error'', JStr e)]"

section \<open>Keys, presence and roles\<close>

definition valid_endpoint_public_key :: "'k rsa \<Rightarrow> json \<Rightarrow> bool" where
  "valid_endpoint_public_key r v =
     (case v of
        JStr value \<Rightarrow>
          (case unb64 value of
             Inl _ \<Rightarrow> False
           | Inr der \<Rightarrow> (case load_der r der of Some (RSAPublicKey bits) \<Rightarrow> bits \<ge> 2048 | _ \<Rightarrow> False))
      | _ \<Rightarrow> False)"

definition endpoint_record :: "relay \<Rightarrow> client_id \<Rightarrow> jdict" where
  "endpoint_record s cid = dget_or (clients (state s)) cid []"

definition endpoint_usable :: "relay \<Rightarrow> client_id \<Rightarrow> bool \<Rightarrow> bool" where
  "endpoint_usable s cid include_pending =
     (let status = dget_or (endpoint_record s cid) ''status'' (JStr ''approved'')
      in eq_str status ''approved'' \<or> (include_pending \<and> eq_str status ''pending''))"

text \<open>An owner comes out of a manifest and may be any value; only a hashable one can be looked up.\<close>

definition relay_online :: "relay \<Rightarrow> json \<Rightarrow> bool result" where
  "relay_online s v =
     (if \<not> hashable v then Inl TypeError
      else Inr (case v of
          JStr cid \<Rightarrow> (case dget (relay_liveness s) cid of
              None \<Rightarrow> False
            | Some last_seen \<Rightarrow> monotonic s - last_seen \<le> HEARTBEAT_TIMEOUT_SECONDS)
        | _ \<Rightarrow> False))"

definition is_admin :: "relay \<Rightarrow> client_id \<Rightarrow> bool" where
  "is_admin s cid \<longleftrightarrow> truthy (jget (endpoint_record s cid) ''admin'') \<and> endpoint_usable s cid False"

section \<open>The catalog\<close>

definition management_item :: "'k relay_env \<Rightarrow> jdict" where
  "management_item env =
     [(''id'', JStr ''management''), (''name'', JStr ''Management''),
      (''description'', JStr ''Claim administrator access and manage server Wisps''),
      (''owner'', JStr ''__server__''),
      (''public_key'', JStr (relay_public_key_text (rsa_lib env) (config env)))]"

text \<open>No client (\<open>None\<close>) and the empty id behave alike in \<open>catalog_items\<close>; both are the empty id here.\<close>

definition catalog_entry :: "'k relay_env \<Rightarrow> relay \<Rightarrow> client_id \<Rightarrow> jdict \<Rightarrow> jdict option result" where
  "catalog_entry env s cid manifest =
     (let owner = jget manifest ''owner''
      in if \<not> truthy owner then Inr None
         else bindE (relay_online s owner) (\<lambda>online.
           if \<not> online then Inr None
           else case owner of
             JStr own \<Rightarrow>
               if cid \<noteq> [] \<and> \<not> endpoint_usable s cid False then Inr None
               else if \<not> endpoint_usable s own False then Inr None
               else let public_key = jget (endpoint_record s own) ''public_key''
                 in if \<not> truthy public_key \<or> \<not> valid_endpoint_public_key (rsa_lib env) public_key then Inr None
                    else Inr (Some (dput ''public_key'' public_key manifest))
           | _ \<Rightarrow> Inr None))"

definition catalog_items :: "'k relay_env \<Rightarrow> relay \<Rightarrow> client_id \<Rightarrow> jdict list result" where
  "catalog_items env s cid =
     bindE (all_results (map (\<lambda>w. catalog_entry env s cid (snd w)) (wisps (state s)))) (\<lambda>found.
     Inr ((if cid \<noteq> [] \<and> endpoint_record s cid \<noteq> [] \<and> endpoint_usable s cid True
           then [management_item env] else [])
          @ List.map_filter (\<lambda>x. x) found))"

text \<open>\<open>broadcast_catalog\<close>: each subscriber gets its own catalog; one that cannot be reached is dropped.\<close>

primrec push_catalogs ::
  "'k relay_env \<Rightarrow> (client_id \<times> client_id \<times> conn) list \<Rightarrow> (relay, client_id list) act" where
  "push_catalogs env [] = ret []"
| "push_catalogs env (c # cs) =
     andthen (catch
       (andthen (\<lambda>s. (catalog_items env s (fst c), s)) (\<lambda>items.
          andthen (send_json (snd (snd c))
            [(''ok'', JBool True), (''type'', JStr ''catalog_update''), (''items'', JList (map JObj items))])
          (\<lambda>_. ret [])))
       (\<lambda>e. if is_os_error e then ret [fst c] else throw e))
     (\<lambda>stale. andthen (push_catalogs env cs) (\<lambda>rest. ret (stale @ rest)))"

definition broadcast_catalog :: "'k relay_env \<Rightarrow> (relay, unit) act" where
  "broadcast_catalog env =
     andthen (\<lambda>s. (catalog_items env s [], s)) (\<lambda>_.
     andthen (gets control_sessions) (\<lambda>subscribers.
     andthen (push_catalogs env subscribers) (\<lambda>stale.
     modify (\<lambda>s. s\<lparr>control_sessions := fold dpop stale (control_sessions s)\<rparr>))))"

section \<open>The management page\<close>

fun html_char :: "char \<Rightarrow> string" where
  "html_char c =
     (if c = CHR ''&'' then ''&amp;''
      else if c = CHR ''<'' then ''&lt;''
      else if c = CHR ''>'' then ''&gt;''
      else if c = CHR 0x22 then ''&quot;''
      else if c = CHR 0x27 then ''&#x27;''
      else [c])"

definition html_escape :: "string \<Rightarrow> string" where
  "html_escape s = concat (map html_char s)"

definition quote1 :: string where "quote1 = [CHR 0x22]"

text \<open>\<open>button\<close>: the action is JSON inside a JavaScript string literal inside an HTML attribute.\<close>

definition html_button :: "jdict \<Rightarrow> string \<Rightarrow> string" where
  "html_button action label =
     (let value = html_escape (json_quote (json_dumps (JObj action)))
      in ''<button onclick='' @ quote1 @ ''_WispGateNative.submit('' @ value @ '')'' @ quote1 @ ''>''
         @ html_escape label @ ''</button>'')"

text \<open>
  \<open>sorted(xs, key=...)\<close>: text compares with text and numbers with numbers, anything else with
  two or more elements raises \<open>TypeError\<close>. (Lists would compare with lists, but no list is a key
  of a registration.)
\<close>

definition py_sorted :: "('a \<Rightarrow> json) \<Rightarrow> 'a list \<Rightarrow> 'a list result" where
  "py_sorted key xs =
     (if length xs \<le> 1 then Inr xs
      else if \<forall>x \<in> set xs. is_str (key x)
           then Inr (sort_by_key (\<lambda>x. case key x of JStr t \<Rightarrow> t | _ \<Rightarrow> []) xs)
      else if \<forall>x \<in> set xs. num_val (key x) \<noteq> None
           then Inr (sort_key (\<lambda>x. case num_val (key x) of Some q \<Rightarrow> q | None \<Rightarrow> 0) xs)
      else Inl TypeError)"

definition action_for :: "string \<Rightarrow> string \<Rightarrow> jdict" where
  "action_for action cid = [(''action'', JStr action), (''client_id'', JStr cid)]"

definition endpoint_html :: "jdict \<Rightarrow> jdict \<Rightarrow> string" where
  "endpoint_html record endpoint =
     (let cid = py_str (dget_or endpoint ''client_id'' (JStr []));
          status = jget endpoint ''status''
      in ''<li><code>'' @ html_escape cid @ ''</code>: ''
         @ html_escape (py_str (dget_or endpoint ''status'' (JStr ''unknown'')))
         @ (if \<not> eq_str (jget record ''client_id'') cid
            then (if \<not> eq_str status ''approved'' then html_button (action_for ''approve'' cid) ''Approve'' else [])
               @ (if \<not> eq_str status ''rejected'' then html_button (action_for ''reject'' cid) ''Reject'' else [])
               @ (if \<not> eq_str status ''revoked'' then html_button (action_for ''revoke'' cid) ''Revoke'' else [])
            else [])
         @ ''</li>'')"

definition wisp_html :: "jdict \<Rightarrow> string" where
  "wisp_html wisp =
     (let wisp_id = py_str (dget_or wisp ''id'' (JStr []))
      in ''<li><strong>'' @ html_escape (py_str (dget_or wisp ''name'' (JStr wisp_id))) @ ''</strong> ''
         @ ''<code>'' @ html_escape wisp_id @ ''</code> ''
         @ html_button [(''action'', JStr ''remove_wisp''), (''id'', JStr wisp_id)] ''Remove'' @ ''</li>'')"

definition management_html :: "'k relay_env \<Rightarrow> jdict \<Rightarrow> jdict list \<Rightarrow> jdict list \<Rightarrow> bool \<Rightarrow> string result" where
  "management_html env record endpoints active admin =
     (let status = html_escape (py_str (dget_or record ''status'' (JStr ''unknown'')));
          out = ''<main><h1>Management</h1><p>Status: <strong>'' @ status @ ''</strong>''
      in if admin then
           bindE (py_sorted (\<lambda>e. dget_or e ''client_id'' (JStr [])) endpoints) (\<lambda>es.
           bindE (py_sorted (\<lambda>w. dget_or w ''id'' (JStr [])) active) (\<lambda>ws.
           Inr (out @ '' '' @ [CHR 0xB7] @ '' Administrator</p><h2>Server administration</h2>''
             @ ''<p>Server version: <code>'' @ html_escape (server_version env) @ ''</code></p><p>''
             @ html_button [(''action'', JStr ''current_server_version'')] ''Current server version'' @ '' ''
             @ html_button [(''action'', JStr ''update_server'')] ''Update server'' @ '' ''
             @ html_button [(''action'', JStr ''download_logs'')] ''Download server logs'' @ ''</p>''
             @ ''<h2>Endpoints</h2><ul>'' @ concat (map (endpoint_html record) es)
             @ ''</ul><h2>Active Wisps</h2><ul>'' @ concat (map wisp_html ws) @ ''</ul></main>'')))
         else
           Inr (out @ ''</p>''
             @ (if eq_str (jget record ''status'') ''pending'' \<and> \<not> truthy (jget record ''admin'')
                then html_button [(''action'', JStr ''claim_admin'')] ''Claim Administrator''
                else ''<p>Administrator access is not available for this endpoint.</p>'')
             @ ''</main>''))"

text \<open>\<open>s[-n:]\<close> for positive \<open>n\<close>, and the standard base64 alphabet.\<close>

definition last_chars :: "nat \<Rightarrow> string \<Rightarrow> string" where
  "last_chars n s = drop (length s - n) s"

definition b64_std :: "bytes \<Rightarrow> string" where
  "b64_std bs = map (\<lambda>c. if c = CHR ''-'' then CHR ''+'' else if c = CHR ''_'' then CHR ''/'' else c) (b64 bs)"

definition log_sections :: "host \<Rightarrow> string list" where
  "log_sections h =
     [case update_log h of
        Inr content \<Rightarrow> ''=== /var/lib/wispgate/update.log ==='' @ [CHR 0x0A] @ last_chars (256 * 1024) content
      | Inl cause \<Rightarrow> ''=== /var/lib/wispgate/update.log unavailable: '' @ cause @ '' ==='',
      case journal h of
        Inr (out, err) \<Rightarrow>
          let content = (if out \<noteq> [] then out else if err \<noteq> [] then err else ''(no journal output)'')
          in ''=== journalctl -u wispgate-relay.service ==='' @ [CHR 0x0A] @ last_chars (256 * 1024) content
      | Inl cause \<Rightarrow> ''=== relay journal unavailable: '' @ cause @ '' ==='']"

definition management_logs_html :: "host \<Rightarrow> string" where
  "management_logs_html h =
     (let logs = last_chars (256 * 1024) (intercalate [CHR 0x0A, CHR 0x0A] (log_sections h));
          encoded = b64_std (utf8 logs)
      in ''<main><h1>Server logs</h1>''
         @ ''<p>Bounded diagnostic capture; secrets and private keys are not included by this action.</p>''
         @ ''<p><a download='' @ quote1 @ ''wispgate-server-logs.txt'' @ quote1 @ '' href='' @ quote1
         @ ''data:text/plain;base64,'' @ encoded @ quote1 @ ''>Download server logs</a></p>''
         @ ''<details open><summary>Preview</summary><pre>'' @ html_escape logs @ ''</pre></details>''
         @ ''</main>'')"

section \<open>Management actions\<close>

definition endpoints_list :: "relay \<Rightarrow> jdict list" where
  "endpoints_list s = map (\<lambda>(k, r). dmerge [(''client_id'', JStr k)] r) (clients (state s))"

text \<open>The manifests whose owner is online; the owner of a manifest without one is the empty text.\<close>

definition online_wisps :: "relay \<Rightarrow> jdict list result" where
  "online_wisps s =
     bindE (all_results (map (\<lambda>w. bindE (relay_online s (dget_or (snd w) ''owner'' (JStr [])))
              (\<lambda>online. Inr (if online then [snd w] else []))) (wisps (state s))))
       (\<lambda>ws. Inr (concat ws))"

definition state_response :: "'k relay_env \<Rightarrow> client_id \<Rightarrow> jdict \<Rightarrow> relay \<Rightarrow> jdict result" where
  "state_response env cid record0 s =
     (let admin = is_admin s cid;
          endpoints = (if admin then endpoints_list s else []);
          record = dmerge [(''client_id'', JStr cid)] record0
      in bindE (if admin then online_wisps s else Inr []) (\<lambda>ws.
         bindE (management_html env record endpoints ws admin) (\<lambda>page.
         Inr (dput ''html'' (JStr page) (dmerge [(''ok'', JBool True), (''client_id'', JStr cid)] record)))))"

definition claim_response :: "string \<Rightarrow> jdict" where
  "claim_response result =
     (if result = ''claimed'' then [(''ok'', JBool True), (''status'', JStr ''approved''), (''admin'', JBool True)]
      else if result = ''already_admin''
           then [(''ok'', JBool True), (''status'', JStr ''approved''), (''admin'', JBool True),
                 (''error'', JStr ''already_admin'')]
      else failed result)"

definition update_server :: "'k relay_env \<Rightarrow> relay \<Rightarrow> jdict \<times> relay" where
  "update_server env s =
     (case update_command env of
        None \<Rightarrow> (failed ''update_unconfigured'', s)
      | Some command \<Rightarrow>
          if command = [] then (failed ''update_unconfigured'', s)
          else if \<not> popen_ok (host s) then (failed ''update_launch_failed'', s)
          else ([(''ok'', JBool True), (''type'', JStr ''update_started'')],
                s\<lparr>launched := launched s @ [command]\<rparr>))"

text \<open>Dropping the live connections of a revoked or rejected endpoint.\<close>

definition drop_sessions :: "client_id \<Rightarrow> relay \<Rightarrow> relay" where
  "drop_sessions target s =
     (let s1 = s\<lparr>sessions := dpop target (sessions s)\<rparr>;
          s2 = (case dget (sessions s) target of Some (_, w) \<Rightarrow> close_conn w s1 | None \<Rightarrow> s1);
          s3 = s2\<lparr>control_sessions := dpop target (control_sessions s2)\<rparr>
      in (case dget (control_sessions s2) target of Some (_, w) \<Rightarrow> close_conn w s3 | None \<Rightarrow> s3))"

definition status_of_action :: "string \<Rightarrow> string" where
  "status_of_action action =
     (if action = ''approve'' then ''approved'' else if action = ''reject'' then ''rejected'' else ''revoked'')"

definition change_endpoint :: "client_id \<Rightarrow> string \<Rightarrow> jdict \<Rightarrow> relay \<Rightarrow> jdict \<times> relay" where
  "change_endpoint cid action request s =
     (case jget request ''client_id'' of
        JStr target \<Rightarrow>
          if target = cid then (failed ''invalid_endpoint'', s)
          else (case set_client_status (state s) target (status_of_action action) of
             (Inl _, _) \<Rightarrow> (failed ''unknown_endpoint'', s)
           | (Inr _, st) \<Rightarrow>
               let s1 = s\<lparr>state := st\<rparr>;
                   s2 = (if action \<noteq> ''approve''
                         then drop_sessions target (s1\<lparr>state := remove_wisps_for_owner (state s1) target\<rparr>)
                         else s1)
               in ([(''ok'', JBool True), (''client_id'', JStr target),
                    (''status'', jget (endpoint_record s2 target) ''status'')], s2))
      | _ \<Rightarrow> (failed ''invalid_endpoint'', s))"

definition inspect_endpoint :: "jdict \<Rightarrow> relay \<Rightarrow> jdict result" where
  "inspect_endpoint request s =
     (let target = jget request ''client_id''
      in if \<not> hashable target then Inl TypeError
         else case target of
           JStr cid \<Rightarrow>
             (let record = endpoint_record s cid
              in if record \<noteq> [] then Inr (dmerge [(''ok'', JBool True), (''client_id'', target)] record)
                 else Inr (failed ''unknown_endpoint''))
         | _ \<Rightarrow> Inr (failed ''unknown_endpoint''))"

definition register_wisp :: "client_id \<Rightarrow> jdict \<Rightarrow> relay \<Rightarrow> jdict \<times> relay" where
  "register_wisp cid request s =
     (case jget request ''id'' of
        JStr wisp_id \<Rightarrow>
          if wisp_id = [] \<or> wisp_id = ''management'' \<or> kget (wisps (state s)) (JStr wisp_id) \<noteq> None
          then (failed ''invalid_wisp'', s)
          else
            let manifest = [(''id'', JStr wisp_id), (''name'', dget_or request ''name'' (JStr wisp_id)),
                            (''description'', dget_or request ''description'' (JStr [])),
                            (''owner'', dget_or request ''owner'' (JStr cid))];
                st = (state s)\<lparr>wisps := kput (JStr wisp_id) manifest (wisps (state s))\<rparr>
            in ([(''ok'', JBool True), (''wisp'', JObj manifest)], s\<lparr>state := save st\<rparr>)
      | _ \<Rightarrow> (failed ''invalid_wisp'', s))"

definition remove_wisp :: "jdict \<Rightarrow> relay \<Rightarrow> jdict result \<times> relay" where
  "remove_wisp request s =
     (let wisp_id = jget request ''id''
      in if \<not> hashable wisp_id then (Inl TypeError, s)
         else if kget (wisps (state s)) wisp_id = None then (Inr (failed ''unknown_wisp''), s)
         else (Inr [(''ok'', JBool True), (''id'', wisp_id)],
               s\<lparr>state := save ((state s)\<lparr>wisps := kpop wisp_id (wisps (state s))\<rparr>)\<rparr>))"

definition answer :: "jdict \<times> relay \<Rightarrow> jdict result \<times> relay" where
  "answer p = (Inr (fst p), snd p)"

lemma answer_simps [simp]:
  "snd (answer p) = snd p"
  "answer (r, t) = (Inr r, t)"
  by (simp_all add: answer_def)

text \<open>The actions that need an administrator.\<close>

definition admin_action :: "'k relay_env \<Rightarrow> client_id \<Rightarrow> json \<Rightarrow> jdict \<Rightarrow> relay \<Rightarrow> jdict result \<times> relay" where
  "admin_action env cid action request s =
     (if eq_str action ''current_server_version''
      then (Inr [(''ok'', JBool True), (''type'', JStr ''server_version''), (''version'', JStr (server_version env))], s)
      else if eq_str action ''download_logs''
      then (Inr [(''ok'', JBool True), (''type'', JStr ''server_logs''), (''html'', JStr (management_logs_html (host s)))], s)
      else if eq_str action ''update_server'' then answer (update_server env s)
      else if eq_str action ''list_endpoints''
      then (Inr [(''ok'', JBool True), (''endpoints'', JList (map JObj (endpoints_list s)))], s)
      else if eq_str action ''approve'' \<or> eq_str action ''reject'' \<or> eq_str action ''revoke''
      then answer (change_endpoint cid (py_str action) request s)
      else if eq_str action ''inspect_endpoint'' then (inspect_endpoint request s, s)
      else if eq_str action ''list_wisps''
      then (Inr [(''ok'', JBool True), (''wisps'', JList (map (JObj \<circ> snd) (wisps (state s))))], s)
      else if eq_str action ''register_wisp'' then answer (register_wisp cid request s)
      else if eq_str action ''remove_wisp'' then remove_wisp request s
      else (Inr (failed ''unknown_management_action''), s))"

definition management_request :: "'k relay_env \<Rightarrow> client_id \<Rightarrow> json \<Rightarrow> (relay, jdict) act" where
  "management_request env cid req s =
     (case as_dict req of
        Inl e \<Rightarrow> (Inl e, s)
      | Inr request \<Rightarrow>
          let action = jget request ''action''
          in if \<not> hashable action then (Inl TypeError, s)
             else if eq_str action ''state'' \<or> eq_str action ''status'' then
               (case dget (clients (state s)) cid of
                  None \<Rightarrow> (Inr (failed ''unknown_endpoint''), s)
                | Some record \<Rightarrow>
                    if eq_str action ''status''
                    then (Inr (dmerge [(''ok'', JBool True), (''client_id'', JStr cid)] record), s)
                    else (state_response env cid record s, s))
             else if eq_str action ''claim_admin'' then
               (let claim = claim_admin (state s) cid in (Inr (claim_response (fst claim)), s\<lparr>state := snd claim\<rparr>))
             else if \<not> is_admin s cid then (Inr (failed ''management_unauthorized''), s)
             else admin_action env cid action request s)"

section \<open>What the catalog shows\<close>

lemma all_results_Inr: "all_results rs = Inr xs \<longleftrightarrow> rs = map Inr xs"
proof (induction rs arbitrary: xs)
  case Nil
  then show ?case by auto
next
  case (Cons r rs)
  then show ?case by (cases xs) (auto simp: bindE_eq_Inr)
qed

lemma set_map_filter_id: "x \<in> set (List.map_filter (\<lambda>x. x) xs) \<longleftrightarrow> Some x \<in> set xs"
  by (induction xs) (auto simp: map_filter_simps split: option.split)

definition online :: "relay \<Rightarrow> client_id \<Rightarrow> bool" where
  "online s cid \<longleftrightarrow>
     (\<exists>t. dget (relay_liveness s) cid = Some t \<and> monotonic s - t \<le> HEARTBEAT_TIMEOUT_SECONDS)"

lemma relay_online_eq:
  "relay_online s v = Inr b \<longleftrightarrow> hashable v \<and> b = (\<exists>cid. v = JStr cid \<and> online s cid)"
  by (auto simp: relay_online_def online_def split: json.splits option.splits)

text \<open>The conditions under which a manifest is listed for a client, and the item it is listed as.\<close>

definition listed :: "'k relay_env \<Rightarrow> relay \<Rightarrow> client_id \<Rightarrow> jdict \<Rightarrow> jdict \<Rightarrow> bool" where
  "listed env s cid manifest item \<longleftrightarrow>
     (\<exists>own. jget manifest ''owner'' = JStr own \<and> own \<noteq> [] \<and> online s own \<and> endpoint_usable s own False \<and>
        (cid \<noteq> [] \<longrightarrow> endpoint_usable s cid False) \<and>
        valid_endpoint_public_key (rsa_lib env) (jget (endpoint_record s own) ''public_key'') \<and>
        truthy (jget (endpoint_record s own) ''public_key'') \<and>
        item = dput ''public_key'' (jget (endpoint_record s own) ''public_key'') manifest)"

lemma catalog_entry_listed:
  "catalog_entry env s cid manifest = Inr found \<Longrightarrow> found = Some item \<longleftrightarrow> listed env s cid manifest item"
  by (cases "jget manifest ''owner''")
     (auto simp: catalog_entry_def Let_def bindE_eq_Inr relay_online_eq listed_def split: if_splits)

lemma catalog_found:
  assumes "catalog_items env s cid = Inr items"
  shows "\<exists>found. items = (if cid \<noteq> [] \<and> endpoint_record s cid \<noteq> [] \<and> endpoint_usable s cid True then [management_item env] else [])
      @ List.map_filter (\<lambda>x. x) found \<and>
    (\<forall>item. Some item \<in> set found \<longleftrightarrow> (\<exists>w \<in> set (wisps (state s)). listed env s cid (snd w) item))"
proof -
  from assms obtain found where
    found: "map (\<lambda>w. catalog_entry env s cid (snd w)) (wisps (state s)) = map Inr found"
    and items: "items = (if cid \<noteq> [] \<and> endpoint_record s cid \<noteq> [] \<and> endpoint_usable s cid True
           then [management_item env] else []) @ List.map_filter (\<lambda>x. x) found"
    by (auto simp: catalog_items_def bindE_eq_Inr all_results_Inr)
  have "Some item \<in> set found \<longleftrightarrow> (\<exists>w \<in> set (wisps (state s)). listed env s cid (snd w) item)" for item
  proof -
    have "Some item \<in> set found \<longleftrightarrow> (\<exists>w \<in> set (wisps (state s)). catalog_entry env s cid (snd w) = Inr (Some item))"
      using arg_cong [OF found, of set] by force
    also have "\<dots> \<longleftrightarrow> (\<exists>w \<in> set (wisps (state s)). listed env s cid (snd w) item)"
    proof (intro bex_cong refl)
      fix w assume "w \<in> set (wisps (state s))"
      then have "catalog_entry env s cid (snd w) \<in> Inr ` set found"
        using arg_cong [OF found, of set] by auto
      then obtain f where f: "catalog_entry env s cid (snd w) = Inr f" by auto
      from catalog_entry_listed [OF this, of item] f
      show "catalog_entry env s cid (snd w) = Inr (Some item) \<longleftrightarrow> listed env s cid (snd w) item" by auto
    qed
    finally show ?thesis .
  qed
  with items show ?thesis by blast
qed

lemma listed_in_catalog:
  assumes "catalog_items env s cid = Inr items" and "(k, manifest) \<in> set (wisps (state s))" and "listed env s cid manifest item"
  shows "item \<in> set items"
  using catalog_found [OF assms(1)] assms(2,3) by (force simp: set_map_filter_id)

text \<open>C34: the catalog a client is sent holds exactly the management entry, for an endpoint that is
  approved or pending, and the registered Wisps whose owner has been heard from within 75
  seconds, is approved and has a valid RSA key of at least 2048 bits on record; each item
  carries that key whatever key its manifest named, and only an approved client sees any.\<close>

theorem catalog_exact:
  assumes "catalog_items env s cid = Inr items"
  shows "item \<in> set items \<longleftrightarrow>
     (item = management_item env \<and> cid \<noteq> [] \<and> endpoint_record s cid \<noteq> [] \<and> endpoint_usable s cid True) \<or>
     (\<exists>k manifest. (k, manifest) \<in> set (wisps (state s)) \<and> listed env s cid manifest item)"
  using catalog_found [OF assms] by (force simp: set_map_filter_id)

section \<open>Who may change what\<close>

text \<open>C33: management never acts for an endpoint that is not an approved administrator: whatever the
  request, either nothing changes at all, or the request was the one-time claim by a
  registered endpoint at a moment when no administrator existed. Every other request of such
  an endpoint apart from the two read-only views of its own record is answered with the
  unauthorized error.\<close>

theorem management_needs_admin:
  assumes "\<not> is_admin s cid" and "management_request env cid (JObj request) s = (res, t)"
    and "action = jget request ''action''" and "hashable action"
  shows "(t = s \<or>
          (action = JStr ''claim_admin'' \<and> dget (clients (state s)) cid \<noteq> None \<and>
           (\<forall>r \<in> set (dvalues (clients (state s))). \<not> approved_admin r) \<and>
           t = s\<lparr>state := snd (claim_admin (state s) cid)\<rparr>)) \<and>
         (action \<notin> {JStr ''state'', JStr ''status'', JStr ''claim_admin''} \<longrightarrow>
            res = Inr (failed ''management_unauthorized''))"
proof (cases "action = JStr ''claim_admin''")
  case True
  then show ?thesis
    using assms by (auto simp: management_request_def Let_def claim_admin_def split: option.splits if_splits)
next
  case False
  then show ?thesis
    using assms by (auto simp: management_request_def Let_def eq_str_def split: option.splits if_splits)
qed

lemma set_client_status_result:
  "st \<in> {''approved'', ''rejected'', ''revoked'', ''pending''} \<Longrightarrow>
     set_client_status s cid st = (case dget (clients s) cid of
         None \<Rightarrow> (Inl (KeyError cid), s)
       | Some r \<Rightarrow> (Inr (), save (s\<lparr>clients := dput cid
           (if st \<noteq> ''approved'' then dput ''admin'' (JBool False) (dput ''status'' (JStr st) r)
            else dput ''status'' (JStr st) r) (clients s)\<rparr>)))"
  by (auto simp: set_client_status_def Let_def split: option.split)

lemma drop_sessions_state [simp]:
  "state (drop_sessions target s) = state s"
  "relay_liveness (drop_sessions target s) = relay_liveness s"
  "monotonic (drop_sessions target s) = monotonic s"
  by (auto simp: drop_sessions_def Let_def close_conn_def split: option.splits)

lemma update_server_state [simp]: "state (snd (update_server env s)) = state s"
  by (simp add: update_server_def split: option.split)

section \<open>Revocation\<close>

lemma endpoint_record_state: "state s = state t \<Longrightarrow> endpoint_record s = endpoint_record t"
  by (simp add: endpoint_record_def fun_eq_iff)

lemma drop_sessions_gone:
  "dget (sessions (drop_sessions target s)) target = None"
  "dget (control_sessions (drop_sessions target s)) target = None"
  by (auto simp: drop_sessions_def Let_def close_conn_def split: option.split)

lemma drop_sessions_closed:
  "dget (sessions s) target = Some (x, w) \<or> dget (control_sessions s) target = Some (x, w) \<Longrightarrow>
     w \<in> set (closed_conns (drop_sessions target s))"
  by (auto simp: drop_sessions_def Let_def close_conn_def split: option.split)

lemma change_endpoint_effect:
  assumes "jget request ''client_id'' = JStr target" and "target \<noteq> cid" and "dget (clients (state s)) target = Some r"
    and "action \<in> {''reject'', ''revoke''}" and "change_endpoint cid action request s = (resp, t)"
  shows "t = drop_sessions target (s\<lparr>state := remove_wisps_for_owner (save ((state s)\<lparr>clients :=
             dput target (dput ''admin'' (JBool False) (dput ''status'' (JStr (status_of_action action)) r))
               (clients (state s))\<rparr>)) target\<rparr>)"
proof -
  have st: "status_of_action action \<in> {''approved'', ''rejected'', ''revoked'', ''pending''}"
    "status_of_action action \<noteq> ''approved''"
    using assms(4) by (auto simp: status_of_action_def)
  have "set_client_status (state s) target (status_of_action action) = (Inr (), save ((state s)\<lparr>clients :=
             dput target (dput ''admin'' (JBool False) (dput ''status'' (JStr (status_of_action action)) r))
               (clients (state s))\<rparr>))"
    using set_client_status_result [OF st(1), of "state s" target] assms(3) st(2) by simp
  with assms show ?thesis by (auto simp: change_endpoint_def Let_def)
qed

text \<open>C35: rejecting or revoking an endpoint takes effect at once: its record says so and loses the
  administrator flag, its relay and control connections are closed and forgotten, none of the
  remaining registrations is its own, and no catalog for anyone lists a Wisp of it.\<close>

theorem revocation_effect:
  assumes "jget request ''client_id'' = JStr target" and "target \<noteq> cid" and "dget (clients (state s)) target = Some r"
    and "action \<in> {''reject'', ''revoke''}" and "change_endpoint cid action request s = (resp, t)"
  shows "jget (endpoint_record t target) ''status'' = JStr (status_of_action action) \<and> \<not> is_admin t target \<and>
         \<not> endpoint_usable t target True \<and>
         dget (sessions t) target = None \<and> dget (control_sessions t) target = None \<and>
         (\<forall>x w. dget (sessions s) target = Some (x, w) \<or> dget (control_sessions s) target = Some (x, w)
            \<longrightarrow> w \<in> set (closed_conns t)) \<and>
         (\<forall>(k, m) \<in> set (wisps (state t)). jget m ''owner'' \<noteq> JStr target) \<and>
         (\<forall>c m item. listed env t c m item \<longrightarrow> jget m ''owner'' \<noteq> JStr target)"
proof -
  note t = change_endpoint_effect [OF assms]
  have rec: "endpoint_record t target = dput ''admin'' (JBool False) (dput ''status'' (JStr (status_of_action action)) r)"
    by (simp add: t endpoint_record_def remove_wisps_for_owner_def save_def)
  have st: "status_of_action action \<noteq> ''approved''" "status_of_action action \<noteq> ''pending''"
    using assms(4) by (auto simp: status_of_action_def)
  then have unusable: "\<not> endpoint_usable t target b" for b
    by (simp add: endpoint_usable_def rec Let_def)
  have "w \<in> set (closed_conns t)"
    if "dget (sessions s) target = Some (x, w) \<or> dget (control_sessions s) target = Some (x, w)" for x w
    unfolding t by (rule drop_sessions_closed) (use that in simp)
  moreover have "jget m ''owner'' \<noteq> JStr target" if "(k, m) \<in> set (wisps (state t))" for k m
    using that by (auto simp: t remove_wisps_for_owner_def)
  moreover have "jget m ''owner'' \<noteq> JStr target" if "listed env t c m item" for c m item
    using that unusable by (auto simp: listed_def)
  ultimately show ?thesis
    using rec unusable drop_sessions_gone [of target] by (auto simp: is_admin_def t)
qed

text \<open>
  The status is saved before the registrations are removed, and nothing saves afterwards: what is
  on disk still lists them.
\<close>

text \<open>C40: the removal of the registrations of a revoked or rejected endpoint does not reach the disk: a
  relay restarted right after the action comes up with every registration the relay had
  before it, the revoked endpoint's included.\<close>

theorem revoked_registrations_return:
  assumes "jget request ''client_id'' = JStr target" and "target \<noteq> cid" and "dget (clients (state s)) target = Some r"
    and "action \<in> {''reject'', ''revoke''}" and "change_endpoint cid action request s = (resp, t)"
  shows "\<exists>u. restart (state t) = Inr u \<and> wisps u = map (\<lambda>(k, m). (JStr k, m)) (text_keys (wisps (state s)))"
proof -
  let ?c = "(state s)\<lparr>clients := dput target (dput ''admin'' (JBool False)
      (dput ''status'' (JStr (status_of_action action)) r)) (clients (state s))\<rparr>"
  have "disk (state t) = Some (snapshot ?c)"
    unfolding change_endpoint_effect [OF assms] by (simp add: remove_wisps_for_owner_def save_def)
  from restart_saved [OF this] show ?thesis by simp
qed

section \<open>Markup\<close>

text \<open>The characters that open or close a tag or an attribute value.\<close>

definition markup :: "string \<Rightarrow> string" where
  "markup s = filter (\<lambda>c. c = CHR ''<'' \<or> c = CHR ''>'' \<or> c = CHR 0x22) s"

lemma markup_simps [simp]:
  "markup [] = []"
  "markup (c # s) = (if c = CHR ''<'' \<or> c = CHR ''>'' \<or> c = CHR 0x22 then c # markup s else markup s)"
  "markup (s @ t) = markup s @ markup t"
  by (simp_all add: markup_def)

lemma markup_escape [simp]: "markup (html_escape s) = []"
  by (induction s) (simp_all add: html_escape_def)

definition button_markup :: string where
  "button_markup = [CHR ''<'', CHR 0x22, CHR 0x22, CHR ''>'', CHR ''<'', CHR ''>'']"

lemma markup_button [simp]: "markup (html_button action label) = button_markup"
  by (simp add: html_button_def Let_def quote1_def button_markup_def)

text \<open>No stored text can add markup to the administrator's page: whatever strings a Wisp manifest or an
  endpoint record holds, the tags and attribute quotes of its list entry are those of the
  template, and only the three status tests and the test for the administrator's own entry
  decide how many buttons it has.\<close>

theorem page_markup_is_fixed:
  "markup (wisp_html wisp) = ''<><><><><>'' @ button_markup @ ''<>'' \<and>
   markup (endpoint_html record endpoint) =
     ''<><><>'' @
     concat (replicate
       (if eq_str (jget record ''client_id'') (py_str (dget_or endpoint ''client_id'' (JStr []))) then 0
        else of_bool (\<not> eq_str (jget endpoint ''status'') ''approved'')
           + of_bool (\<not> eq_str (jget endpoint ''status'') ''rejected'')
           + of_bool (\<not> eq_str (jget endpoint ''status'') ''revoked''))
       button_markup) @ ''<>''"
  by (simp add: wisp_html_def endpoint_html_def Let_def of_bool_def numeral_2_eq_2 numeral_3_eq_3)

section \<open>Witnesses\<close>

definition demo_env :: "bytes relay_env" where
  "demo_env = \<lparr>rsa_lib = demo_rsa, aes_lib = demo_aead, sha256_lib = (\<lambda>b. [of_nat (length b)]),
     config = (RelayConfig [7])\<lparr>enrollment_enabled := True\<rparr>, update_command = Some [''/usr/bin/update''],
     server_version = ''1.0'', certificate_der = Some [1, 2, 3]\<rparr>"

definition demo_key :: json where
  "demo_key = JStr (public_key_text demo_rsa [9])"

definition demo_endpoint :: "string \<Rightarrow> bool \<Rightarrow> jdict" where
  "demo_endpoint status admin = [(''public_key'', demo_key), (''status'', JStr status), (''admin'', JBool admin)]"

definition demo_manifest :: jdict where
  "demo_manifest = [(''id'', JStr ''prime''), (''owner'', JStr ''wisp'')]"

definition demo_relay :: relay where
  "demo_relay = \<lparr>state = (RelayState None 200)\<lparr>clients := [(''adm'', demo_endpoint ''approved'' True),
       (''wisp'', demo_endpoint ''approved'' False), (''new'', demo_endpoint ''pending'' False)],
       wisps := [(JStr ''prime'', demo_manifest)]\<rparr>,
     sessions = [(''wisp'', ''wisp'', 1)], relay_liveness = [(''wisp'', 90)], control_sessions = [(''adm'', ''adm'', 2)],
     auth_challenges = [], monotonic = 100, wall_clock = 1000, host = \<lparr>update_log = Inl ''-'', journal = Inl ''-'', popen_ok = True\<rparr>,
     outbox = [], closed_conns = [], lost_conns = [], launched = []\<rparr>"

lemmas demo_simps = demo_relay_def demo_env_def demo_manifest_def demo_endpoint_def RelayState_def

lemma demo_key_valid [simp]:
  "valid_endpoint_public_key demo_rsa demo_key"
  "truthy demo_key"
proof -
  have "load_der demo_rsa d = Some (RSAPublicKey 3072)" for d by (simp add: demo_rsa_def)
  then show "valid_endpoint_public_key demo_rsa demo_key"
    by (simp add: valid_endpoint_public_key_def demo_key_def public_key_text_def)
  show "truthy demo_key" by (simp add: demo_key_def demo_key_text)
qed

lemma demo_listed: "listed demo_env demo_relay ''adm'' demo_manifest (dput ''public_key'' demo_key demo_manifest)"
  by (simp add: listed_def online_def endpoint_usable_def endpoint_record_def dget_or_def jget_def
      HEARTBEAT_TIMEOUT_SECONDS_def) (simp add: demo_simps)

lemma catalog_exact_witness:
  "\<exists>items. catalog_items demo_env demo_relay ''adm'' = Inr items \<and> dput ''public_key'' demo_key demo_manifest \<in> set items"
proof -
  have "\<exists>items. catalog_items demo_env demo_relay ''adm'' = Inr items"
    by (simp add: catalog_items_def catalog_entry_def relay_online_def demo_relay_def demo_manifest_def Let_def)
  then obtain items where items: "catalog_items demo_env demo_relay ''adm'' = Inr items" ..
  moreover have "(JStr ''prime'', demo_manifest) \<in> set (wisps (state demo_relay))" by (simp add: demo_relay_def)
  ultimately show ?thesis
    using catalog_exact [OF items] demo_listed by blast
qed

lemma management_needs_admin_witness:
  "\<not> is_admin demo_relay ''new'' \<and>
   fst (management_request demo_env ''new'' (JObj [(''action'', JStr ''update_server'')]) demo_relay)
     = Inr (failed ''management_unauthorized'')"
proof -
  have no: "\<not> is_admin demo_relay ''new''"
    by (simp add: is_admin_def endpoint_record_def dget_or_def demo_simps)
  obtain res t where m: "management_request demo_env ''new'' (JObj [(''action'', JStr ''update_server'')]) demo_relay = (res, t)"
    by force
  from management_needs_admin [OF no m refl] no m show ?thesis by simp
qed

definition revoke_wisp :: jdict where
  "revoke_wisp = [(''action'', JStr ''revoke''), (''client_id'', JStr ''wisp'')]"

lemma demo_revoke:
  "jget revoke_wisp ''client_id'' = JStr ''wisp''"
  "dget (clients (state demo_relay)) ''wisp'' = Some (demo_endpoint ''approved'' False)"
  "''revoke'' \<in> {''reject'', ''revoke''}"
  by (simp_all add: revoke_wisp_def demo_relay_def)

lemma revocation_effect_witness:
  "1 \<in> set (closed_conns (snd (change_endpoint ''adm'' ''revoke'' revoke_wisp demo_relay))) \<and>
   \<not> endpoint_usable (snd (change_endpoint ''adm'' ''revoke'' revoke_wisp demo_relay)) ''wisp'' True"
proof -
  obtain resp t where c: "change_endpoint ''adm'' ''revoke'' revoke_wisp demo_relay = (resp, t)" by force
  have "dget (sessions demo_relay) ''wisp'' = Some (''wisp'', 1)" by (simp add: demo_relay_def)
  with revocation_effect [OF demo_revoke(1) _ demo_revoke(2,3) c, where env = demo_env] c show ?thesis by auto
qed

lemma revoked_registrations_return_witness:
  "\<exists>u. restart (state (snd (change_endpoint ''adm'' ''revoke'' revoke_wisp demo_relay))) = Inr u \<and>
       wisps u = [(JStr ''prime'', demo_manifest)]"
proof -
  obtain resp t where c: "change_endpoint ''adm'' ''revoke'' revoke_wisp demo_relay = (resp, t)" by force
  have "map (\<lambda>(k, m). (JStr k, m)) (text_keys (wisps (state demo_relay))) = [(JStr ''prime'', demo_manifest)]"
    by (simp add: demo_relay_def text_keys_def dmerge_def)
  with revoked_registrations_return [OF demo_revoke(1) _ demo_revoke(2,3) c] c show ?thesis by simp
qed

end
