(* ===== verification/RelayAuth.thy ===== *)
theory RelayAuth
  imports Relay
begin

text \<open>
  \<open>RelayRuntime._authenticate_endpoint\<close> of \<open>server/appserve_server/service.py\<close>. The coroutine
  suspends once, to wait for the client's proof; it is cut there into two steps, with the
  local variables that live across the suspension in \<open>auth_wait\<close>. The random challenge and
  the random key of the challenge table are arguments.
\<close>

section \<open>Input\<close>

text \<open>What waiting for a line gives: the bytes read (none at the end of the stream) or an exception.\<close>

datatype input = Line bytes | TimedOut | ReadError | Overrun

fun read_line :: "input \<Rightarrow> bytes result" where
  "read_line (Line bs) = Inr bs"
| "read_line TimedOut = Inl TimeoutError"
| "read_line ReadError = Inl (ConnectionError ''Connection lost'')"
| "read_line Overrun = Inl (ValueError ''Separator is not found, and chunk exceed the limit'')"

definition read_json :: "input \<Rightarrow> json result" where
  "read_json i = bindE (read_line i) json_loads"

text \<open>An operation on the durable state inside the runtime.\<close>

definition on_state :: "(relay_state \<Rightarrow> 'a result \<times> relay_state) \<Rightarrow> (relay, 'a) act" where
  "on_state f s = (fst (f (state s)), s\<lparr>state := snd (f (state s))\<rparr>)"

section \<open>The hello\<close>

record auth_wait =
  wait_role :: string
  wait_client :: string
  wait_known :: bool
  wait_key :: string
  wait_ticket :: json
  wait_peer :: json
  wait_length :: json

definition refuse :: "conn \<Rightarrow> string \<Rightarrow> (relay, 'a option) act" where
  "refuse w e = andthen (send_json w (failed e)) (\<lambda>_. ret None)"

definition challenge_message :: "string \<Rightarrow> jdict" where
  "challenge_message challenge = [(''type'', JStr ''auth_challenge''), (''challenge'', JStr challenge)]"

definition auth_hello ::
  "'k relay_env \<Rightarrow> conn \<Rightarrow> json \<Rightarrow> string set \<Rightarrow> string \<Rightarrow> string \<Rightarrow> (relay, auth_wait option) act" where
  "auth_hello env w hello allowed_roles challenge key s =
     (case as_dict hello of
        Inl e \<Rightarrow> (Inl e, s)
      | Inr h \<Rightarrow>
          let client_kind = dget_or h ''client_kind'' (JStr ''unknown'')
          in if \<not> hashable (jget h ''role'') then (Inl TypeError, s)
             else case (jget h ''role'', jget h ''client_id'', jget h ''public_key'') of
               (JStr role, JStr cid, JStr public_key) \<Rightarrow>
                 if role \<notin> allowed_roles \<or> cid = [] \<or> length cid > 128
                    \<or> \<not> valid_endpoint_public_key (rsa_lib env) (JStr public_key)
                 then refuse w ''invalid_auth_hello'' s
                 else let known = dget (clients (state s)) cid
                   in if known = None \<and> (\<not> enrollment_enabled (config env) \<or> role \<notin> {''control'', ''relay''})
                      then refuse w ''unknown_endpoint'' s
                      else if (case known of Some r \<Rightarrow> \<not> key_eq (jget r ''public_key'') (JStr public_key) | None \<Rightarrow> False)
                      then refuse w ''endpoint_key_changed'' s
                      else andthen (modify (\<lambda>s. s\<lparr>auth_challenges :=
                                dput key (cid, public_key, challenge, client_kind, monotonic s + 60) (auth_challenges s)\<rparr>))
                          (\<lambda>_. andthen (send_json w (challenge_message challenge)) (\<lambda>_.
                           ret (Some \<lparr>wait_role = role, wait_client = cid, wait_known = (known \<noteq> None), wait_key = key,
                                      wait_ticket = dget_or h ''ticket'' (JStr []), wait_peer = dget_or h ''peer'' (JStr []),
                                      wait_length = dget_or h ''length'' (JStr [])\<rparr>))) s
             | _ \<Rightarrow> refuse w ''invalid_auth_hello'' s)"

section \<open>The proof\<close>

definition transcript :: "auth_wait \<Rightarrow> string \<Rightarrow> string" where
  "transcript a challenge =
     intercalate [CHR 0x0A] [''wisp-relay-auth-v1'', wait_role a, wait_client a, challenge,
       py_str (wait_ticket a), py_str (wait_peer a), py_str (wait_length a)]"

text \<open>The \<open>try\<close> block: every exception in it ends as a refusal, so it is a test.\<close>

definition proof_ok :: "'k relay_env \<Rightarrow> string \<Rightarrow> string \<Rightarrow> time \<Rightarrow> time \<Rightarrow> bytes \<Rightarrow> bool" where
  "proof_ok env key signature expires now' signed_text =
     (case (unb64 key, unb64 signature) of
        (Inr der, Inr sig) \<Rightarrow>
          (case load_der (rsa_lib env) der of
             Some (RSAPublicKey _) \<Rightarrow> \<not> expires < now' \<and> pss_verify (rsa_lib env) der sig signed_text
           | _ \<Rightarrow> False)
      | _ \<Rightarrow> False)"

definition access_error :: "string \<Rightarrow> string" where
  "access_error access =
     (if access \<in> {''pending'', ''rejected'', ''revoked''} then ''endpoint_'' @ access else access)"

definition authenticated_message :: "client_id \<Rightarrow> jdict" where
  "authenticated_message cid = [(''ok'', JBool True), (''type'', JStr ''authenticated''), (''client_id'', JStr cid)]"

definition set_kind :: "client_id \<Rightarrow> json \<Rightarrow> relay_state \<Rightarrow> relay_state" where
  "set_kind cid kind st =
     st\<lparr>clients := dput cid (dput ''client_kind'' kind (dget_or (clients st) cid [])) (clients st)\<rparr>"

definition admit ::
  "conn \<Rightarrow> auth_wait \<Rightarrow> bool \<Rightarrow> string \<Rightarrow> string \<Rightarrow> json \<Rightarrow> (relay, client_id option) act" where
  "admit w a allow_pending_control cid key kind =
     andthen (if wait_known a
              then gets (\<lambda>s. client_access (state s) cid (JStr key))
              else (\<lambda>s. on_state (\<lambda>st. enroll_client st cid (JStr key) kind (wall_clock s)) s)) (\<lambda>access.
     if access \<notin> {''approved'', ''admin''}
        \<and> \<not> (access = ''pending'' \<and> allow_pending_control \<and> wait_role a = ''control'')
     then refuse w (access_error access)
     else andthen (\<lambda>s. on_state (\<lambda>st. register_client st cid (JStr key) False (wall_clock s)) s) (\<lambda>_.
          andthen (modify (\<lambda>s. s\<lparr>state := save (set_kind cid kind (state s))\<rparr>)) (\<lambda>_.
          andthen (send_json w (authenticated_message cid)) (\<lambda>_. ret (Some cid)))))"

definition auth_proof ::
  "'k relay_env \<Rightarrow> conn \<Rightarrow> auth_wait \<Rightarrow> bool \<Rightarrow> json \<Rightarrow> (relay, client_id option) act" where
  "auth_proof env w a allow_pending_control v =
     andthen (gets (\<lambda>s. dget (auth_challenges s) (wait_key a))) (\<lambda>entry.
     andthen (modify (\<lambda>s. s\<lparr>auth_challenges := dpop (wait_key a) (auth_challenges s)\<rparr>)) (\<lambda>_.
     andthen (liftE (as_dict v)) (\<lambda>answer.
     case (entry, eq_str (jget answer ''type'') ''auth_proof'', jget answer ''signature'') of
       (Some (cid, key, challenge, kind, expires), True, JStr signature) \<Rightarrow>
         andthen (liftE (ascii_encode (transcript a challenge))) (\<lambda>signed_text.
         andthen (gets monotonic) (\<lambda>now'.
         if \<not> proof_ok env key signature expires now' signed_text then refuse w ''invalid_auth_proof''
         else admit w a allow_pending_control cid key kind))
     | _ \<Rightarrow> refuse w ''invalid_auth_proof'')))"

section \<open>Soundness\<close>

lemma refuse_not_Some: "refuse w e s \<noteq> (Inr (Some x), t)"
  by (auto simp: refuse_def andthen_def send_json_def)

lemma send_json_frame: "send_json w v s = (r, t) \<Longrightarrow> t = s\<lparr>outbox := outbox t\<rparr>"
  by (auto simp: send_json_def split: if_splits)

lemma enroll_client_access:
  assumes "enroll_client s cid pk kind wall = (Inr access, t)" and "admin_inv s"
  shows "client_access t cid pk = access \<or> (access \<in> {''admin'', ''pending''} \<and> client_access t cid pk = ''approved'')"
proof (cases "dget (clients s) cid")
  case None
  with assms(1) show ?thesis
    by (auto simp: enroll_client_def Let_def save_def client_access_def dget_or_def)
next
  case (Some r)
  with assms(1) have key: "key_eq (jget r ''public_key'') pk" and t: "t = s"
    and access: "access = (if truthy (jget r ''admin'') then ''admin'' else py_str (dget_or r ''status'' (JStr ''pending'')))"
    by (auto simp: enroll_client_def split: if_splits)
  show ?thesis
  proof (cases "truthy (jget r ''admin'')")
    case True
    with Some admin_inv_ok [OF assms(2)] have "eq_str (jget r ''status'') ''approved''"
      by (auto simp: admin_ok_def)
    then have "dget r ''status'' = Some (JStr ''approved'')"
      by (auto simp: jget_def dget_or_def eq_str_def split: option.splits)
    with Some key True show ?thesis
      by (simp add: t access client_access_def dget_or_def)
  next
    case False
    with Some key show ?thesis
      by (cases "dget r ''status''") (simp_all add: t access client_access_def dget_or_def)
  qed
qed

text \<open>Noting the visit changes neither the key nor the status of a record that has that key.\<close>

lemma client_access_visit:
  assumes "client_access s cid pk = access" and "access \<notin> {''unknown_endpoint'', ''endpoint_key_changed''}" and "pk \<noteq> JNull"
    and "register_client s cid pk False wall = (r, t)"
  shows "r = Inr () \<and> client_access (save (set_kind cid kind t)) cid pk = access"
proof -
  from assms(1,2) obtain rec where rec: "dget (clients s) cid = Some rec" "key_eq (jget rec ''public_key'') pk"
    by (auto simp: client_access_def split: option.splits if_splits)
  then have "jget rec ''public_key'' \<noteq> JNull"
    using assms(3) by (auto simp: key_eq_def)
  with rec assms show ?thesis
    by (auto simp: register_client_def client_access_def set_kind_def save_def dget_or_def Let_def split: if_splits)
qed

lemma admit_sound:
  assumes "admit w a allow cid key kind s = (Inr (Some c), t)" and "admin_inv (state s)"
  shows "c = cid \<and> auth_challenges t = auth_challenges s \<and> (\<exists>x. state t = save x) \<and>
     (client_access (state t) cid (JStr key) \<in> {''approved'', ''admin''} \<or>
      (client_access (state t) cid (JStr key) = ''pending'' \<and> allow \<and> wait_role a = ''control''))"
proof -
  define s1 where "s1 = (if wait_known a then s
      else s\<lparr>state := snd (enroll_client (state s) cid (JStr key) kind (wall_clock s))\<rparr>)"
  from assms(1) obtain access where access:
    "if wait_known a then access = client_access (state s) cid (JStr key)
     else fst (enroll_client (state s) cid (JStr key) kind (wall_clock s)) = Inr access"
    and ok: "access \<in> {''approved'', ''admin''} \<or> (access = ''pending'' \<and> allow \<and> wait_role a = ''control'')"
    and rest: "andthen (\<lambda>s. on_state (\<lambda>st. register_client st cid (JStr key) False (wall_clock s)) s) (\<lambda>_.
          andthen (modify (\<lambda>s. s\<lparr>state := save (set_kind cid kind (state s))\<rparr>)) (\<lambda>_.
          andthen (send_json w (authenticated_message cid)) (\<lambda>_. ret (Some cid)))) s1 = (Inr (Some c), t)"
    by (auto simp: s1_def admit_def andthen_def on_state_def refuse_not_Some split: if_splits sum.splits prod.splits)
  obtain acc' where acc': "client_access (state s1) cid (JStr key) = acc'"
    "acc' = access \<or> (access \<in> {''admin'', ''pending''} \<and> acc' = ''approved'')"
  proof (cases "wait_known a")
    case True
    with access that show thesis by (simp add: s1_def)
  next
    case False
    with access have "enroll_client (state s) cid (JStr key) kind (wall_clock s) = (Inr access, state s1)"
      by (cases "enroll_client (state s) cid (JStr key) kind (wall_clock s)") (simp add: s1_def)
    from enroll_client_access [OF this assms(2)] that show thesis by blast
  qed
  obtain r st where reg: "register_client (state s1) cid (JStr key) False (wall_clock s1) = (r, st)" by force
  have "acc' \<notin> {''unknown_endpoint'', ''endpoint_key_changed''}" using acc'(2) ok by auto
  from client_access_visit [OF acc'(1) this _ reg] have r: "r = Inr ()"
    and ca: "client_access (save (set_kind cid kind st)) cid (JStr key) = acc'" by simp_all
  from rest reg r have "send_json w (authenticated_message cid)
      (s1\<lparr>state := save (set_kind cid kind st)\<rparr>) = (Inr (), t)" and c: "c = cid"
    by (auto simp: andthen_def on_state_def split: sum.splits prod.splits)
  from send_json_frame [OF this(1)] have "state t = save (set_kind cid kind st)" "auth_challenges t = auth_challenges s1"
    by (cases t; simp)+
  moreover have "auth_challenges s1 = auth_challenges s" by (simp add: s1_def)
  ultimately have "state t = save (set_kind cid kind st)" "auth_challenges t = auth_challenges s" by simp_all
  with c ca acc'(2) ok show ?thesis by auto
qed

lemma client_access_pinned:
  "client_access s cid pk \<notin> {''unknown_endpoint'', ''endpoint_key_changed''} \<Longrightarrow> key_eq (pinned s cid) pk"
  by (auto simp: client_access_def pinned_def dget_or_def split: option.splits if_splits)

lemma auth_proof_admits:
  assumes "auth_proof env w a allow v s = (Inr (Some cid), t)"
  obtains answer c key challenge kind expires signature signed_text where
    "v = JObj answer" "dget (auth_challenges s) (wait_key a) = Some (c, key, challenge, kind, expires)"
    "jget answer ''signature'' = JStr signature" "ascii_encode (transcript a challenge) = Inr signed_text"
    "proof_ok env key signature expires (monotonic s) signed_text"
    "admit w a allow c key kind (s\<lparr>auth_challenges := dpop (wait_key a) (auth_challenges s)\<rparr>) = (Inr (Some cid), t)"
proof -
  from assms obtain answer where v: "v = JObj answer"
    by (auto simp: auth_proof_def andthen_def split: sum.splits)
  with assms that show thesis
    by (auto simp: auth_proof_def andthen_def refuse_not_Some split: option.splits bool.splits json.splits
        prod.splits sum.splits if_splits)
qed

lemma authentication_sound_facts:
  assumes "auth_proof env w a allow v s = (Inr (Some cid), t)" and "admin_inv (state s)"
  shows "\<exists>key challenge kind expires answer signature der sig signed_text.
     dget (auth_challenges s) (wait_key a) = Some (cid, key, challenge, kind, expires) \<and> monotonic s \<le> expires \<and>
     v = JObj answer \<and> jget answer ''signature'' = JStr signature \<and> unb64 signature = Inr sig \<and>
     unb64 key = Inr der \<and> ascii_encode (transcript a challenge) = Inr signed_text \<and>
     pss_verify (rsa_lib env) der sig signed_text \<and>
     dget (auth_challenges t) (wait_key a) = None \<and> pin_inv cid (JStr key) (state t) \<and>
     (client_access (state t) cid (JStr key) \<in> {''approved'', ''admin''} \<or>
      (client_access (state t) cid (JStr key) = ''pending'' \<and> allow \<and> wait_role a = ''control''))"
proof -
  from auth_proof_admits [OF assms(1)] obtain answer c key challenge kind expires signature signed_text where
    v: "v = JObj answer"
    and entry: "dget (auth_challenges s) (wait_key a) = Some (c, key, challenge, kind, expires)"
      "jget answer ''signature'' = JStr signature" "ascii_encode (transcript a challenge) = Inr signed_text"
    and ok: "proof_ok env key signature expires (monotonic s) signed_text"
    and adm: "admit w a allow c key kind (s\<lparr>auth_challenges := dpop (wait_key a) (auth_challenges s)\<rparr>)
                = (Inr (Some cid), t)" .
  from ok obtain der sig where "unb64 key = Inr der" "unb64 signature = Inr sig" "\<not> expires < monotonic s"
    "pss_verify (rsa_lib env) der sig signed_text"
    by (auto simp: proof_ok_def split: sum.splits option.splits public_key.splits)
  moreover from admit_sound [OF adm] assms(2) obtain x where x: "state t = save x"
    and c: "c = cid" "auth_challenges t = dpop (wait_key a) (auth_challenges s)"
      "client_access (state t) cid (JStr key) \<in> {''approved'', ''admin''} \<or>
       (client_access (state t) cid (JStr key) = ''pending'' \<and> allow \<and> wait_role a = ''control'')"
    by auto
  moreover have "pin_inv cid (JStr key) (state t)"
    using client_access_pinned [of "state t" cid "JStr key"] c(3) x
    by (auto simp: pinned_def save_def intro!: pin_inv_save [unfolded save_def])
  ultimately show ?thesis using entry v by (intro exI conjI) auto
qed

text \<open>C27: authentication is sound: a connection is authenticated as an endpoint only if the one-time
  challenge issued to it for that endpoint is still on record and not older than 60 seconds,
  and the answer carries a signature that verifies, under the key on that challenge, over the
  transcript with this very challenge; afterwards the challenge is gone, and the endpoint is
  on record with that key, in memory and on disk, and is approved, or pending where pending
  control is allowed.\<close>

theorem authentication_sound:
  assumes "auth_proof env w a allow v s = (Inr (Some cid), t)" and "admin_inv (state s)"
  shows "\<exists>key challenge kind expires answer signature der sig signed_text.
     dget (auth_challenges s) (wait_key a) = Some (cid, key, challenge, kind, expires) \<and> monotonic s \<le> expires \<and>
     v = JObj answer \<and> jget answer ''signature'' = JStr signature \<and> unb64 signature = Inr sig \<and>
     unb64 key = Inr der \<and> ascii_encode (transcript a challenge) = Inr signed_text \<and>
     pss_verify (rsa_lib env) der sig signed_text \<and>
     dget (auth_challenges t) (wait_key a) = None \<and> pin_inv cid (JStr key) (state t) \<and>
     (client_access (state t) cid (JStr key) \<in> {''approved'', ''admin''} \<or>
      (client_access (state t) cid (JStr key) = ''pending'' \<and> allow \<and> wait_role a = ''control''))"
  by (rule authentication_sound_facts [OF assms])

section \<open>Witnesses\<close>

definition demo_wait :: auth_wait where
  "demo_wait = \<lparr>wait_role = ''control'', wait_client = ''new'', wait_known = True, wait_key = ''k1'',
     wait_ticket = JStr [], wait_peer = JStr [], wait_length = JStr []\<rparr>"

definition demo_challenged :: relay where
  "demo_challenged = demo_relay\<lparr>auth_challenges :=
     [(''k1'', ''new'', public_key_text demo_rsa [9], ''ch'', JStr ''android'', 160)]\<rparr>"

lemma demo_admin_inv: "admin_inv (state demo_relay)"
  by (simp add: demo_relay_def admin_inv_def restart_def load_def RelayState_def)
     (simp add: admin_ok_def demo_endpoint_def)

lemma demo_transcript: "\<exists>bs. ascii_encode (transcript demo_wait ''ch'') = Inr bs"
proof -
  have "\<forall>c \<in> set (transcript demo_wait ''ch''). code c < 128"
    by (simp add: transcript_def demo_wait_def py_str_def) (simp add: code_def)
  then show ?thesis by (simp add: ascii_encode_def)
qed

definition demo_answer :: "bytes \<Rightarrow> json" where
  "demo_answer signed_text =
     JObj [(''type'', JStr ''auth_proof''), (''signature'', JStr (b64u ([9] @ signed_text)))]"

lemma demo_admitted:
  assumes "ascii_encode (transcript demo_wait ''ch'') = Inr bs"
  shows "\<exists>t. auth_proof demo_env 5 demo_wait True (demo_answer bs) demo_challenged = (Inr (Some ''new''), t)"
proof -
  have key: "unb64 (public_key_text demo_rsa [9]) = Inr [9]" by (simp add: public_key_text_def demo_rsa_def)
  have ok: "proof_ok demo_env (public_key_text demo_rsa [9]) (b64u ([9] @ bs)) 160 100 bs"
    by (simp add: proof_ok_def key demo_env_def) (simp add: demo_rsa_def)
  have entry: "dget (auth_challenges demo_challenged) (wait_key demo_wait)
      = Some (''new'', public_key_text demo_rsa [9], ''ch'', JStr ''android'', 160)"
    by (simp add: demo_challenged_def demo_wait_def)
  show ?thesis
    using assms ok entry
    by (simp add: auth_proof_def demo_answer_def demo_challenged_def demo_relay_def admit_def andthen_def on_state_def
        client_access_def demo_endpoint_def demo_key_def register_client_def send_json_def demo_wait_def RelayState_def Let_def
        dget_or_def)
qed

lemma authentication_sound_witness:
  "\<exists>bs t. auth_proof demo_env 5 demo_wait True (demo_answer bs) demo_challenged = (Inr (Some ''new''), t) \<and>
     dget (auth_challenges t) ''k1'' = None \<and>
     client_access (state t) ''new'' demo_key \<in> {''approved'', ''admin'', ''pending''}"
proof -
  obtain bs where "ascii_encode (transcript demo_wait ''ch'') = Inr bs" using demo_transcript by blast
  from demo_admitted [OF this] obtain t
    where t: "auth_proof demo_env 5 demo_wait True (demo_answer bs) demo_challenged = (Inr (Some ''new''), t)" by blast
  have "admin_inv (state demo_challenged)" by (simp add: demo_challenged_def demo_admin_inv)
  from authentication_sound [OF t this] have "dget (auth_challenges t) ''k1'' = None \<and>
     client_access (state t) ''new'' demo_key \<in> {''approved'', ''admin'', ''pending''}"
    by (auto simp: demo_wait_def demo_challenged_def demo_key_def)
  with t show ?thesis by blast
qed

end
