(* ===== verification/RelayHandlers.thy ===== *)
theory RelayHandlers
  imports RelayAuth
begin

text \<open>
  The connection handlers of \<open>server/appserve_server/service.py\<close>: \<open>forward\<close>, \<open>handle_relay\<close> and
  \<open>handle_control\<close>. Each handler is a coroutine that suspends only where it waits for a line,
  so it is a step function over the phases between two such points; the \<open>except\<close> and \<open>finally\<close>
  clauses close the step in which the coroutine ends. Sending completes within the step.
\<close>

section \<open>Forwarding\<close>

definition session_fields :: "string list" where
  "session_fields = [''version'', ''type'', ''session_id'', ''sender'', ''recipient'', ''sequence'', ''ciphertext'']"

definition reset_fields :: "string list" where
  "reset_fields = [''type'', ''sender'', ''recipient'', ''reason'']"

definition envelope_fields :: "string list" where
  "envelope_fields = [''version'', ''type'', ''sender'', ''recipient'', ''message_id'', ''algorithm'',
     ''encrypted_key'', ''nonce'', ''ciphertext'', ''signature'']"

definition session_shape :: "jdict \<Rightarrow> bool" where
  "session_shape e \<longleftrightarrow>
     eq_int (jget e ''version'') 1 \<and> is_str (jget e ''session_id'') \<and> truthy (jget e ''session_id'') \<and>
     (case jget e ''sequence'' of JInt n \<Rightarrow> 0 \<le> n \<and> n < 2 ^ 64 | _ \<Rightarrow> False) \<and>
     (case jget e ''ciphertext'' of JStr ct \<Rightarrow> 0 < length ct \<and> length ct \<le> 1024 * 1024 | _ \<Rightarrow> False)"

definition reset_shape :: "jdict \<Rightarrow> bool" where
  "reset_shape e \<longleftrightarrow>
     (case jget e ''reason'' of JStr reason \<Rightarrow> 1 \<le> length reason \<and> length reason \<le> 128 | _ \<Rightarrow> False)"

definition required_fields :: "jdict \<Rightarrow> string list" where
  "required_fields e =
     (if eq_str (jget e ''type'') ''session_envelope'' then session_fields
      else if eq_str (jget e ''type'') ''session_reset'' then reset_fields
      else envelope_fields)"

definition allowed_fields :: "jdict \<Rightarrow> string list" where
  "allowed_fields e =
     (if eq_str (jget e ''type'') ''session_envelope'' then session_fields
      else if eq_str (jget e ''type'') ''session_reset'' then reset_fields
      else ''sender_public_key'' # envelope_fields)"

definition valid_shape :: "jdict \<Rightarrow> bool" where
  "valid_shape e \<longleftrightarrow>
     (if eq_str (jget e ''type'') ''session_envelope'' then session_shape e
      else if eq_str (jget e ''type'') ''session_reset'' then reset_shape e
      else eq_str (jget e ''type'') ''envelope'')"

definition acceptable :: "client_id \<Rightarrow> jdict \<Rightarrow> bool" where
  "acceptable sender e \<longleftrightarrow>
     truthy (jget e ''recipient'') \<and> eq_str (jget e ''sender'') sender \<and> valid_shape e \<and>
     set (dkeys e) \<subseteq> set (allowed_fields e) \<and> set (required_fields e) \<subseteq> set (dkeys e)"

definition accepted_message :: "jdict \<Rightarrow> jdict" where
  "accepted_message e =
     (if eq_str (jget e ''type'') ''session_envelope'' then
        [(''ok'', JBool True), (''type'', JStr ''accepted''), (''session_id'', jget e ''session_id''),
         (''sequence'', jget e ''sequence'')]
      else if eq_str (jget e ''type'') ''session_reset'' then
        [(''ok'', JBool True), (''type'', JStr ''accepted''), (''message_type'', JStr ''session_reset'')]
      else [(''ok'', JBool True), (''type'', JStr ''accepted''), (''message_id'', jget e ''message_id'')])"

text \<open>\<open>self.sessions.get(recipient)\<close> for a value that came off the wire.\<close>

definition lookup_session :: "relay \<Rightarrow> json \<Rightarrow> (client_id \<times> conn) option result" where
  "lookup_session s v =
     (if \<not> hashable v then Inl TypeError
      else Inr (case v of JStr cid \<Rightarrow> dget (sessions s) cid | _ \<Rightarrow> None))"

definition tell :: "(client_id \<times> conn) option \<Rightarrow> jdict \<Rightarrow> (relay, unit) act" where
  "tell session v = (case session of Some (_, w) \<Rightarrow> send_json w v | None \<Rightarrow> ret ())"

definition drop_if_current :: "'k relay_env \<Rightarrow> client_id \<Rightarrow> conn \<Rightarrow> (relay, unit) act" where
  "drop_if_current env cid w =
     andthen (gets (\<lambda>s. \<exists>x. dget (sessions s) cid = Some (x, w))) (\<lambda>current.
     whenA current
       (andthen (modify (\<lambda>s. s\<lparr>sessions := dpop cid (sessions s), relay_liveness := dpop cid (relay_liveness s)\<rparr>))
          (\<lambda>_. broadcast_catalog env)))"

definition forward :: "'k relay_env \<Rightarrow> client_id \<Rightarrow> jdict \<Rightarrow> (relay, unit) act" where
  "forward env sender e =
     (if \<not> acceptable sender e
      then andthen (gets (\<lambda>s. dget (sessions s) sender)) (\<lambda>session. tell session (failed ''invalid_envelope''))
      else
        andthen (\<lambda>s. (lookup_session s (jget e ''recipient''), s)) (\<lambda>destination.
        andthen (gets (\<lambda>s. dget (sessions s) sender)) (\<lambda>source.
        case destination of
          Some (_, w) \<Rightarrow>
            andthen (tell source (accepted_message e)) (\<lambda>_.
            catch (send_json w e)
              (\<lambda>err. if is_os_error err
                 then andthen (drop_if_current env (py_str (jget e ''recipient'')) w)
                        (\<lambda>_. modify (close_conn w))
                 else throw err))
        | None \<Rightarrow> tell source (failed ''recipient_offline''))))"

section \<open>The relay connection\<close>

datatype relay_phase = RelayHello | RelayProof auth_wait | RelayLoop client_id | RelayDone

text \<open>A heartbeat nonce is a text of 1 to 128 characters.\<close>

definition nonce_ok :: "json \<Rightarrow> bool" where
  "nonce_ok v = (case v of JStr t \<Rightarrow> 1 \<le> length t \<and> length t \<le> 128 | _ \<Rightarrow> False)"

definition pong :: "json \<Rightarrow> jdict" where
  "pong nonce = [(''type'', JStr ''pong''), (''nonce'', nonce)]"

definition relay_ready :: "'k relay_env \<Rightarrow> conn \<Rightarrow> client_id \<Rightarrow> (relay, unit) act" where
  "relay_ready env w cid =
     andthen (modify (\<lambda>s. s\<lparr>sessions := dput cid (cid, w) (sessions s),
         relay_liveness := dput cid (monotonic s) (relay_liveness s),
         state := (state s)\<lparr>clients := dput cid (dput ''last_seen'' (JInt (trunc (monotonic s)))
           (endpoint_record s cid)) (clients (state s))\<rparr>\<rparr>)) (\<lambda>_.
     andthen (send_json w [(''ok'', JBool True), (''type'', JStr ''ready''), (''client_id'', JStr cid)]) (\<lambda>_.
     andthen (\<lambda>s. (Inr (fst (drain (state s) cid)), s\<lparr>state := snd (drain (state s) cid)\<rparr>)) (\<lambda>queued.
     andthen (each (send_json w) queued) (\<lambda>_.
     andthen (modify (\<lambda>s. s\<lparr>state := save (state s)\<rparr>)) (\<lambda>_.
     broadcast_catalog env)))))"

definition relay_message :: "'k relay_env \<Rightarrow> conn \<Rightarrow> client_id \<Rightarrow> bytes \<Rightarrow> (relay, unit) act" where
  "relay_message env w cid line =
     andthen (modify (\<lambda>s. s\<lparr>relay_liveness := dput cid (monotonic s) (relay_liveness s)\<rparr>)) (\<lambda>_.
     andthen (liftE (json_loads line)) (\<lambda>v.
     andthen (liftE (as_dict v)) (\<lambda>message.
     let type = jget message ''type''
     in if eq_str type ''ping'' then
          (if nonce_ok (jget message ''nonce'') then send_json w (pong (jget message ''nonce''))
           else send_json w (failed ''invalid_heartbeat''))
        else if eq_str type ''pong'' then ret ()
        else if \<not> hashable type then throw TypeError
        else if \<not> eq_str type ''envelope'' \<and> \<not> eq_str type ''session_envelope'' \<and> \<not> eq_str type ''session_reset''
        then send_json w (failed ''invalid_envelope'')
        else forward env cid message)))"

fun relay_body ::
  "'k relay_env \<Rightarrow> conn \<Rightarrow> string \<Rightarrow> string \<Rightarrow> relay_phase \<Rightarrow> input \<Rightarrow> (relay, relay_phase) act" where
  "relay_body env w challenge key RelayHello i =
     andthen (liftE (read_json i)) (\<lambda>hello.
     andthen (auth_hello env w hello {''relay''} challenge key) (\<lambda>a.
     ret (case a of None \<Rightarrow> RelayDone | Some a \<Rightarrow> RelayProof a)))"
| "relay_body env w challenge key (RelayProof a) i =
     andthen (liftE (read_json i)) (\<lambda>v.
     andthen (auth_proof env w a False v) (\<lambda>c.
     case c of None \<Rightarrow> ret RelayDone
     | Some cid \<Rightarrow> andthen (relay_ready env w cid) (\<lambda>_. ret (RelayLoop cid))))"
| "relay_body env w challenge key (RelayLoop cid) i =
     andthen (liftE (read_line i)) (\<lambda>line.
     if line = [] then ret RelayDone
     else andthen (relay_message env w cid line) (\<lambda>_. ret (RelayLoop cid)))"
| "relay_body env w challenge key RelayDone i = ret RelayDone"

text \<open>
  An exception in the step that authenticates may come before or after the client id is known; the
  session table tells the \<open>finally\<close> clause which.
\<close>

fun relay_client :: "relay_phase \<Rightarrow> client_id option" where
  "relay_client RelayHello = None"
| "relay_client (RelayProof a) = Some (wait_client a)"
| "relay_client (RelayLoop cid) = Some cid"
| "relay_client RelayDone = None"

definition relay_finally :: "'k relay_env \<Rightarrow> conn \<Rightarrow> client_id option \<Rightarrow> (relay, unit) act" where
  "relay_finally env w client =
     andthen (case client of Some cid \<Rightarrow> drop_if_current env cid w | None \<Rightarrow> ret ()) (\<lambda>_.
     modify (close_conn w))"

text \<open>One resumption of \<open>handle_relay\<close>: the phase it suspends in again, or \<open>RelayDone\<close>.\<close>

definition relay_step ::
  "'k relay_env \<Rightarrow> conn \<Rightarrow> string \<Rightarrow> string \<Rightarrow> relay_phase \<Rightarrow> input \<Rightarrow> relay \<Rightarrow> relay_phase \<times> relay" where
  "relay_step env w challenge key p i s =
     (case relay_body env w challenge key p i s of
        (Inr RelayDone, t) \<Rightarrow> (RelayDone, snd (relay_finally env w (relay_client p) t))
      | (Inr q, t) \<Rightarrow> (q, t)
      | (Inl _, t) \<Rightarrow> (RelayDone, snd (relay_finally env w (relay_client p) t)))"

section \<open>The control connection\<close>

datatype control_phase =
    AwaitAuth
  | AwaitHello client_id
  | AwaitProof auth_wait
  | AwaitJoin client_id
  | AwaitRegistration client_id
  | Subscribed client_id
  | ControlDone

text \<open>What one resumption draws from the random sources.\<close>

record randomness =
  r_challenge :: string
  r_key :: string
  r_content_key :: bytes
  r_seal_nonce :: bytes
  r_seed :: bytes

definition bootstrap_reply ::
  "'k relay_env \<Rightarrow> conn \<Rightarrow> randomness \<Rightarrow> jdict \<Rightarrow> (relay, control_phase) act" where
  "bootstrap_reply env w rnd auth =
     (case certificate_der env of
        None \<Rightarrow> andthen (send_json w (failed ''bootstrap_unavailable'')) (\<lambda>_. ret ControlDone)
      | Some certificate \<Rightarrow>
          andthen (liftE (bindE (jitem auth ''payload'') ascii_field)) (\<lambda>payload.
          andthen (liftE (decrypt_bootstrap_request (rsa_lib env) (aes_lib env)
                     (server_private_key (config env)) payload)) (\<lambda>request.
          let cid = request_client_id request;
              encoded_key = JStr (b64u (request_client_key request))
          in andthen (gets (\<lambda>s. client_access (state s) cid encoded_key)) (\<lambda>access.
             if \<not> (access = ''unknown_endpoint'' \<and> enrollment_enabled (config env))
                \<and> access \<notin> {''approved'', ''admin'', ''pending''}
             then andthen (send_json w (failed (''endpoint_'' @ access))) (\<lambda>_. ret ControlDone)
             else
               andthen (if access = ''unknown_endpoint'' \<and> enrollment_enabled (config env)
                        then andthen (\<lambda>s. on_state (\<lambda>st. enroll_client st cid encoded_key
                               (JStr (request_client_kind request)) (wall_clock s)) s) (\<lambda>_. ret ())
                        else ret ()) (\<lambda>_.
               andthen (liftE (build_bootstrap_response (rsa_lib env) (aes_lib env) (sha256_lib env)
                          (r_content_key rnd) (r_seal_nonce rnd) (r_seed rnd)
                          (request_client_key request) (request_nonce request) certificate)) (\<lambda>response.
               andthen (liftE (ascii_decode response)) (\<lambda>answer.
               andthen (send_json w [(''ok'', JBool True), (''type'', JStr ''bootstrap_response''),
                          (''payload'', JStr answer)]) (\<lambda>_. ret (AwaitHello cid)))))))))"

definition hello_step ::
  "'k relay_env \<Rightarrow> conn \<Rightarrow> randomness \<Rightarrow> json \<Rightarrow> (relay, control_phase) act" where
  "hello_step env w rnd hello =
     andthen (auth_hello env w hello {''control''} (r_challenge rnd) (r_key rnd)) (\<lambda>a.
     ret (case a of None \<Rightarrow> ControlDone | Some a \<Rightarrow> AwaitProof a))"

text \<open>\<open>{"type": "management_response", **response}\<close>: a type in the response wins.\<close>

definition answer_management :: "'k relay_env \<Rightarrow> conn \<Rightarrow> client_id \<Rightarrow> jdict \<Rightarrow> (relay, unit) act" where
  "answer_management env w cid message =
     andthen (management_request env cid (dget_or message ''request'' (JObj []))) (\<lambda>response.
     send_json w (dmerge [(''type'', JStr ''management_response'')] response))"

definition check_join :: "'k relay_env \<Rightarrow> client_id \<Rightarrow> int \<Rightarrow> jdict \<Rightarrow> unit result" where
  "check_join env cid wall request =
     (if truthy (jget request ''payload'') then
        bindE (ascii_field (jget request ''payload'')) (\<lambda>bytes.
        bindE (parse_bootstrap (rsa_lib env) (config env) wall bytes) (\<lambda>payload.
        bindE (jitem payload ''client_id'') (\<lambda>v.
        if \<not> eq_str v cid then Inl (ValueError ''join client mismatch'') else Inr ())))
      else if \<not> eq_str (jget request ''client_id'') cid then Inl (ValueError ''join client mismatch'')
      else Inr ())"

definition join_step :: "'k relay_env \<Rightarrow> conn \<Rightarrow> client_id \<Rightarrow> json \<Rightarrow> (relay, control_phase) act" where
  "join_step env w cid v =
     andthen (liftE (as_dict v)) (\<lambda>request.
     if eq_str (jget request ''type'') ''management_request''
     then andthen (answer_management env w cid request) (\<lambda>_. ret ControlDone)
     else if \<not> eq_str (jget request ''type'') ''join''
     then andthen (send_json w (failed ''invalid_bootstrap'')) (\<lambda>_. ret ControlDone)
     else
       andthen (\<lambda>s. (check_join env cid (wall_clock s) request, s)) (\<lambda>_.
       andthen (modify (\<lambda>s. s\<lparr>state := save (state s)\<rparr>)) (\<lambda>_.
       andthen (gets (\<lambda>s. length (dget_or (queues (state s)) cid []))) (\<lambda>queued.
       andthen (\<lambda>s. (catalog_items env s cid, s)) (\<lambda>items.
       andthen (send_json w [(''ok'', JBool True), (''type'', JStr ''joined''), (''client_id'', JStr cid),
                  (''queued'', JInt (int queued)), (''wisps'', JList (map JObj items))]) (\<lambda>_.
       ret (AwaitRegistration cid)))))))"

text \<open>Iterating over a decoded value.\<close>

definition iterate :: "json \<Rightarrow> json list result" where
  "iterate v = (case v of
       JList xs \<Rightarrow> Inr xs
     | JObj d \<Rightarrow> Inr (map (\<lambda>p. JStr (fst p)) d)
     | JStr s \<Rightarrow> Inr (map (\<lambda>c. JStr [c]) s)
     | _ \<Rightarrow> Inl TypeError)"

text \<open>The keys are sorted for the log, before and after the registration.\<close>

definition log_wisp_keys :: "(relay, unit) act" where
  "log_wisp_keys s = (bindE (py_sorted (\<lambda>w. fst w) (wisps (state s))) (\<lambda>_. Inr ()), s)"

definition register_item :: "client_id \<Rightarrow> json \<Rightarrow> (relay, unit) act" where
  "register_item cid v =
     andthen (liftE (as_dict v)) (\<lambda>item.
     let wisp_id = jget item ''id''
     in if \<not> truthy wisp_id then ret ()
        else if \<not> hashable wisp_id then throw TypeError
        else modify (\<lambda>s. s\<lparr>state := (state s)\<lparr>wisps := kput wisp_id
               [(''id'', wisp_id), (''name'', dget_or item ''name'' wisp_id),
                (''description'', dget_or item ''description'' (JStr [])), (''owner'', JStr cid)]
               (wisps (state s))\<rparr>\<rparr>))"

definition register_wisps :: "'k relay_env \<Rightarrow> conn \<Rightarrow> client_id \<Rightarrow> jdict \<Rightarrow> (relay, unit) act" where
  "register_wisps env w cid message =
     andthen (liftE (iterate (dget_or message ''items'' (JList [])))) (\<lambda>items.
     andthen log_wisp_keys (\<lambda>_.
     andthen (whenA (truthy (jget message ''client_public_key''))
       (\<lambda>s. on_state (\<lambda>st. register_client st cid (jget message ''client_public_key'') True (wall_clock s)) s)) (\<lambda>_.
     andthen (modify (\<lambda>s. s\<lparr>state := remove_wisps_for_owner (state s) cid\<rparr>)) (\<lambda>_.
     andthen (each (register_item cid) items) (\<lambda>_.
     andthen (modify (\<lambda>s. s\<lparr>state := save (state s)\<rparr>)) (\<lambda>_.
     andthen (\<lambda>s. (catalog_items env s cid, s)) (\<lambda>catalog.
     andthen log_wisp_keys (\<lambda>_.
     andthen (send_json w [(''ok'', JBool True), (''type'', JStr ''wisps_registered''),
                (''items'', JList (map JObj catalog))]) (\<lambda>_.
     andthen (modify (\<lambda>s. s\<lparr>control_sessions := dput cid (cid, w) (control_sessions s)\<rparr>)) (\<lambda>_.
     broadcast_catalog env))))))))))"

definition control_message :: "'k relay_env \<Rightarrow> conn \<Rightarrow> client_id \<Rightarrow> json \<Rightarrow> (relay, unit) act" where
  "control_message env w cid v =
     andthen (liftE (as_dict v)) (\<lambda>message.
     if eq_str (jget message ''type'') ''ping'' then
       whenA (nonce_ok (jget message ''nonce'')) (send_json w (pong (jget message ''nonce'')))
     else whenA (eq_str (jget message ''type'') ''management_request'') (answer_management env w cid message))"

fun control_body ::
  "'k relay_env \<Rightarrow> conn \<Rightarrow> randomness \<Rightarrow> control_phase \<Rightarrow> input \<Rightarrow> (relay, control_phase) act" where
  "control_body env w rnd AwaitAuth i =
     andthen (liftE (read_json i)) (\<lambda>v.
     andthen (liftE (as_dict v)) (\<lambda>auth.
     if eq_str (jget auth ''type'') ''bootstrap_request'' then bootstrap_reply env w rnd auth
     else hello_step env w rnd v))"
| "control_body env w rnd (AwaitHello _) i =
     andthen (liftE (read_json i)) (\<lambda>v. hello_step env w rnd v)"
| "control_body env w rnd (AwaitProof a) i =
     andthen (liftE (read_json i)) (\<lambda>v.
     andthen (auth_proof env w a True v) (\<lambda>c.
     ret (case c of None \<Rightarrow> ControlDone | Some cid \<Rightarrow> AwaitJoin cid)))"
| "control_body env w rnd (AwaitJoin cid) i =
     andthen (liftE (read_json i)) (\<lambda>v. join_step env w cid v)"
| "control_body env w rnd (AwaitRegistration cid) i =
     andthen (liftE (read_line i)) (\<lambda>line.
     if line = [] then ret ControlDone
     else andthen (liftE (bindE (json_loads line) as_dict)) (\<lambda>message.
       if eq_str (jget message ''type'') ''management_request''
       then andthen (answer_management env w cid message) (\<lambda>_. ret ControlDone)
       else if eq_str (jget message ''type'') ''wisps''
       then andthen (register_wisps env w cid message) (\<lambda>_. ret (Subscribed cid))
       else ret ControlDone))"
| "control_body env w rnd (Subscribed cid) i =
     andthen (liftE (read_line i)) (\<lambda>line.
     if line = [] then ret ControlDone
     else andthen (liftE (json_loads line)) (\<lambda>v.
          andthen (control_message env w cid v) (\<lambda>_. ret (Subscribed cid))))"
| "control_body env w rnd ControlDone i = ret ControlDone"

fun control_client :: "control_phase \<Rightarrow> client_id option" where
  "control_client AwaitAuth = None"
| "control_client (AwaitHello cid) = Some cid"
| "control_client (AwaitProof a) = Some (wait_client a)"
| "control_client (AwaitJoin cid) = Some cid"
| "control_client (AwaitRegistration cid) = Some cid"
| "control_client (Subscribed cid) = Some cid"
| "control_client ControlDone = None"

text \<open>The exceptions \<open>handle_control\<close> answers with \<open>invalid_bootstrap\<close>; others end the task.\<close>

fun control_catches :: "exn \<Rightarrow> bool" where
  "control_catches (KeyError _) = True"
| "control_catches TimeoutError = True"
| "control_catches e = is_value_error e"

definition control_finally :: "conn \<Rightarrow> client_id option \<Rightarrow> relay \<Rightarrow> relay" where
  "control_finally w client s =
     close_conn w
       (case client of
          Some cid \<Rightarrow> if cid \<noteq> [] \<and> (\<exists>x. dget (control_sessions s) cid = Some (x, w))
                      then s\<lparr>control_sessions := dpop cid (control_sessions s)\<rparr> else s
        | None \<Rightarrow> s)"

definition control_step ::
  "'k relay_env \<Rightarrow> conn \<Rightarrow> randomness \<Rightarrow> control_phase \<Rightarrow> input \<Rightarrow> relay \<Rightarrow> control_phase \<times> relay" where
  "control_step env w rnd p i s =
     (case catch (control_body env w rnd p i)
             (\<lambda>e. if control_catches e
                  then andthen (send_json w (failed ''invalid_bootstrap'')) (\<lambda>_. ret ControlDone)
                  else throw e) s of
        (Inr ControlDone, t) \<Rightarrow> (ControlDone, control_finally w (control_client p) t)
      | (Inr q, t) \<Rightarrow> (q, t)
      | (Inl _, t) \<Rightarrow> (ControlDone, control_finally w (control_client p) t))"

end
