(* ===== verification/RelaySystem.thy ===== *)
theory RelaySystem
  imports RelayHandlers
begin

text \<open>
  The relay as a whole: any number of control and relay connections, each at its suspension
  point, interleaved in any order, with time passing and connections breaking; the invariants
  that hold however they interleave, and the exact outcome of forwarding.
\<close>

section \<open>Forwarding\<close>

lemma send_json_ok:
  "w \<notin> set (lost_conns s) \<Longrightarrow> w \<notin> set (closed_conns s) \<Longrightarrow>
     send_json w v s = (Inr (), s\<lparr>outbox := outbox s @ [(w, v)]\<rparr>)"
  by (simp add: send_json_def)

definition writable :: "relay \<Rightarrow> conn \<Rightarrow> bool" where
  "writable s w \<longleftrightarrow> w \<notin> set (lost_conns s) \<and> w \<notin> set (closed_conns s)"

text \<open>C32: forwarding does exactly this, and nothing else, between connected endpoints: a message that is
  not acceptable (fields missing or beyond the allowed ones, a sender other than the endpoint
  authenticated on the connection, values out of shape) is answered with \<open>invalid_envelope\<close>; one
  for an endpoint that is not connected with \<open>recipient_offline\<close>; any other is acknowledged to
  the sender first and then delivered, unmodified, to the recipient's connection alone.\<close>

theorem forward_exact:
  assumes "dget (sessions s) sender = Some (x, src)" and "writable s src"
    and "jget e ''recipient'' = JStr recipient"
    and "\<forall>y dst. dget (sessions s) recipient = Some (y, dst) \<longrightarrow> writable s dst"
  shows "forward env sender e s = (Inr (), s\<lparr>outbox := outbox s @
     (if \<not> acceptable sender e then [(src, failed ''invalid_envelope'')]
      else case dget (sessions s) recipient of
             None \<Rightarrow> [(src, failed ''recipient_offline'')]
           | Some (y, dst) \<Rightarrow> [(src, accepted_message e), (dst, e)])\<rparr>)"
  using assms
  by (auto simp: forward_def tell_def lookup_session_def andthen_def catch_def send_json_ok writable_def
      split: option.split prod.split)

text \<open>What is acceptable is bound to the connection: an accepted message names the authenticated
  endpoint as its sender and carries every field of its kind and no others, so nothing can
  be smuggled past the recipient's checks in an extra field.\<close>

theorem acceptable_fields:
  assumes "acceptable sender e" and "wf_dict e"
  shows "jget e ''sender'' = JStr sender \<and>
    (\<exists>kind \<in> {''session_envelope'', ''session_reset'', ''envelope''}. jget e ''type'' = JStr kind \<and>
       set (dkeys e) - {''sender_public_key''} = set (required_fields e) \<and>
       (''sender_public_key'' \<in> set (dkeys e) \<longrightarrow> kind = ''envelope'') \<and> length e \<le> 11)"
proof -
  have kinds: "eq_str (jget e ''type'') ''session_envelope'' \<or> eq_str (jget e ''type'') ''session_reset''
      \<or> eq_str (jget e ''type'') ''envelope''"
    using assms(1) by (auto simp: acceptable_def valid_shape_def split: if_splits)
  have sub: "set (dkeys e) \<subseteq> set (allowed_fields e)" "set (required_fields e) \<subseteq> set (dkeys e)"
    using assms(1) by (simp_all add: acceptable_def)
  have len: "length (allowed_fields e) \<le> 11"
    by (simp add: allowed_fields_def session_fields_def reset_fields_def envelope_fields_def)
  have "length e = card (set (dkeys e))"
    using assms(2) distinct_card [of "dkeys e"] by (simp add: wf_dict_def del: set_map)
  also have "\<dots> \<le> card (set (allowed_fields e))" by (rule card_mono [OF _ sub(1)]) simp
  also have "\<dots> \<le> 11" using card_length [of "allowed_fields e"] len by linarith
  finally have "length e \<le> 11" .
  moreover have "jget e ''sender'' = JStr sender" using assms(1) by (simp add: acceptable_def eq_str_def)
  moreover have "''sender_public_key'' \<notin> set (required_fields e)"
    by (simp add: required_fields_def session_fields_def reset_fields_def envelope_fields_def)
  moreover have "set (allowed_fields e) = set (required_fields e) \<or>
      (eq_str (jget e ''type'') ''envelope'' \<and> set (allowed_fields e) = insert ''sender_public_key'' (set (required_fields e)))"
    using kinds by (auto simp: allowed_fields_def required_fields_def eq_str_def)
  ultimately show ?thesis
    using sub kinds by (auto simp: eq_str_def)
qed

text \<open>
  Broadcasting only appends catalog updates and may forget subscribers.
\<close>

definition only_catalogs :: "relay \<Rightarrow> relay \<Rightarrow> bool" where
  "only_catalogs s t \<longleftrightarrow>
     t = s\<lparr>outbox := outbox t, control_sessions := control_sessions t\<rparr> \<and>
     (\<exists>more. outbox t = outbox s @ more \<and> (\<forall>m \<in> set more. jget (snd m) ''type'' = JStr ''catalog_update''))"

interpretation catalogs: effect_relation only_catalogs
proof
  show "only_catalogs s s" for s by (simp add: only_catalogs_def)
  fix s t u assume "only_catalogs s t" "only_catalogs t u"
  then obtain m1 m2 where st: "t = s\<lparr>outbox := outbox t, control_sessions := control_sessions t\<rparr>" "outbox t = outbox s @ m1"
      "\<forall>m \<in> set m1. jget (snd m) ''type'' = JStr ''catalog_update''"
    and tu: "u = t\<lparr>outbox := outbox u, control_sessions := control_sessions u\<rparr>" "outbox u = outbox t @ m2"
      "\<forall>m \<in> set m2. jget (snd m) ''type'' = JStr ''catalog_update''"
    unfolding only_catalogs_def by blast
  have "u = s\<lparr>outbox := outbox u, control_sessions := control_sessions u\<rparr>"
    by (subst tu(1), subst st(1)) simp
  moreover have "outbox u = outbox s @ (m1 @ m2)" using st tu by simp
  ultimately show "only_catalogs s u"
    using st(3) tu(3) unfolding only_catalogs_def by (metis Un_iff set_append)
qed

lemma send_catalog: "stays only_catalogs (send_json w [(''ok'', a), (''type'', JStr ''catalog_update''), (''items'', b)])"
  by (auto simp: stays_def send_json_def only_catalogs_def)

lemma push_catalogs_only: "stays only_catalogs (push_catalogs env cs)"
  by (induction cs) (auto intro!: catalogs.stays_rules send_catalog)

lemma broadcast_catalog_only: "stays only_catalogs (broadcast_catalog env)"
  unfolding broadcast_catalog_def
  by (auto intro!: catalogs.stays_rules catalogs.stays_modify push_catalogs_only simp: only_catalogs_def)

text \<open>C39: a recipient whose connection broke is noticed when a message is forwarded to it: the sender
  still gets the relay's acknowledgement, nothing is delivered, and, when that connection is the
  recipient's current one, its session and presence are gone and the connection is closed.\<close>

theorem forward_to_lost_connection:
  assumes "acceptable sender e" and "jget e ''recipient'' = JStr recipient"
    and "dget (sessions s) sender = Some (x, src)" and "writable s src"
    and "dget (sessions s) recipient = Some (y, dst)" and "dst \<in> set (lost_conns s)"
    and "forward env sender e s = (Inr (), t)"
  shows "dget (sessions t) recipient = None \<and> dget (relay_liveness t) recipient = None \<and>
         dst \<in> set (closed_conns t) \<and>
         (\<exists>more. outbox t = outbox s @ (src, accepted_message e) # more \<and> (dst, e) \<notin> set more)"
proof -
  let ?s1 = "s\<lparr>outbox := outbox s @ [(src, accepted_message e)]\<rparr>"
  let ?s2 = "?s1\<lparr>sessions := dpop recipient (sessions s), relay_liveness := dpop recipient (relay_liveness s)\<rparr>"
  from assms obtain r u where b: "broadcast_catalog env ?s2 = (r, u)" and t: "t = close_conn dst u"
    by (auto simp: forward_def tell_def lookup_session_def andthen_def catch_def send_json_def writable_def
        drop_if_current_def split: if_splits prod.splits sum.splits)
  from staysD [OF broadcast_catalog_only b] obtain more where
    u: "u = ?s2\<lparr>outbox := outbox u, control_sessions := control_sessions u\<rparr>" and
    more: "outbox u = outbox ?s1 @ more" "\<forall>m \<in> set more. jget (snd m) ''type'' = JStr ''catalog_update''"
    by (auto simp: only_catalogs_def)
  have "jget e ''type'' \<noteq> JStr ''catalog_update''"
    using assms(1) by (auto simp: acceptable_def valid_shape_def eq_str_def split: if_splits)
  with more(2) have "(dst, e) \<notin> set more" by auto
  moreover have "sessions u = dpop recipient (sessions s)" "relay_liveness u = dpop recipient (relay_liveness s)"
    by (subst u, simp)+
  ultimately show ?thesis
    using more(1) by (auto simp: t close_conn_def)
qed

section \<open>Durable invariants\<close>

text \<open>
  The contract between the durable state and the runtime: a predicate that every operation of
  \<open>core.py\<close> keeps is kept by everything the connection handlers do.
\<close>

locale durable_invariant =
  fixes P :: "relay_state \<Rightarrow> bool"
  assumes register: "P s \<Longrightarrow> P (snd (register_client s cid pk replace wall))"
    and enroll: "P s \<Longrightarrow> P (snd (enroll_client s cid pk kind wall))"
    and claim: "P s \<Longrightarrow> P (snd (claim_admin s cid))"
    and status: "P s \<Longrightarrow> P (snd (set_client_status s cid st))"
    and saved: "P s \<Longrightarrow> P (save s)"
    and visit: "P s \<Longrightarrow> k \<in> {''last_seen'', ''client_kind''} \<Longrightarrow>
        P (s\<lparr>clients := dput cid (dput k v (dget_or (clients s) cid [])) (clients s)\<rparr>)"
    and traffic: "P s \<Longrightarrow> P (s\<lparr>queues := qs\<rparr>)" "P s \<Longrightarrow> P (s\<lparr>wisps := ws\<rparr>)"

abbreviation durably :: "(relay_state \<Rightarrow> bool) \<Rightarrow> (relay, 'a) act \<Rightarrow> bool" where
  "durably P m \<equiv> stays (keeping (\<lambda>s. P (state s))) m"

lemma durably_frame: "(\<And>s. state (snd (m s)) = state s) \<Longrightarrow> durably P m"
  by (simp add: stays_def keeping_def)

lemma durably_modify: "(\<And>s. P (state s) \<Longrightarrow> P (state (f s))) \<Longrightarrow> durably P (modify f)"
  by (simp add: stays_def keeping_def)

lemma durably_on_state:
  "(\<And>x s. P s \<Longrightarrow> P (snd (f x s))) \<Longrightarrow> durably P (\<lambda>s. on_state (f (g s)) s)"
  by (simp add: stays_def keeping_def on_state_def)

lemma durably_json:
  "(\<And>t. durably P (f t)) \<Longrightarrow> durably P m \<Longrightarrow> durably P (case v of JStr t \<Rightarrow> f t | _ \<Rightarrow> m)"
  by (cases v) simp_all

lemma send_json_state [simp]: "state (snd (send_json w v s)) = state s"
  by (simp add: send_json_def)

lemma close_conn_state [simp]: "state (close_conn w s) = state s"
  by (simp add: close_conn_def)

lemma refuse_state [simp]: "state (snd (refuse w e s)) = state s"
  by (simp add: refuse_def andthen_def send_json_def)

lemma broadcast_state [simp]: "state (snd (broadcast_catalog env s)) = state s"
proof -
  obtain r t where "broadcast_catalog env s = (r, t)" by force
  with staysD [OF broadcast_catalog_only this] show ?thesis
    unfolding only_catalogs_def by (metis (no_types) relay.select_convs(1) relay.surjective relay.update_convs(4,9) snd_conv)
qed

lemma auth_hello_state [simp]: "state (snd (auth_hello env w hello roles challenge key s)) = state s"
  by (simp add: auth_hello_def andthen_def Let_def send_json_def split: sum.split json.split prod.split option.split)

lemma drop_if_current_state [simp]: "state (snd (drop_if_current env cid w s)) = state s"
  by (simp add: drop_if_current_def andthen_def whenA_def)

lemma tell_state [simp]: "state (snd (tell session v s)) = state s"
  by (simp add: tell_def split: option.split prod.split)

lemma durably_prims:
  "durably P (send_json w v)"
  "durably P (refuse w e)"
  "durably P (broadcast_catalog env)"
  "durably P (auth_hello env w hello roles challenge key)"
  "durably P (drop_if_current env cid w)"
  "durably P (tell session v)"
  by (simp_all add: durably_frame)

lemmas durably_rules = keeping.stays_rules durably_prims durably_json

lemma forward_durably: "durably P (forward env sender e)"
  unfolding forward_def by (intro durably_rules durably_modify) simp

context durable_invariant
begin

lemma admit_durably: "durably P (admit w a allow cid key kind)"
  unfolding admit_def
  by (intro durably_rules durably_on_state durably_modify) (auto intro: saved register enroll visit simp: set_kind_def)

lemma auth_proof_durably: "durably P (auth_proof env w a allow v)"
  unfolding auth_proof_def
  by (intro durably_rules durably_modify) (auto intro!: durably_rules admit_durably split: bool.split)

lemma relay_ready_durably: "durably P (relay_ready env w cid)"
  unfolding relay_ready_def
  by (intro durably_rules durably_modify keeping.stays_state)
     (auto intro: saved visit traffic simp: endpoint_record_def drain_def keeping_def)

lemma relay_message_durably: "durably P (relay_message env w cid line)"
  unfolding relay_message_def Let_def
  by (intro durably_rules durably_modify forward_durably) simp

lemma relay_body_durably: "durably P (relay_body env w challenge key p i)"
  by (cases p)
     (auto intro!: durably_rules auth_proof_durably relay_ready_durably relay_message_durably split: option.split)

lemma relay_step_durably:
  assumes "P (state s)"
  shows "P (state (snd (relay_step env w challenge key p i s)))"
proof -
  obtain r t where body: "relay_body env w challenge key p i s = (r, t)" by force
  have t: "P (state t)"
    using staysD [OF relay_body_durably body] assms by (simp add: keeping_def)
  have "durably P (relay_finally env w c)" for c
    unfolding relay_finally_def by (intro durably_rules durably_modify) simp
  with t have "P (state (snd (relay_finally env w c t)))" for c
    by (simp add: stays_def keeping_def)
  with t body show ?thesis by (simp add: relay_step_def split: sum.split relay_phase.split)
qed

lemma change_endpoint_durably:
  assumes "P (state s)"
  shows "P (state (snd (change_endpoint cid action request s)))"
proof (cases "jget request ''client_id''")
  case (JStr target)
  obtain r st where st: "set_client_status (state s) target (status_of_action action) = (r, st)" by force
  have inv: "P st" using status [OF assms, of target "status_of_action action"] st by simp
  then have "P (remove_wisps_for_owner st target)" by (simp add: remove_wisps_for_owner_def traffic)
  with inv assms JStr st show ?thesis by (cases r) (simp_all add: change_endpoint_def Let_def)
qed (use assms in \<open>simp_all add: change_endpoint_def\<close>)

lemma admin_action_durably:
  assumes "P (state s)"
  shows "P (state (snd (admin_action env cid action request s)))"
proof -
  have "P (state (snd (register_wisp cid request s)))"
    by (cases "jget request ''id''") (simp_all add: register_wisp_def Let_def saved traffic assms)
  moreover have "P (state (snd (remove_wisp request s)))"
    by (simp add: remove_wisp_def Let_def saved traffic assms)
  ultimately show ?thesis
    using assms by (simp add: admin_action_def change_endpoint_durably)
qed

lemma management_durably: "durably P (management_request env cid req)"
  unfolding stays_def keeping_def
  by (simp add: management_request_def Let_def claim admin_action_durably split: sum.split option.split)

lemma answer_management_durably: "durably P (answer_management env w cid message)"
  unfolding answer_management_def by (intro durably_rules management_durably)

lemma bootstrap_reply_durably: "durably P (bootstrap_reply env w rnd auth)"
  unfolding bootstrap_reply_def Let_def
  by (intro durably_rules durably_on_state) (auto intro: enroll)

lemma hello_step_durably: "durably P (hello_step env w rnd hello)"
  unfolding hello_step_def by (intro durably_rules)

lemma join_step_durably: "durably P (join_step env w cid v)"
  unfolding join_step_def
  by (intro durably_rules answer_management_durably durably_modify) (simp add: saved)

lemma register_item_durably: "durably P (register_item cid v)"
  unfolding register_item_def Let_def
  by (intro durably_rules durably_modify) (simp add: traffic)

lemma register_wisps_durably: "durably P (register_wisps env w cid message)"
  unfolding register_wisps_def log_wisp_keys_def
  by (intro durably_rules durably_on_state durably_modify register_item_durably)
     (auto intro: register saved traffic simp: remove_wisps_for_owner_def)

lemma control_message_durably: "durably P (control_message env w cid v)"
  unfolding control_message_def by (intro durably_rules answer_management_durably)

lemma control_body_durably: "durably P (control_body env w rnd p i)"
  by (cases p)
     (auto intro!: durably_rules bootstrap_reply_durably hello_step_durably auth_proof_durably join_step_durably
       answer_management_durably register_wisps_durably control_message_durably)

lemma control_step_durably:
  assumes "P (state s)"
  shows "P (state (snd (control_step env w rnd p i s)))"
proof -
  let ?m = "catch (control_body env w rnd p i)
             (\<lambda>e. if control_catches e
                  then andthen (send_json w (failed ''invalid_bootstrap'')) (\<lambda>_. ret ControlDone)
                  else throw e)"
  obtain r t where body: "?m s = (r, t)" by force
  have "durably P ?m" by (intro durably_rules control_body_durably)
  from staysD [OF this body] assms have t: "P (state t)" by (simp add: keeping_def)
  have "state (control_finally w c t) = state t" for c
    by (simp add: control_finally_def split: option.split)
  with t body show ?thesis by (simp add: control_step_def split: sum.split control_phase.split)
qed

end

section \<open>The system\<close>

record system =
  runtime :: relay
  controls :: "(conn, control_phase) dict"
  relays :: "(conn, relay_phase) dict"

text \<open>
  What can happen: a connection is accepted on either port, a suspended handler resumes with a
  line or an exception and with fresh random values, the peer's side breaks, time passes, the
  host changes.
\<close>

datatype event =
    AcceptControl conn
  | AcceptRelay conn
  | Resume conn input randomness
  | Break conn
  | Elapse time int
  | HostChange host

definition known_conn :: "system \<Rightarrow> conn \<Rightarrow> bool" where
  "known_conn s w \<longleftrightarrow> dget (controls s) w \<noteq> None \<or> dget (relays s) w \<noteq> None"

text \<open>
  A connection is a new object when it is accepted, the clock does not run backwards, and the
  random key of a challenge is not one in use; other events are no events.
\<close>

definition resume :: "'k relay_env \<Rightarrow> system \<Rightarrow> conn \<Rightarrow> input \<Rightarrow> randomness \<Rightarrow> system" where
  "resume env s w i rnd =
     (case dget (controls s) w of
        Some p \<Rightarrow>
          let (q, t) = control_step env w rnd p i (runtime s)
          in s\<lparr>runtime := t, controls := dput w q (controls s)\<rparr>
      | None \<Rightarrow>
         (case dget (relays s) w of
            Some p \<Rightarrow>
              let (q, t) = relay_step env w (r_challenge rnd) (r_key rnd) p i (runtime s)
              in s\<lparr>runtime := t, relays := dput w q (relays s)\<rparr>
          | None \<Rightarrow> s))"

fun system_step :: "'k relay_env \<Rightarrow> system \<Rightarrow> event \<Rightarrow> system" where
  "system_step env s (AcceptControl w) =
     (if known_conn s w then s else s\<lparr>controls := dput w AwaitAuth (controls s)\<rparr>)"
| "system_step env s (AcceptRelay w) =
     (if known_conn s w then s else s\<lparr>relays := dput w RelayHello (relays s)\<rparr>)"
| "system_step env s (Resume w i rnd) =
     (if dget (auth_challenges (runtime s)) (r_key rnd) \<noteq> None then s else resume env s w i rnd)"
| "system_step env s (Break w) =
     s\<lparr>runtime := (runtime s)\<lparr>lost_conns := w # lost_conns (runtime s)\<rparr>\<rparr>"
| "system_step env s (Elapse d wall) =
     s\<lparr>runtime := (runtime s)\<lparr>monotonic := monotonic (runtime s) + max 0 d, wall_clock := wall\<rparr>\<rparr>"
| "system_step env s (HostChange h) = s\<lparr>runtime := (runtime s)\<lparr>host := h\<rparr>\<rparr>"

definition system_run :: "'k relay_env \<Rightarrow> system \<Rightarrow> event list \<Rightarrow> system" where
  "system_run env = foldl (system_step env)"

lemma system_run_simps [simp]:
  "system_run env s [] = s"
  "system_run env s (e # es) = system_run env (system_step env s e) es"
  by (simp_all add: system_run_def)

text \<open>A relay that has just been started on a loaded state.\<close>

definition start :: "relay_state \<Rightarrow> host \<Rightarrow> system" where
  "start st h = \<lparr>runtime = \<lparr>state = st, sessions = [], relay_liveness = [], control_sessions = [],
       auth_challenges = [], monotonic = 0, wall_clock = 0, host = h, outbox = [], closed_conns = [],
       lost_conns = [], launched = []\<rparr>,
     controls = [], relays = []\<rparr>"

section \<open>The durable invariants of the running system\<close>

context durable_invariant
begin

lemma system_step_durably: "P (state (runtime s)) \<Longrightarrow> P (state (runtime (system_step env s e)))"
  by (cases e)
     (auto simp: resume_def split: option.split prod.split
       dest: relay_step_durably [where s = "runtime s"] control_step_durably [where s = "runtime s"],
      (metis snd_conv control_step_durably relay_step_durably)+)

lemma system_run_durably: "P (state (runtime s)) \<Longrightarrow> P (state (runtime (system_run env s es)))"
  by (induction es arbitrary: s) (simp_all add: system_step_durably)

end

lemma admin_inv_visit:
  assumes "admin_inv s" and "k \<in> {''last_seen'', ''client_kind''}"
  shows "admin_inv (s\<lparr>clients := dput cid (dput k v (dget_or (clients s) cid [])) (clients s)\<rparr>)"
proof (rule admin_inv_frame [OF assms(1)])
  show "admin_ok (clients (s\<lparr>clients := dput cid (dput k v (dget_or (clients s) cid [])) (clients s)\<rparr>))"
    by (simp, rule admin_ok_put_same [OF admin_inv_ok [OF assms(1)] refl]) (use assms(2) in auto)
qed simp_all

lemma admin_inv_traffic:
  "admin_inv s \<Longrightarrow> admin_inv (s\<lparr>queues := qs\<rparr>)"
  "admin_inv s \<Longrightarrow> admin_inv (s\<lparr>wisps := ws\<rparr>)"
  by (simp_all add: admin_inv_def restart_def)

interpretation admin: durable_invariant admin_inv
  by unfold_locales
     (auto intro: register_client_admin enroll_client_admin claim_admin_admin set_client_status_admin
       admin_inv_save admin_inv_ok admin_inv_visit admin_inv_traffic)

text \<open>Whatever any number of connections send in whatever interleaving, with connections breaking and
  time passing in between, a relay started on an empty state never has more than one
  administrator, and the administrator is an approved endpoint; the same holds of the state a
  restart at any moment would load.\<close>

theorem one_administrator_always:
  "admin_inv (state (runtime (system_run env (start (RelayState None n) h) es)))"
  by (rule admin.system_run_durably) (simp add: start_def admin_inv_init)

definition pinned_to :: "client_id \<Rightarrow> json \<Rightarrow> relay_state \<Rightarrow> bool" where
  "pinned_to cid pk s \<longleftrightarrow> pk \<noteq> JNull \<and> pin_inv cid pk s"

lemma pinned_to_step: "pinned_to cid pk s \<Longrightarrow> pinned_to cid pk (state_step s e)"
  by (simp add: pinned_to_def state_step_pin)

lemma pinned_to_visit:
  assumes "pinned_to cid pk s" and "k \<in> {''last_seen'', ''client_kind''}"
  shows "pinned_to cid pk (s\<lparr>clients := dput c (dput k v (dget_or (clients s) c [])) (clients s)\<rparr>)"
proof -
  have "pinned (s\<lparr>clients := dput c (dput k v (dget_or (clients s) c [])) (clients s)\<rparr>) cid = pinned s cid"
    using assms(2) by (auto simp: pinned_def)
  with assms(1) show ?thesis by (simp add: pinned_to_def pin_inv_def restart_def)
qed

lemma pinned_to_traffic:
  "pinned_to cid pk s \<Longrightarrow> pinned_to cid pk (s\<lparr>queues := qs\<rparr>)"
  "pinned_to cid pk s \<Longrightarrow> pinned_to cid pk (s\<lparr>wisps := ws\<rparr>)"
  by (simp_all add: pinned_to_def pin_inv_def restart_def pinned_def)

interpretation pins: durable_invariant "pinned_to cid pk" for cid pk
proof
  fix s assume p: "pinned_to cid pk s"
  show "pinned_to cid pk (snd (register_client s c k replace wall))" for c k replace wall
    using pinned_to_step [OF p, of "RegisterClient c k replace wall"] by simp
  show "pinned_to cid pk (snd (enroll_client s c k kind wall))" for c k kind wall
    using pinned_to_step [OF p, of "EnrollClient c k kind wall"] by simp
  show "pinned_to cid pk (snd (claim_admin s c))" for c
    using pinned_to_step [OF p, of "ClaimAdmin c"] by simp
  show "pinned_to cid pk (snd (set_client_status s c st))" for c st
    using pinned_to_step [OF p, of "SetClientStatus c st"] by simp
  show "pinned_to cid pk (save s)"
    using pinned_to_step [OF p, of Save] by simp
qed (simp_all add: pinned_to_visit pinned_to_traffic)

text \<open>C29: the key an endpoint has authenticated with is its key for good: from that moment, whatever any
  connections send in whatever interleaving, the relay never has another key on record for it,
  and access with any other key is refused as a changed key.\<close>

theorem authenticated_key_is_final:
  assumes "auth_proof env w a allow v s = (Inr (Some cid), runtime sys)" and "admin_inv (state s)"
    and "dget (auth_challenges s) (wait_key a) = Some (cid', key, challenge, kind, expires)"
  shows "key_eq (pinned (state (runtime (system_run env sys es))) cid) (JStr key) \<and>
         (other \<noteq> JStr key \<longrightarrow>
            client_access (state (runtime (system_run env sys es))) cid other = ''endpoint_key_changed'')"
proof -
  have "pin_inv cid (JStr key) (state (runtime sys))"
    using authentication_sound_facts [OF assms(1,2)] assms(3) by auto
  then have "pinned_to cid (JStr key) (state (runtime sys))" by (simp add: pinned_to_def)
  from pins.system_run_durably [OF this, of env es]
  have p: "key_eq (pinned (state (runtime (system_run env sys es))) cid) (JStr key)"
    by (simp add: pinned_to_def pin_inv_def)
  then obtain r where "dget (clients (state (runtime (system_run env sys es)))) cid = Some r"
    "jget r ''public_key'' = JStr key"
    by (auto simp: pinned_def dget_or_def split: option.splits)
  with p show ?thesis by (auto simp: client_access_def)
qed

section \<open>Sessions belong to their connections\<close>

text \<open>Most of the code can only forget sessions, and leaves the issued challenges alone.\<close>

definition forgets :: "relay \<Rightarrow> relay \<Rightarrow> bool" where
  "forgets s t \<longleftrightarrow> (\<forall>cid v. dget (sessions t) cid = Some v \<longrightarrow> dget (sessions s) cid = Some v)"

definition same_challenges :: "relay \<Rightarrow> relay \<Rightarrow> bool" where
  "same_challenges s t \<longleftrightarrow> auth_challenges t = auth_challenges s"

interpretation forgets: effect_relation forgets
  by unfold_locales (auto simp: forgets_def)

interpretation challenges: effect_relation same_challenges
  by unfold_locales (auto simp: same_challenges_def)

lemma forgets_frame: "(\<And>s. sessions (snd (m s)) = sessions s) \<Longrightarrow> stays forgets m"
  by (simp add: stays_def forgets_def)

lemma challenges_frame: "(\<And>s. auth_challenges (snd (m s)) = auth_challenges s) \<Longrightarrow> stays same_challenges m"
  by (simp add: stays_def same_challenges_def)

lemma on_state_frame [simp]:
  "sessions (snd (on_state f s)) = sessions s"
  "auth_challenges (snd (on_state f s)) = auth_challenges s"
  by (simp_all add: on_state_def)

lemma send_json_fields [simp]:
  "sessions (snd (send_json w v s)) = sessions s"
  "auth_challenges (snd (send_json w v s)) = auth_challenges s"
  by (simp_all add: send_json_def)

lemma refuse_fields [simp]:
  "sessions (snd (refuse w e s)) = sessions s"
  "auth_challenges (snd (refuse w e s)) = auth_challenges s"
  by (simp_all add: refuse_def andthen_def send_json_def)

lemma broadcast_fields [simp]:
  "sessions (snd (broadcast_catalog env s)) = sessions s"
  "auth_challenges (snd (broadcast_catalog env s)) = auth_challenges s"
proof -
  obtain r t where b: "broadcast_catalog env s = (r, t)" by force
  from staysD [OF broadcast_catalog_only b] obtain a c
    where "t = s\<lparr>outbox := a, control_sessions := c\<rparr>" unfolding only_catalogs_def by blast
  with b show "sessions (snd (broadcast_catalog env s)) = sessions s"
    "auth_challenges (snd (broadcast_catalog env s)) = auth_challenges s" by simp_all
qed

lemma tell_fields [simp]:
  "sessions (snd (tell c v s)) = sessions s"
  "auth_challenges (snd (tell c v s)) = auth_challenges s"
  by (simp_all add: tell_def split: option.split prod.split)

lemma auth_hello_sessions [simp]: "sessions (snd (auth_hello env w hello roles challenge key s)) = sessions s"
  by (simp add: auth_hello_def andthen_def Let_def send_json_def split: sum.split json.split prod.split option.split)

lemma forgets_json: "(\<And>t. stays forgets (f t)) \<Longrightarrow> stays forgets m \<Longrightarrow> stays forgets (case v of JStr t \<Rightarrow> f t | _ \<Rightarrow> m)"
  by (cases v) simp_all

lemma forgets_prims:
  "stays forgets (send_json w v)"
  "stays forgets (refuse w e)"
  "stays forgets (broadcast_catalog env)"
  "stays forgets (auth_hello env w hello roles challenge key)"
  "stays forgets (tell session v)"
  "stays forgets (\<lambda>s. on_state (f (g s)) s)"
  by (rule forgets_frame, simp)+

lemmas forgets_rules = forgets.stays_rules forgets_prims forgets_json

lemma challenges_prims:
  "stays same_challenges (send_json w v)"
  "stays same_challenges (refuse w e)"
  "stays same_challenges (broadcast_catalog env)"
  "stays same_challenges (tell session v)"
  "stays same_challenges (\<lambda>s. on_state (f (g s)) s)"
  by (rule challenges_frame, simp)+

lemmas challenges_rules = challenges.stays_rules challenges_prims

lemma drop_if_current_forgets:
  "stays forgets (drop_if_current env cid w)"
  "stays same_challenges (drop_if_current env cid w)"
  unfolding drop_if_current_def
  by (intro forgets_rules forgets.stays_modify challenges_rules challenges.stays_modify,
      simp add: forgets_def same_challenges_def)+

lemma forward_forgets:
  "stays forgets (forward env sender e)"
  "stays same_challenges (forward env sender e)"
  unfolding forward_def
  by (intro forgets_rules forgets.stays_modify drop_if_current_forgets challenges_rules challenges.stays_modify,
      simp add: forgets_def same_challenges_def close_conn_def)+

lemma relay_message_forgets:
  "stays forgets (relay_message env w cid line)"
  "stays same_challenges (relay_message env w cid line)"
  unfolding relay_message_def Let_def
  by (intro forgets_rules forgets.stays_modify challenges_rules challenges.stays_modify forward_forgets,
      simp add: forgets_def same_challenges_def)+

lemma drop_sessions_forgets: "forgets s (drop_sessions target s)" "same_challenges s (drop_sessions target s)"
  by (auto simp: forgets_def same_challenges_def drop_sessions_def Let_def close_conn_def
      split: option.splits if_splits)

lemma change_endpoint_shape:
  "snd (change_endpoint cid action request s) = s \<or>
   (\<exists>st. snd (change_endpoint cid action request s) = s\<lparr>state := st\<rparr>) \<or>
   (\<exists>st target. snd (change_endpoint cid action request s) = drop_sessions target (s\<lparr>state := st\<rparr>))"
proof (cases "jget request ''client_id''")
  case (JStr target)
  obtain r st where "set_client_status (state s) target (status_of_action action) = (r, st)" by force
  with JStr show ?thesis by (cases r) (auto simp: change_endpoint_def Let_def)
qed (simp_all add: change_endpoint_def)

lemma change_endpoint_forgets:
  "forgets s (snd (change_endpoint cid action request s))"
  "same_challenges s (snd (change_endpoint cid action request s))"
  using change_endpoint_shape [of cid action request s] drop_sessions_forgets [of "s\<lparr>state := st\<rparr>" for st]
  by (auto simp: forgets_def same_challenges_def)

lemma wisp_actions_fields [simp]:
  "sessions (snd (register_wisp cid request s)) = sessions s"
  "auth_challenges (snd (register_wisp cid request s)) = auth_challenges s"
  "sessions (snd (remove_wisp request s)) = sessions s"
  "auth_challenges (snd (remove_wisp request s)) = auth_challenges s"
  "sessions (snd (update_server env s)) = sessions s"
  "auth_challenges (snd (update_server env s)) = auth_challenges s"
  by (simp_all add: register_wisp_def remove_wisp_def update_server_def Let_def split: json.split option.split)

lemma admin_action_forgets:
  "forgets s (snd (admin_action env cid action request s))"
  "same_challenges s (snd (admin_action env cid action request s))"
proof -
  have eq: "sessions t = sessions s \<Longrightarrow> forgets s t" "auth_challenges t = auth_challenges s \<Longrightarrow> same_challenges s t" for t
    by (simp_all add: forgets_def same_challenges_def)
  show "forgets s (snd (admin_action env cid action request s))"
    "same_challenges s (snd (admin_action env cid action request s))"
    by (simp_all add: admin_action_def change_endpoint_forgets eq)
qed

lemma management_forgets:
  "stays forgets (management_request env cid req)"
  "stays same_challenges (management_request env cid req)"
  unfolding stays_def
  by (simp_all add: management_request_def Let_def admin_action_forgets forgets.R_refl challenges.R_refl
      split: sum.split option.split) (auto simp: forgets_def same_challenges_def)

lemma answer_management_forgets:
  "stays forgets (answer_management env w cid message)"
  "stays same_challenges (answer_management env w cid message)"
  unfolding answer_management_def
  by (intro forgets_rules challenges_rules management_forgets)+

lemma bootstrap_reply_forgets:
  "stays forgets (bootstrap_reply env w rnd auth)"
  "stays same_challenges (bootstrap_reply env w rnd auth)"
  unfolding bootstrap_reply_def Let_def
  by (intro forgets_rules challenges_rules)+

lemma modify_forgets:
  "(\<And>s. sessions (f s) = sessions s) \<Longrightarrow> stays forgets (modify f)"
  "(\<And>s. auth_challenges (f s) = auth_challenges s) \<Longrightarrow> stays same_challenges (modify f)"
  by (simp_all add: stays_def forgets_def same_challenges_def)

lemma join_step_forgets:
  "stays forgets (join_step env w cid v)"
  "stays same_challenges (join_step env w cid v)"
  unfolding join_step_def
  by (intro forgets_rules challenges_rules answer_management_forgets modify_forgets; simp)+

lemma register_wisps_forgets:
  "stays forgets (register_wisps env w cid message)"
  "stays same_challenges (register_wisps env w cid message)"
  unfolding register_wisps_def log_wisp_keys_def register_item_def Let_def
  by (intro forgets_rules challenges_rules modify_forgets; simp)+

lemma control_message_forgets:
  "stays forgets (control_message env w cid v)"
  "stays same_challenges (control_message env w cid v)"
  unfolding control_message_def
  by (intro forgets_rules challenges_rules answer_management_forgets)+

lemma admit_forgets:
  "stays forgets (admit w a allow cid key kind)"
  "stays same_challenges (admit w a allow cid key kind)"
  unfolding admit_def
  by (intro forgets_rules challenges_rules modify_forgets; simp)+

lemma auth_hello_challenges:
  assumes "auth_hello env w hello roles challenge key s = (r, t)"
  shows "(auth_challenges t = auth_challenges s \<and> (\<forall>a. r \<noteq> Inr (Some a))) \<or>
     (\<exists>cid rest. auth_challenges t = dput key (cid, rest) (auth_challenges s) \<and>
        (\<forall>a. r = Inr (Some a) \<longrightarrow> wait_key a = key \<and> wait_client a = cid))"
proof -
  have refused: "auth_challenges t = auth_challenges s \<and> (\<forall>a. r \<noteq> Inr (Some a))" if "refuse w e s = (r, t)" for e
    using that by (metis refuse_not_Some refuse_fields(2) snd_conv)
  show ?thesis
  proof (cases "as_dict hello")
    case (Inl e)
    with assms show ?thesis by (auto simp: auth_hello_def)
  next
    case (Inr h)
    show ?thesis
    proof (cases "\<exists>role cid public_key. jget h ''role'' = JStr role \<and> jget h ''client_id'' = JStr cid \<and>
        jget h ''public_key'' = JStr public_key")
      case False
      then have "auth_hello env w hello roles challenge key s =
          (if \<not> hashable (jget h ''role'') then (Inl TypeError, s) else refuse w ''invalid_auth_hello'' s)"
        using Inr by (auto simp: auth_hello_def Let_def split: json.split)
      with assms refused show ?thesis by (auto split: if_splits)
    next
      case True
      then obtain role cid public_key where h: "jget h ''role'' = JStr role" "jget h ''client_id'' = JStr cid"
        "jget h ''public_key'' = JStr public_key" by blast
      let ?entry = "(cid, public_key, challenge, dget_or h ''client_kind'' (JStr ''unknown''), monotonic s + 60)"
      have "(\<exists>e. refuse w e s = (r, t)) \<or> (auth_challenges t = dput key ?entry (auth_challenges s) \<and>
          (\<forall>a. r = Inr (Some a) \<longrightarrow> wait_key a = key \<and> wait_client a = cid))"
        using assms by (auto simp: auth_hello_def Inr h Let_def andthen_def send_json_def split: if_splits)
      then show ?thesis
      proof
        assume "\<exists>e. refuse w e s = (r, t)"
        then show ?thesis using refused by blast
      qed blast
    qed
  qed
qed

lemma auth_proof_pops:
  "auth_challenges (snd (auth_proof env w a allow v s)) = dpop (wait_key a) (auth_challenges s)"
proof -
  let ?s = "s\<lparr>auth_challenges := dpop (wait_key a) (auth_challenges s)\<rparr>"
  have rest: "stays same_challenges (andthen (liftE (as_dict v)) (\<lambda>answer.
     case (entry, eq_str (jget answer ''type'') ''auth_proof'', jget answer ''signature'') of
       (Some (cid, key, challenge, kind, expires), True, JStr signature) \<Rightarrow>
         andthen (liftE (ascii_encode (transcript a challenge))) (\<lambda>signed_text.
         andthen (gets monotonic) (\<lambda>now'.
         if \<not> proof_ok env key signature expires now' signed_text then refuse w ''invalid_auth_proof''
         else admit w a allow cid key kind))
     | _ \<Rightarrow> refuse w ''invalid_auth_proof''))" for entry
    by (intro challenges_rules)
       (auto intro!: challenges_rules admit_forgets split: option.split bool.split json.split prod.split)
  show ?thesis
    using rest [of "dget (auth_challenges s) (wait_key a)"]
    by (simp add: auth_proof_def stays_def same_challenges_def)
qed

lemma auth_proof_forgets: "stays forgets (auth_proof env w a allow v)"
  unfolding auth_proof_def
  by (intro forgets_rules modify_forgets)
     (auto intro!: forgets_rules admit_forgets split: option.split bool.split json.split prod.split)

lemma admit_client:
  assumes "admit w a allow cid key kind s = (Inr (Some c), t)"
  shows "c = cid"
proof -
  define tail where "tail = andthen (\<lambda>s. on_state (\<lambda>st. register_client st cid (JStr key) False (wall_clock s)) s) (\<lambda>_.
          andthen (modify (\<lambda>s. s\<lparr>state := save (set_kind cid kind (state s))\<rparr>)) (\<lambda>_.
          andthen (send_json w (authenticated_message cid)) (\<lambda>_. ret (Some cid))))"
  have t: "x = Some cid" if "tail u = (Inr x, v)" for x u v
    using that by (auto simp: tail_def andthen_Inr)
  from assms obtain access u where x: "(if access \<notin> {''approved'', ''admin''}
        \<and> \<not> (access = ''pending'' \<and> allow \<and> wait_role a = ''control'')
     then refuse w (access_error access) else tail) u = (Inr (Some c), t)"
    unfolding admit_def tail_def [symmetric] andthen_Inr by blast
  then have "tail u = (Inr (Some c), t)"
    by (simp add: refuse_not_Some split: if_split_asm)
  from t [OF this] show ?thesis by simp
qed
lemma auth_proof_client:
  assumes "auth_proof env w a allow v s = (Inr (Some cid), t)"
    and "dget (auth_challenges s) (wait_key a) = Some (wait_client a, rest)"
  shows "cid = wait_client a"
proof -
  obtain c key kind u where "admit w a allow c key kind u = (Inr (Some cid), t)" "c = wait_client a"
    using auth_proof_admits [OF assms(1)] assms(2) by (metis option.inject prod.inject)
  then show ?thesis using admit_client by blast
qed

lemma relay_ready_sessions:
  assumes "relay_ready env w cid s = (r, t)" and "dget (sessions t) c = Some v"
  shows "(c = cid \<and> v = (cid, w)) \<or> dget (sessions s) c = Some v"
proof -
  let ?s = "s\<lparr>sessions := dput cid (cid, w) (sessions s),
         relay_liveness := dput cid (monotonic s) (relay_liveness s),
         state := (state s)\<lparr>clients := dput cid (dput ''last_seen'' (JInt (trunc (monotonic s)))
           (endpoint_record s cid)) (clients (state s))\<rparr>\<rparr>"
  define tail where "tail = andthen (send_json w [(''ok'', JBool True), (''type'', JStr ''ready''), (''client_id'', JStr cid)]) (\<lambda>_.
     andthen (\<lambda>s. (Inr (fst (drain (state s) cid)), s\<lparr>state := snd (drain (state s) cid)\<rparr>)) (\<lambda>queued.
     andthen (each (send_json w) queued) (\<lambda>_.
     andthen (modify (\<lambda>s. s\<lparr>state := save (state s)\<rparr>)) (\<lambda>_.
     broadcast_catalog env))))"
  have "stays forgets tail"
    unfolding tail_def by (intro forgets_rules modify_forgets forgets.stays_state) (simp_all add: forgets_def)
  moreover have "tail ?s = (r, t)"
    using assms(1) by (simp add: relay_ready_def tail_def)
  ultimately have "forgets ?s t" by (rule staysD)
  with assms(2) have "dget (sessions ?s) c = Some v" unfolding forgets_def by blast
  then show ?thesis by (auto split: if_splits)
qed

lemma relay_ready_challenges: "stays same_challenges (relay_ready env w cid)"
  unfolding relay_ready_def
  by (intro challenges_rules modify_forgets challenges.stays_state) (simp_all add: same_challenges_def)

lemma relay_finally_sessions:
  "forgets t (snd (relay_finally env w c t)) \<and> same_challenges t (snd (relay_finally env w c t)) \<and>
   (c = Some cid \<longrightarrow> dget (sessions (snd (relay_finally env w c t))) cid \<noteq> Some (x, w))"
proof -
  have 1: "stays forgets (relay_finally env w c)" "stays same_challenges (relay_finally env w c)"
    unfolding relay_finally_def
    by (intro forgets_rules challenges_rules modify_forgets drop_if_current_forgets; simp add: close_conn_def)+
  have "dget (sessions (snd (drop_if_current env cid w t))) cid \<noteq> Some (x, w)"
    by (auto simp: drop_if_current_def whenA_def)
  then have "c = Some cid \<longrightarrow> dget (sessions (snd (relay_finally env w c t))) cid \<noteq> Some (x, w)"
    by (auto simp: relay_finally_def andthen_def close_conn_def split: prod.splits sum.splits)
  with 1 show ?thesis by (simp add: stays_def)
qed

text \<open>What one resumption of a relay handler can do to the sessions and the challenges.\<close>

definition owns :: "relay \<Rightarrow> conn \<Rightarrow> client_id option \<Rightarrow> bool" where
  "owns s w c \<longleftrightarrow> (\<forall>cid x. dget (sessions s) cid = Some (x, w) \<longrightarrow> c = Some cid)"

definition others_kept :: "conn \<Rightarrow> relay \<Rightarrow> relay \<Rightarrow> bool" where
  "others_kept w s t \<longleftrightarrow>
     (\<forall>cid x w'. w' \<noteq> w \<longrightarrow> dget (sessions t) cid = Some (x, w') \<longrightarrow> dget (sessions s) cid = Some (x, w'))"

lemma forgets_owns: "forgets s t \<Longrightarrow> owns s w c \<Longrightarrow> owns t w c \<and> others_kept w s t"
  by (auto simp: forgets_def owns_def others_kept_def)

lemma forgets_others: "forgets s t \<Longrightarrow> others_kept w s t"
  by (simp add: forgets_def others_kept_def)

lemma others_kept_trans: "others_kept w s t \<Longrightarrow> others_kept w t u \<Longrightarrow> others_kept w s u"
  by (auto simp: others_kept_def)

definition issued :: "relay \<Rightarrow> auth_wait \<Rightarrow> bool" where
  "issued s a \<longleftrightarrow> (\<exists>rest. dget (auth_challenges s) (wait_key a) = Some (wait_client a, rest))"

lemma hello_body:
  assumes "auth_hello env w hello roles challenge key s = (r, t)"
  shows "(\<forall>a. r = Inr (Some a) \<longrightarrow> wait_key a = key \<and> issued t a) \<and>
     (\<forall>k. k \<noteq> key \<longrightarrow> dget (auth_challenges t) k = dget (auth_challenges s) k)"
  using auth_hello_challenges [OF assms] by (auto simp: issued_def)

lemma relay_body_effect:
  assumes body: "relay_body env w challenge key p i s = (r, t)"
    and own: "owns s w (if \<exists>c. p = RelayLoop c then relay_client p else None)"
    and iss: "\<forall>a. p = RelayProof a \<longrightarrow> issued s a"
  shows "owns t w (relay_client p) \<and> others_kept w s t \<and> r \<noteq> Inr RelayHello \<and>
     (\<forall>c. r = Inr (RelayLoop c) \<longrightarrow> relay_client p = Some c) \<and>
     (\<forall>a. r = Inr (RelayProof a) \<longrightarrow> p = RelayHello \<and> wait_key a = key \<and> issued t a) \<and>
     (\<forall>k. k \<noteq> key \<longrightarrow> (\<forall>a. p = RelayProof a \<longrightarrow> k \<noteq> wait_key a) \<longrightarrow>
        dget (auth_challenges t) k = dget (auth_challenges s) k)"
proof (cases p)
  case RelayHello
  have "stays forgets (relay_body env w challenge key p i)"
    unfolding RelayHello relay_body.simps by (intro forgets_rules)
  from staysD [OF this body] have f: "forgets s t" .
  have "r \<noteq> Inr RelayHello \<and> (\<forall>a. r = Inr (RelayProof a) \<longrightarrow> wait_key a = key \<and> issued t a) \<and> (\<forall>c. r \<noteq> Inr (RelayLoop c)) \<and>
     (\<forall>k. k \<noteq> key \<longrightarrow> dget (auth_challenges t) k = dget (auth_challenges s) k)"
    using body RelayHello
    by (auto simp: andthen_def split: sum.splits prod.splits option.splits dest!: hello_body)
  with f forgets_owns [OF f] own RelayHello show ?thesis by simp
next
  case (RelayLoop c)
  have "stays forgets (relay_body env w challenge key p i)" "stays same_challenges (relay_body env w challenge key p i)"
    unfolding RelayLoop relay_body.simps by (intro forgets_rules challenges_rules relay_message_forgets)+
  from staysD [OF this(1) body] staysD [OF this(2) body] have f: "forgets s t" and ch: "same_challenges s t" .
  have "r \<noteq> Inr RelayHello \<and> (\<forall>a. r \<noteq> Inr (RelayProof a)) \<and> (\<forall>c'. r = Inr (RelayLoop c') \<longrightarrow> c' = c)"
    using body RelayLoop by (auto simp: andthen_def split: sum.splits prod.splits if_splits)
  with f forgets_owns [OF f] ch own RelayLoop show ?thesis by (auto simp: same_challenges_def)
next
  case RelayDone
  with body own show ?thesis by (auto simp: others_kept_def)
next
  case (RelayProof a)
  with own have own0: "owns s w None" by simp
  show ?thesis
  proof (cases "read_json i")
    case (Inl e)
    with body RelayProof own0 show ?thesis by (auto simp: others_kept_def owns_def)
  next
    case (Inr v)
    obtain r1 u where ap: "auth_proof env w a False v s = (r1, u)" by force
    have f: "forgets s u" by (rule staysD [OF auth_proof_forgets ap])
    have pops: "auth_challenges u = dpop (wait_key a) (auth_challenges s)"
      using auth_proof_pops [of env w a False v s] ap by simp
    show ?thesis
    proof (cases "\<exists>cid. r1 = Inr (Some cid)")
      case False
      with body RelayProof Inr ap have "t = u" "r = Inr RelayDone \<or> (\<exists>e. r = Inl e)"
        by (auto simp: andthen_def split: sum.splits option.splits)
      with forgets_owns [OF f own0] pops RelayProof show ?thesis by (auto simp: owns_def)
    next
      case True
      then obtain cid where cid: "r1 = Inr (Some cid)" ..
      obtain rest where "dget (auth_challenges s) (wait_key a) = Some (wait_client a, rest)"
        using iss RelayProof by (auto simp: issued_def)
      from auth_proof_client [OF ap [unfolded cid] this] have c: "cid = wait_client a" .
      obtain r2 x where ready: "relay_ready env w cid u = (r2, x)" by force
      have t: "t = x" "r = Inr (RelayLoop cid) \<or> (\<exists>e. r = Inl e)"
        using body RelayProof Inr ap cid ready by (auto simp: andthen_def split: sum.splits)
      have ch: "auth_challenges x = auth_challenges u"
        using staysD [OF relay_ready_challenges ready] by (simp add: same_challenges_def)
      have s: "(y = cid \<and> v' = (cid, w)) \<or> dget (sessions u) y = Some v'" if "dget (sessions x) y = Some v'" for y v'
        by (rule relay_ready_sessions [OF ready that])
      have "owns x w (Some cid)" "others_kept w u x"
        using s forgets_owns [OF f own0] by (fastforce simp: owns_def others_kept_def)+
      with forgets_owns [OF f own0] show ?thesis
        using t c ch pops RelayProof by (auto intro: others_kept_trans)
    qed
  qed
qed

lemma relay_step_effect:
  assumes step: "relay_step env w challenge key p i s = (q, t)"
    and own: "owns s w (if \<exists>c. p = RelayLoop c then relay_client p else None)"
    and iss: "\<forall>a. p = RelayProof a \<longrightarrow> issued s a"
  shows "owns t w (case q of RelayLoop c \<Rightarrow> Some c | _ \<Rightarrow> None) \<and> others_kept w s t \<and>
     (\<forall>a. q = RelayProof a \<longrightarrow> wait_key a = key \<and> issued t a) \<and>
     (\<forall>k. k \<noteq> key \<longrightarrow> (\<forall>a. p = RelayProof a \<longrightarrow> k \<noteq> wait_key a) \<longrightarrow>
        dget (auth_challenges t) k = dget (auth_challenges s) k)"
proof -
  obtain r u where body: "relay_body env w challenge key p i s = (r, u)" by force
  note eff = relay_body_effect [OF body own iss]
  show ?thesis
  proof (cases "\<exists>q'. r = Inr q' \<and> q' \<noteq> RelayDone")
    case True
    then obtain q' where q': "r = Inr q'" "q' \<noteq> RelayDone" by blast
    with step body have "q = q'" "t = u"
      by (auto simp: relay_step_def split: relay_phase.splits)
    with eff q' show ?thesis by (cases q') auto
  next
    case False
    let ?f = "snd (relay_finally env w (relay_client p) u)"
    have t: "q = RelayDone" "t = ?f"
      using step body False by (cases r; auto simp: relay_step_def)+
    have f: "forgets u t" "same_challenges u t"
      using relay_finally_sessions [of u env w "relay_client p"] by (simp_all add: t)
    have none: "dget (sessions t) cid \<noteq> Some (x, w)" for cid x
    proof
      assume e: "dget (sessions t) cid = Some (x, w)"
      then have "dget (sessions u) cid = Some (x, w)" using f(1) by (simp add: forgets_def)
      then have "relay_client p = Some cid" using eff by (auto simp: owns_def)
      with e relay_finally_sessions [of u env w "relay_client p" cid x] show False by (simp add: t)
    qed
    show ?thesis
    proof (intro conjI)
      show "owns t w (case q of RelayLoop c \<Rightarrow> Some c | _ \<Rightarrow> None)"
        using none by (simp add: owns_def t(1))
      show "others_kept w s t"
        by (rule others_kept_trans [OF _ forgets_others [OF f(1)]]) (use eff in simp)
      show "\<forall>a. q = RelayProof a \<longrightarrow> wait_key a = key \<and> issued t a" by (simp add: t(1))
      have same: "auth_challenges t = auth_challenges u" using f(2) by (simp add: same_challenges_def)
      show "\<forall>k. k \<noteq> key \<longrightarrow> (\<forall>a. p = RelayProof a \<longrightarrow> k \<noteq> wait_key a) \<longrightarrow>
          dget (auth_challenges t) k = dget (auth_challenges s) k"
        unfolding same using eff by (elim conjE)
    qed
  qed
qed

text \<open>The control handlers never add a session.\<close>

lemma hello_step_effect:
  assumes "hello_step env w rnd hello s = (r, t)"
  shows "forgets s t \<and> (\<forall>a. r = Inr (AwaitProof a) \<longrightarrow> wait_key a = r_key rnd \<and> issued t a) \<and>
     (\<forall>k. k \<noteq> r_key rnd \<longrightarrow> dget (auth_challenges t) k = dget (auth_challenges s) k)"
proof -
  have "stays forgets (hello_step env w rnd hello)"
    unfolding hello_step_def by (intro forgets_rules)
  from staysD [OF this assms] show ?thesis
    using assms
    by (auto simp: hello_step_def andthen_def split: sum.splits prod.splits option.splits dest!: hello_body)
qed

definition control_effect ::
  "string \<Rightarrow> control_phase \<Rightarrow> relay \<Rightarrow> control_phase result \<Rightarrow> relay \<Rightarrow> bool" where
  "control_effect key p s r t \<longleftrightarrow> forgets s t \<and>
     (\<forall>a. r = Inr (AwaitProof a) \<longrightarrow> wait_key a = key \<and> issued t a) \<and>
     (\<forall>k. k \<noteq> key \<longrightarrow> (\<forall>a. p = AwaitProof a \<longrightarrow> k \<noteq> wait_key a) \<longrightarrow>
        dget (auth_challenges t) k = dget (auth_challenges s) k)"

lemma control_effect_quiet:
  assumes "stays forgets m" and "stays same_challenges m" and "m s = (r, t)" and "\<forall>a. r \<noteq> Inr (AwaitProof a)"
  shows "control_effect key p s r t"
  using staysD [OF assms(1,3)] staysD [OF assms(2,3)] assms(4) by (simp add: control_effect_def same_challenges_def)

lemma no_proof_phase:
  "bootstrap_reply env w rnd auth s \<noteq> (Inr (AwaitProof a), t)"
  "join_step env w cid v s \<noteq> (Inr (AwaitProof a), t)"
  "control_body env w rnd (AwaitRegistration cid) i s \<noteq> (Inr (AwaitProof a), t)"
  "control_body env w rnd (Subscribed cid) i s \<noteq> (Inr (AwaitProof a), t)"
  by (auto simp: bootstrap_reply_def join_step_def Let_def andthen_Inr split: option.splits if_splits)

lemma control_body_effect:
  assumes body: "control_body env w rnd p i s = (r, t)"
  shows "control_effect (r_key rnd) p s r t"
proof (cases p)
  case AwaitAuth
  show ?thesis
  proof (cases "bindE (read_json i) as_dict")
    case (Inl e)
    with body AwaitAuth show ?thesis
      by (auto simp: control_effect_def forgets_def andthen_def bindE_def split: sum.splits)
  next
    case (Inr auth)
    then have v: "read_json i = Inr (JObj auth)" by (auto simp: bindE_eq_Inr)
    show ?thesis
    proof (cases "eq_str (jget auth ''type'') ''bootstrap_request''")
      case True
      with body v AwaitAuth have "bootstrap_reply env w rnd auth s = (r, t)" by simp
      with no_proof_phase(1) [of env w rnd auth s] show ?thesis
        by (intro control_effect_quiet [OF bootstrap_reply_forgets]) auto
    next
      case False
      with body v AwaitAuth have "hello_step env w rnd (JObj auth) s = (r, t)" by simp
      from hello_step_effect [OF this] show ?thesis by (simp add: control_effect_def)
    qed
  qed
next
  case (AwaitHello c)
  show ?thesis
  proof (cases "read_json i")
    case (Inl e)
    with body AwaitHello show ?thesis by (auto simp: control_effect_def forgets_def)
  next
    case (Inr v)
    with body AwaitHello have "hello_step env w rnd v s = (r, t)" by simp
    from hello_step_effect [OF this] show ?thesis by (simp add: control_effect_def)
  qed
next
  case (AwaitProof a)
  show ?thesis
  proof (cases "read_json i")
    case (Inl e)
    with body AwaitProof show ?thesis by (auto simp: control_effect_def forgets_def)
  next
    case (Inr v)
    obtain r1 u where ap: "auth_proof env w a True v s = (r1, u)" by force
    with body AwaitProof Inr have "t = u" "\<forall>b. r \<noteq> Inr (AwaitProof b)"
      by (auto simp: andthen_def split: sum.splits option.splits)
    with staysD [OF auth_proof_forgets ap] auth_proof_pops [of env w a True v s] ap AwaitProof
    show ?thesis by (auto simp: control_effect_def)
  qed
next
  case (AwaitJoin c)
  show ?thesis
  proof (cases "read_json i")
    case (Inl e)
    with body AwaitJoin show ?thesis by (auto simp: control_effect_def forgets_def)
  next
    case (Inr v)
    with body AwaitJoin have "join_step env w c v s = (r, t)" by simp
    with no_proof_phase(2) [of env w c v s] show ?thesis
      by (intro control_effect_quiet [OF join_step_forgets]) auto
  qed
next
  case (AwaitRegistration c)
  with body no_proof_phase(3) [of env w rnd c i s] show ?thesis
    by (intro control_effect_quiet [of "control_body env w rnd (AwaitRegistration c) i"])
       (auto intro!: forgets_rules challenges_rules answer_management_forgets register_wisps_forgets)
next
  case (Subscribed c)
  with body no_proof_phase(4) [of env w rnd c i s] show ?thesis
    by (intro control_effect_quiet [of "control_body env w rnd (Subscribed c) i"])
       (auto intro!: forgets_rules challenges_rules control_message_forgets)
next
  case ControlDone
  with body show ?thesis by (auto simp: control_effect_def forgets_def)
qed

lemma control_step_effect:
  assumes "control_step env w rnd p i s = (q, t)"
  shows "control_effect (r_key rnd) p s (Inr q) t"
proof -
  obtain r u where body: "control_body env w rnd p i s = (r, u)" by force
  note eff = control_body_effect [OF body]
  have fin: "sessions (control_finally w c x) = sessions x \<and> auth_challenges (control_finally w c x) = auth_challenges x" for c x
    by (simp add: control_finally_def close_conn_def split: option.split)
  show ?thesis
  proof (cases "\<exists>q'. r = Inr q' \<and> q' \<noteq> ControlDone")
    case True
    then obtain q' where "r = Inr q'" "q' \<noteq> ControlDone" by blast
    with assms body have "q = q' \<and> t = u"
      by (simp add: control_step_def catch_def split: control_phase.splits)
    with eff \<open>r = Inr q'\<close> show ?thesis by simp
  next
    case False
    obtain x where x: "q = ControlDone" "t = control_finally w (control_client p) x"
      "sessions x = sessions u" "auth_challenges x = auth_challenges u"
    proof (cases r)
      case (Inl e)
      let ?m = "if control_catches e then andthen (send_json w (failed ''invalid_bootstrap'')) (\<lambda>_. ret ControlDone) else throw e"
      obtain r2 x where m: "?m u = (r2, x)" by force
      then have "r2 = Inr ControlDone \<or> (\<exists>e. r2 = Inl e)" "sessions x = sessions u" "auth_challenges x = auth_challenges u"
        by (auto simp: andthen_def send_json_def split: if_splits)
      with that [of x] assms body Inl m show thesis
        by (auto simp: control_step_def catch_def simp del: if_split)
    next
      case (Inr q')
      with False that [of u] assms body show thesis by (simp add: control_step_def catch_def)
    qed
    with eff fin show ?thesis by (simp add: control_effect_def forgets_def)
  qed
qed

definition waits_for :: "system \<Rightarrow> conn \<Rightarrow> auth_wait \<Rightarrow> bool" where
  "waits_for sys w a \<longleftrightarrow> dget (relays sys) w = Some (RelayProof a) \<or> dget (controls sys) w = Some (AwaitProof a)"

text \<open>
  A connection is of one kind; a session belongs to a relay connection that is in its message loop
  for that very endpoint; and every connection waiting for a proof has its own challenge on
  record, issued to the endpoint it claims to be.
\<close>

definition kinds_apart :: "system \<Rightarrow> bool" where
  "kinds_apart sys \<longleftrightarrow> (\<forall>w. dget (controls sys) w = None \<or> dget (relays sys) w = None)"

definition sessions_owned :: "system \<Rightarrow> bool" where
  "sessions_owned sys \<longleftrightarrow>
     (\<forall>cid x w. dget (sessions (runtime sys)) cid = Some (x, w) \<longrightarrow> dget (relays sys) w = Some (RelayLoop cid))"

definition challenges_issued :: "system \<Rightarrow> bool" where
  "challenges_issued sys \<longleftrightarrow> (\<forall>w a. waits_for sys w a \<longrightarrow> issued (runtime sys) a)"

definition challenges_apart :: "system \<Rightarrow> bool" where
  "challenges_apart sys \<longleftrightarrow>
     (\<forall>w a w' a'. waits_for sys w a \<longrightarrow> waits_for sys w' a' \<longrightarrow> wait_key a = wait_key a' \<longrightarrow> w = w')"

definition sessions_inv :: "system \<Rightarrow> bool" where
  "sessions_inv sys \<longleftrightarrow> kinds_apart sys \<and> sessions_owned sys \<and> challenges_issued sys \<and> challenges_apart sys"

text \<open>The challenge part of the invariant, for a step of either kind.\<close>

lemma challenges_step:
  assumes inv: "challenges_issued sys" "challenges_apart sys"
    and fresh: "dget (auth_challenges (runtime sys)) key = None"
    and others: "\<And>w' a. w' \<noteq> w \<Longrightarrow> waits_for sys' w' a \<Longrightarrow> waits_for sys w' a"
    and own: "\<And>a. waits_for sys' w a \<Longrightarrow> wait_key a = key \<and> issued (runtime sys') a"
    and kept: "\<And>k. k \<noteq> key \<Longrightarrow> (\<And>a. waits_for sys w a \<Longrightarrow> k \<noteq> wait_key a) \<Longrightarrow>
        dget (auth_challenges (runtime sys')) k = dget (auth_challenges (runtime sys)) k"
  shows "challenges_issued sys' \<and> challenges_apart sys'"
proof -
  have old: "wait_key a \<noteq> key" if "waits_for sys w' a" for w' a
    using inv(1) that fresh unfolding challenges_issued_def issued_def by (metis option.distinct(1))
  have "issued (runtime sys') a" if a: "waits_for sys' w' a" for w' a
  proof (cases "w' = w")
    case True
    with a own show ?thesis by blast
  next
    case False
    note b = others [OF False a]
    have "wait_key a \<noteq> wait_key c" if "waits_for sys w c" for c
      using inv(2) b that False unfolding challenges_apart_def by blast
    from kept [OF old [OF b] this] inv(1) b show ?thesis
      by (simp add: challenges_issued_def issued_def)
  qed
  moreover have "w1 = w2" if "waits_for sys' w1 a" "waits_for sys' w2 b" "wait_key a = wait_key b" for w1 w2 a b
  proof -
    have "wait_key a = key \<longleftrightarrow> w1 = w" "wait_key b = key \<longleftrightarrow> w2 = w"
      using that own others old by metis+
    with that others inv(2) show ?thesis unfolding challenges_apart_def by metis
  qed
  ultimately show ?thesis
    unfolding challenges_issued_def challenges_apart_def by blast
qed

lemma sessions_inv_relay:
  assumes inv: "sessions_inv sys" and p: "dget (relays sys) w = Some p"
    and fresh: "dget (auth_challenges (runtime sys)) key = None"
    and step: "relay_step env w challenge key p i (runtime sys) = (q, t)"
  shows "sessions_inv (sys\<lparr>runtime := t, relays := dput w q (relays sys)\<rparr>)"
proof -
  let ?sys = "sys\<lparr>runtime := t, relays := dput w q (relays sys)\<rparr>"
  have ctl: "dget (controls sys) w = None" using inv p by (auto simp: sessions_inv_def kinds_apart_def)
  have own: "owns (runtime sys) w (if \<exists>c. p = RelayLoop c then relay_client p else None)"
    using inv p by (fastforce simp: sessions_inv_def sessions_owned_def owns_def)
  have iss: "\<forall>a. p = RelayProof a \<longrightarrow> issued (runtime sys) a"
    using inv p by (auto simp: sessions_inv_def challenges_issued_def waits_for_def)
  note eff = relay_step_effect [OF step own iss]
  have "challenges_issued ?sys \<and> challenges_apart ?sys"
  proof (rule challenges_step)
    show "challenges_issued sys" "challenges_apart sys" using inv by (simp_all add: sessions_inv_def)
    show "dget (auth_challenges (runtime sys)) key = None" by (rule fresh)
    show "waits_for sys w' a" if "w' \<noteq> w" "waits_for ?sys w' a" for w' a
      using that by (simp add: waits_for_def)
    show "wait_key a = key \<and> issued (runtime ?sys) a" if "waits_for ?sys w a" for a
      using that ctl eff by (simp add: waits_for_def)
    show "dget (auth_challenges (runtime ?sys)) k = dget (auth_challenges (runtime sys)) k"
      if "k \<noteq> key" "\<And>a. waits_for sys w a \<Longrightarrow> k \<noteq> wait_key a" for k
      using that p eff by (auto simp: waits_for_def)
  qed
  moreover have "sessions_owned ?sys"
    unfolding sessions_owned_def
  proof (intro allI impI)
    fix cid x w' assume e: "dget (sessions (runtime ?sys)) cid = Some (x, w')"
    show "dget (relays ?sys) w' = Some (RelayLoop cid)"
    proof (cases "w' = w")
      case True
      with e eff have "(case q of RelayLoop c \<Rightarrow> Some c | _ \<Rightarrow> None) = Some cid" by (auto simp: owns_def)
      with True show ?thesis by (cases q) simp_all
    next
      case False
      with e eff have "dget (sessions (runtime sys)) cid = Some (x, w')" by (auto simp: others_kept_def)
      with inv False show ?thesis by (auto simp: sessions_inv_def sessions_owned_def)
    qed
  qed
  moreover have "kinds_apart ?sys" using inv ctl by (auto simp: sessions_inv_def kinds_apart_def)
  ultimately show ?thesis by (simp add: sessions_inv_def)
qed

lemma sessions_inv_control:
  assumes inv: "sessions_inv sys" and p: "dget (controls sys) w = Some p"
    and fresh: "dget (auth_challenges (runtime sys)) (r_key rnd) = None"
    and step: "control_step env w rnd p i (runtime sys) = (q, t)"
  shows "sessions_inv (sys\<lparr>runtime := t, controls := dput w q (controls sys)\<rparr>)"
proof -
  let ?sys = "sys\<lparr>runtime := t, controls := dput w q (controls sys)\<rparr>"
  have rel: "dget (relays sys) w = None"
    using inv p unfolding sessions_inv_def kinds_apart_def by (metis option.distinct(1))
  note eff = control_step_effect [OF step, unfolded control_effect_def]
  have "challenges_issued ?sys \<and> challenges_apart ?sys"
  proof (rule challenges_step)
    show "challenges_issued sys" "challenges_apart sys" using inv by (simp_all add: sessions_inv_def)
    show "dget (auth_challenges (runtime sys)) (r_key rnd) = None" by (rule fresh)
    show "waits_for sys w' a" if "w' \<noteq> w" "waits_for ?sys w' a" for w' a
      using that by (simp add: waits_for_def)
    show "wait_key a = r_key rnd \<and> issued (runtime ?sys) a" if "waits_for ?sys w a" for a
      using that rel eff by (simp add: waits_for_def)
    show "dget (auth_challenges (runtime ?sys)) k = dget (auth_challenges (runtime sys)) k"
      if "k \<noteq> r_key rnd" "\<And>a. waits_for sys w a \<Longrightarrow> k \<noteq> wait_key a" for k
      using that p eff by (auto simp: waits_for_def)
  qed
  moreover have "sessions_owned ?sys"
    using inv eff by (simp add: sessions_inv_def sessions_owned_def forgets_def)
  moreover have "kinds_apart ?sys" using inv rel by (auto simp: sessions_inv_def kinds_apart_def)
  ultimately show ?thesis by (simp add: sessions_inv_def)
qed

lemma sessions_inv_runtime:
  assumes "sessions_inv sys" and "sessions t = sessions (runtime sys)" and "auth_challenges t = auth_challenges (runtime sys)"
  shows "sessions_inv (sys\<lparr>runtime := t\<rparr>)"
  using assms
  by (simp add: sessions_inv_def kinds_apart_def sessions_owned_def challenges_issued_def challenges_apart_def
      waits_for_def issued_def)

lemma system_step_sessions: "sessions_inv sys \<Longrightarrow> sessions_inv (system_step env sys e)"
proof (cases e)
  case (Resume w i rnd)
  assume inv: "sessions_inv sys"
  show ?thesis
  proof (cases "dget (auth_challenges (runtime sys)) (r_key rnd)")
    case (Some x)
    with Resume inv show ?thesis by simp
  next
    case None
    show ?thesis
    proof (cases "dget (controls sys) w")
      case (Some p)
      obtain q t where "control_step env w rnd p i (runtime sys) = (q, t)" by force
      with sessions_inv_control [OF inv Some None this] Resume None Some show ?thesis by (simp add: resume_def)
    next
      case ctl: None
      show ?thesis
      proof (cases "dget (relays sys) w")
        case (Some p)
        obtain q t where "relay_step env w (r_challenge rnd) (r_key rnd) p i (runtime sys) = (q, t)" by force
        with sessions_inv_relay [OF inv Some None this] Resume None Some ctl show ?thesis by (simp add: resume_def)
      qed (use inv Resume None ctl in \<open>simp add: resume_def\<close>)
    qed
  qed
qed (auto simp: known_conn_def intro!: sessions_inv_runtime,
     auto simp: sessions_inv_def kinds_apart_def sessions_owned_def challenges_issued_def challenges_apart_def
       waits_for_def issued_def split: if_splits)

lemma system_run_sessions: "sessions_inv sys \<Longrightarrow> sessions_inv (system_run env sys es)"
  by (induction es arbitrary: sys) (simp_all add: system_step_sessions)

text \<open>C28: a session always belongs to the connection that authenticated for it: in every reachable state of
  the relay, the connection that is registered to receive an endpoint's messages is a relay
  connection whose handler is in its message loop as that same endpoint, so that no connection
  receives, or sends, in the name of two endpoints or of one it has not authenticated as.\<close>

theorem sessions_are_authenticated:
  "sessions_owned (system_run env (start st h) es)"
proof -
  have "sessions_inv (start st h)"
    by (simp add: start_def sessions_inv_def kinds_apart_def sessions_owned_def challenges_issued_def
        challenges_apart_def waits_for_def)
  from system_run_sessions [OF this, of env es] show ?thesis by (simp add: sessions_inv_def)
qed

section \<open>Witnesses\<close>

definition demo_reset :: jdict where
  "demo_reset = [(''type'', JStr ''session_reset''), (''sender'', JStr ''wisp''), (''recipient'', JStr ''adm''),
     (''reason'', JStr ''expired'')]"

lemma demo_reset_acceptable: "acceptable ''wisp'' demo_reset"
  by (simp add: acceptable_def demo_reset_def valid_shape_def reset_shape_def allowed_fields_def required_fields_def
      reset_fields_def)

definition demo_connected :: relay where
  "demo_connected = demo_relay\<lparr>sessions := [(''wisp'', ''wisp'', 1), (''adm'', ''adm'', 3)]\<rparr>"

lemma forward_exact_witness:
  "outbox (snd (forward demo_env ''wisp'' demo_reset demo_connected))
     = [(1, accepted_message demo_reset), (3, demo_reset)]"
proof -
  have s: "dget (sessions demo_connected) ''wisp'' = Some (''wisp'', 1)" "writable demo_connected 1"
    "jget demo_reset ''recipient'' = JStr ''adm''"
    "\<forall>y dst. dget (sessions demo_connected) ''adm'' = Some (y, dst) \<longrightarrow> writable demo_connected dst"
    by (simp_all add: demo_connected_def demo_relay_def writable_def demo_reset_def)
  from forward_exact [OF s, of demo_env] demo_reset_acceptable show ?thesis
    by (simp add: demo_connected_def demo_relay_def)
qed

lemma acceptable_fields_witness: "length demo_reset \<le> 11 \<and> jget demo_reset ''sender'' = JStr ''wisp''"
  using acceptable_fields [OF demo_reset_acceptable] by (auto simp: wf_dict_def demo_reset_def)

lemma forward_to_lost_connection_witness:
  "dget (sessions (snd (forward demo_env ''wisp'' demo_reset (demo_connected\<lparr>lost_conns := [3], control_sessions := []\<rparr>)))) ''adm'' = None"
proof -
  let ?s = "demo_connected\<lparr>lost_conns := [3], control_sessions := []\<rparr>"
  have s: "dget (sessions ?s) ''wisp'' = Some (''wisp'', 1)" "writable ?s 1" "jget demo_reset ''recipient'' = JStr ''adm''"
    "dget (sessions ?s) ''adm'' = Some (''adm'', 3)" "3 \<in> set (lost_conns ?s)"
    by (simp_all add: demo_connected_def demo_relay_def writable_def demo_reset_def)
  have "\<exists>t. forward demo_env ''wisp'' demo_reset ?s = (Inr (), t)"
    using demo_reset_acceptable
    by (simp add: forward_def lookup_session_def s(3), simp add: demo_connected_def demo_relay_def)
       (simp add: tell_def drop_if_current_def broadcast_catalog_def andthen_def catch_def send_json_def
         catalog_items_def catalog_entry_def relay_online_def demo_manifest_def Let_def RelayState_def)
  then obtain t where t: "forward demo_env ''wisp'' demo_reset ?s = (Inr (), t)" ..
  from forward_to_lost_connection [OF demo_reset_acceptable s(3,1,2,4,5) t] t show ?thesis by simp
qed

lemma authenticated_key_is_final_witness:
  "\<exists>sys. key_eq (pinned (state (runtime (system_run demo_env sys
       [AcceptControl 9, Resume 9 (Line []) \<lparr>r_challenge = ''c'', r_key = ''k'', r_content_key = [], r_seal_nonce = [], r_seed = []\<rparr>])))
       ''new'') demo_key"
proof -
  obtain bs where "ascii_encode (transcript demo_wait ''ch'') = Inr bs" using demo_transcript by blast
  from demo_admitted [OF this] obtain t
    where t: "auth_proof demo_env 5 demo_wait True (demo_answer bs) demo_challenged
      = (Inr (Some ''new''), runtime \<lparr>runtime = t, controls = [], relays = []\<rparr>)" by auto
  have inv: "admin_inv (state demo_challenged)" by (simp add: demo_challenged_def demo_admin_inv)
  have entry: "dget (auth_challenges demo_challenged) (wait_key demo_wait)
      = Some (''new'', public_key_text demo_rsa [9], ''ch'', JStr ''android'', 160)"
    by (simp add: demo_challenged_def demo_wait_def)
  from authenticated_key_is_final [OF t inv entry] show ?thesis
    unfolding demo_key_def by blast
qed

end
