(* ===== verification/Client.thy ===== *)
theory Client
  imports Envelope RelayHandlers
begin

text \<open>
  \<open>appserve/client.py\<close>, the runtime that serves Wisps: its data, its trust in peers, and the
  session handshake and frames. The application callbacks of a Wisp are code of its author:
  they are functions on a world \<open>'w\<close> of which nothing is assumed. Files on disk are the bytes
  they hold, a temporary directory is a number, and I/O errors of the disk are not represented.
\<close>

section \<open>Wisps and their answers\<close>

record asset =
  asset_id :: string
  asset_name :: string
  asset_type :: string
  asset_size :: json
  asset_content :: bytes

text \<open>What a callback returns: \<open>WispResponse(html, assets, content_type)\<close> or a plain dictionary.\<close>

datatype response = WispResponse string "asset list" string | Plain jdict

fun payload :: "response \<Rightarrow> jdict" where
  "payload (WispResponse html assets content_type) = [(''content_type'', JStr content_type), (''html'', JStr html)]"
| "payload (Plain d) = d"

fun assets_of :: "response \<Rightarrow> asset list" where
  "assets_of (WispResponse html assets content_type) = assets"
| "assets_of (Plain d) = []"

record uploaded_file =
  up_field :: string
  up_name :: string
  up_type :: string
  up_size :: int
  up_data :: bytes

datatype upload = OneFile uploaded_file | ManyFiles "uploaded_file list"

text \<open>
  A dictionary that a callback is given may have any hashable key. The last argument is
  \<open>context.client_id\<close>, the sender as it was decoded.
\<close>

type_synonym 'w state_callback = "json \<Rightarrow> 'w \<Rightarrow> response result \<times> 'w"
type_synonym 'w action_callback = "json table \<Rightarrow> (string, upload) dict \<Rightarrow> json \<Rightarrow> 'w \<Rightarrow> response result \<times> 'w"

record 'w wisp =
  wisp_id :: string
  wisp_name :: string
  wisp_description :: string
  wisp_state :: "'w state_callback"
  wisp_action :: "'w action_callback"

definition manifest :: "'w wisp \<Rightarrow> jdict" where
  "manifest w = [(''id'', JStr (wisp_id w)), (''name'', JStr (wisp_name w)), (''description'', JStr (wisp_description w))]"

text \<open>\<open>dict(values)\<close>: a dictionary is copied, anything else has to be a sequence of pairs.\<close>

definition pair_of :: "json \<Rightarrow> (json \<times> json) result" where
  "pair_of v =
     (case iterate v of
        Inl e \<Rightarrow> Inl TypeError
      | Inr [k, x] \<Rightarrow> if hashable k then Inr (k, x) else Inl TypeError
      | Inr _ \<Rightarrow> Inl (ValueError ''dictionary update sequence element has the wrong length; 2 is required''))"

definition to_dict :: "json \<Rightarrow> json table result" where
  "to_dict v =
     (case v of
        JObj d \<Rightarrow> Inr (map (\<lambda>p. (JStr (fst p), snd p)) d)
      | _ \<Rightarrow> bindE (iterate v) (\<lambda>xs. bindE (all_results (map pair_of xs))
               (\<lambda>ps. Inr (fold (\<lambda>p t. kput (fst p) (snd p) t) ps []))))"

section \<open>The runtime's state\<close>

text \<open>
  A peer is named by the \<open>sender\<close> of its messages, which the runtime never checks to be text: any
  hashable value is taken as a key of the tables below, where \<open>1\<close>, \<open>1.0\<close> and \<open>True\<close> are one key.
\<close>

type_synonym op_key = "ident \<times> string"

record incoming_file =
  file_id :: string
  file_field :: string
  file_name :: string
  file_type :: string
  file_size :: int
  file_bulk :: jdict
  file_received :: int
  file_data :: bytes

text \<open>
  A transfer's task has files left to receive, or is in the callback, whose outcome it will see
  when it resumes, or has an error or the callback's answer to deliver.
\<close>

datatype task = Receiving "string list" | Calling "response result" | Reporting jdict | Answering response

record 'w transfer =
  transfer_sender :: json
  transfer_wisp :: "'w wisp"
  transfer_data :: "json table"
  transfer_directory :: nat
  transfer_files :: "(string, incoming_file) dict"
  transfer_created :: time
  transfer_task :: "task option"

record 'w client =
  world :: 'w
  registered :: "(string, 'w wisp) dict"
  peer_keys :: "string table"
  peer_store :: "json option"
  peer_sessions :: "(ident, peer_session) dict"
  transfers :: "(op_key, 'w transfer) dict"
  completed_operations :: "(op_key, time \<times> jdict) dict"
  active_operations :: "op_key list"
  directories :: "nat list"
  ready_event :: bool
  writer :: "conn option"
  clock :: time
  sent :: "(conn \<times> jdict) list"
  streamed :: "(conn \<times> bytes) list"
  broken :: "conn list"
  calls :: "op_key list"

text \<open>
  \<open>calls\<close> is not a field of the code: it records each invocation of an action callback under the
  operation it is made for. What stays fixed while a client runs:
\<close>

record 'k client_env =
  lib_rsa :: "'k rsa"
  lib_aead :: aead
  lib_hkdf :: hkdf
  lib_hmac :: hmac
  own_key :: 'k
  own_id :: string
  store_peers :: bool
  exn_text :: "exn \<Rightarrow> string"

text \<open>\<open>str(cause)\<close>: the message of the exceptions raised with one, \<open>exn_text\<close> for the libraries' own.\<close>

fun exn_str :: "'k client_env \<Rightarrow> exn \<Rightarrow> string" where
  "exn_str env (ValueError m) = m"
| "exn_str env (ConnectionError m) = m"
| "exn_str env (AppError m) = m"
| "exn_str env (KeyError k) = str_repr k"
| "exn_str env e = exn_text env e"

text \<open>\<open>register\<close>, and the message that announces the registered Wisps.\<close>

definition register :: "'w wisp \<Rightarrow> 'w client \<Rightarrow> 'w client" where
  "register w s = s\<lparr>registered := dput (wisp_id w) w (registered s)\<rparr>"

definition registration_message :: "'k client_env \<Rightarrow> 'w client \<Rightarrow> jdict" where
  "registration_message env s =
     [(''type'', JStr ''wisps''),
      (''client_public_key'', JStr (public_key_text (lib_rsa env) (own_key env))),
      (''items'', JList (map (JObj \<circ> manifest) (dvalues (registered s))))]"

text \<open>
  A new runtime, with the keys of its peer store. It looks at nothing else on disk: what an earlier
  process left in the transfer directory stays there.
\<close>

definition load_peers :: "json option \<Rightarrow> string table" where
  "load_peers stored = (case stored of Some (JObj d) \<Rightarrow> map (\<lambda>p. (JStr (fst p), py_str (snd p))) d | _ \<Rightarrow> [])"

definition AppserveClient :: "'w \<Rightarrow> json option \<Rightarrow> nat list \<Rightarrow> time \<Rightarrow> 'w client" where
  "AppserveClient u stored left now' =
     \<lparr>world = u, registered = [], peer_keys = load_peers stored, peer_store = stored, peer_sessions = [],
      transfers = [], completed_operations = [], active_operations = [], directories = left, ready_event = False,
      writer = None, clock = now', sent = [], streamed = [], broken = [], calls = []\<rparr>"

section \<open>Sending\<close>

definition send_to :: "conn \<Rightarrow> jdict \<Rightarrow> ('w client, unit) act" where
  "send_to w v s =
     (if w \<in> set (broken s) then (Inl (ConnectionError ''Connection lost''), s)
      else (Inr (), s\<lparr>sent := sent s @ [(w, v)]\<rparr>))"

text \<open>
  \<open>_send_session\<close> waits until the relay is ready and a writer is set. The runtime clears the two
  together, and a step that sends is taken only when it need not wait; the first branch is
  the wait.
\<close>

definition send_session :: "'k client_env \<Rightarrow> json \<Rightarrow> jdict \<Rightarrow> ('w client, unit) act" where
  "send_session env recipient body s =
     (case writer s of
        None \<Rightarrow> (Inl (ConnectionError ''waiting for the relay''), s)
      | Some w \<Rightarrow>
          (case dget (peer_sessions s) (ident recipient) of
             None \<Rightarrow> (Inl (ValueError (''no active session for '' @ py_str recipient)), s)
           | Some session \<Rightarrow>
               (case encrypt (lib_aead env) session body (clock s) of
                  (Inl e, session') \<Rightarrow> (Inl e, s\<lparr>peer_sessions := dput (ident recipient) session' (peer_sessions s)\<rparr>)
                | (Inr envelope, session') \<Rightarrow>
                    send_to w envelope (s\<lparr>peer_sessions := dput (ident recipient) session' (peer_sessions s)\<rparr>))))"

definition send_session_reset :: "'k client_env \<Rightarrow> json \<Rightarrow> string \<Rightarrow> ('w client, unit) act" where
  "send_session_reset env recipient reason s =
     (case writer s of
        None \<Rightarrow> (Inr (), s)
      | Some w \<Rightarrow>
          send_to w [(''type'', JStr ''session_reset''), (''sender'', JStr (own_id env)), (''recipient'', recipient),
                     (''reason'', JStr reason)] s)"

text \<open>\<open>self._peer_keys.get(client_id)\<close>; an absent key and an empty one are treated alike.\<close>

definition known_key :: "'w client \<Rightarrow> json \<Rightarrow> string" where
  "known_key s peer = (case kget (peer_keys s) peer of Some key \<Rightarrow> key | None \<Rightarrow> [])"

text \<open>What sealing one envelope draws from the random sources.\<close>

record sealing =
  seal_message_id :: string
  seal_key :: bytes
  seal_iv :: bytes
  seal_seed :: bytes
  seal_salt :: bytes

definition send_envelope :: "'k client_env \<Rightarrow> sealing \<Rightarrow> string \<Rightarrow> jdict \<Rightarrow> ('w client, unit) act" where
  "send_envelope env rnd recipient body s =
     (case writer s of
        None \<Rightarrow> (Inl AssertionError, s)
      | Some w \<Rightarrow>
          let key = known_key s (JStr recipient)
          in if key = [] then (Inl (ValueError (''no trusted public key for '' @ recipient)), s)
             else (case encrypt_envelope (lib_rsa env) (lib_aead env) (seal_key rnd) (seal_iv rnd) (seal_seed rnd)
                          (seal_salt rnd) (own_id env) recipient (seal_message_id rnd) body (JStr key) (own_key env) False of
                     Inl e \<Rightarrow> (Inl e, s)
                   | Inr envelope \<Rightarrow> send_to w envelope s))"

text \<open>\<open>_read\<close>: one JSON object, every other line is a broken connection; bytes that are not UTF-8
  raise before the parser is reached.\<close>

definition read_message :: "input \<Rightarrow> jdict result" where
  "read_message i =
     bindE (read_line i) (\<lambda>line.
     if line = [] then Inl (ConnectionError ''WispGate peer closed the connection before sending a JSON frame'')
     else bindE (utf8_decode line) (\<lambda>t.
       case json_loads_str t of
         Inl _ \<Rightarrow> Inl (ConnectionError ''WispGate peer sent an invalid JSON frame'')
       | Inr (JObj d) \<Rightarrow> Inr d
       | Inr _ \<Rightarrow> Inl (ConnectionError ''WispGate peer sent a non-object JSON frame'')))"

section \<open>Trust on first use\<close>

text \<open>
  The peer store on disk is a JSON object from peer to key, written with sorted keys: text sorts
  with text and numbers with numbers, anything else raises. A key that is not text is written
  as its JSON text, and is text when it is loaded again.
\<close>

fun key_text :: "json \<Rightarrow> string" where
  "key_text (JStr s) = s"
| "key_text v = json_dumps v"

definition store_document :: "string table \<Rightarrow> json result" where
  "store_document ks =
     bindE (py_sorted fst ks) (\<lambda>sorted. Inr (JObj (map (\<lambda>p. (key_text (fst p), JStr (snd p))) sorted)))"

text \<open>The key is recorded in memory first; the file is replaced only when the document could be written.\<close>

definition remember_peer :: "'k client_env \<Rightarrow> json \<Rightarrow> string \<Rightarrow> ('w client, unit) act" where
  "remember_peer env peer key s =
     (let known = known_key s peer
      in if known \<noteq> [] \<and> known \<noteq> key then (Inl (ValueError (''peer public key changed for '' @ py_str peer)), s)
         else if known \<noteq> [] then (Inr (), s)
         else let ks = kput peer key (peer_keys s); t = s\<lparr>peer_keys := ks\<rparr>
           in if \<not> store_peers env then (Inr (), t)
              else case store_document ks of
                Inl e \<Rightarrow> (Inl e, t)
              | Inr document \<Rightarrow> (Inr (), t\<lparr>peer_store := Some document\<rparr>))"

section \<open>The handshake\<close>

definition accept_message :: "string \<Rightarrow> string \<Rightarrow> string \<Rightarrow> jdict" where
  "accept_message sid challenge token =
     [(''type'', JStr ''session_accept''), (''session_id'', JStr sid), (''challenge'', JStr challenge),
      (''proof'', JStr token)]"

text \<open>\<open>v.encode()\<close> asks for text.\<close>

definition text_of :: "json \<Rightarrow> string result" where
  "text_of v = (case v of JStr s \<Rightarrow> Inr s | _ \<Rightarrow> Inl (AttributeError ''encode''))"

lemma text_of_simps [simp]:
  "text_of (JStr s) = Inr s"
  "text_of v = Inr s \<longleftrightarrow> v = JStr s"
  by (auto simp: text_of_def split: json.splits)

text \<open>
  The session is installed before the proof is made, and only the proof needs the sender to be
  text: the envelope of any other sender ends in an exception that leaves its session behind.
\<close>

definition open_session :: "'k client_env \<Rightarrow> sealing \<Rightarrow> json \<Rightarrow> jdict \<Rightarrow> ('w client, unit) act" where
  "open_session env rnd sender body =
     (if \<not> eq_str (jget body ''type'') ''session_init''
      then throw (ValueError ''RSA envelope must contain session_init'')
      else case (jget body ''session_id'', jget body ''challenge'', jget body ''master_secret'') of
        (JStr sid, JStr challenge, JStr encoded) \<Rightarrow>
          if sid = [] \<or> challenge = [] \<or> encoded = [] then throw (ValueError ''invalid session_init'')
          else
            andthen (liftE (unb64 encoded)) (\<lambda>master.
            if length master \<noteq> 32 then throw (ValueError ''invalid session master secret'')
            else
              andthen (liftE (derive_session_keys (lib_hkdf env) master sid)) (\<lambda>(android_to_wisp, wisp_to_android).
              andthen (modify (\<lambda>s. s\<lparr>peer_sessions := dput (ident sender)
                (new_peer_session sid (own_id env) sender android_to_wisp wisp_to_android (clock s) False)
                (peer_sessions s)\<rparr>)) (\<lambda>_.
              andthen (liftE (text_of sender)) (\<lambda>peer.
              andthen (liftE (session_accept_proof (lib_hkdf env) (lib_hmac env) master sid challenge peer (own_id env)))
                (\<lambda>token. send_envelope env rnd peer (accept_message sid challenge token))))))
      | _ \<Rightarrow> throw (ValueError ''invalid session_init''))"

definition handle_envelope :: "'k client_env \<Rightarrow> sealing \<Rightarrow> jdict \<Rightarrow> ('w client, unit) act" where
  "handle_envelope env rnd message =
     andthen (liftE (jitem message ''sender'')) (\<lambda>sender.
     if \<not> eq_str (jget message ''recipient'') (own_id env) then throw (ValueError ''invalid handshake route'')
     else if \<not> hashable sender then throw TypeError
     else
       andthen (\<lambda>s. (decrypt_envelope (lib_rsa env) (lib_aead env) message (own_key env) (kget (peer_keys s) sender), s))
         (\<lambda>(body, key).
       andthen (remember_peer env sender (py_str key)) (\<lambda>_.
       open_session env rnd sender body)))"

section \<open>Session frames\<close>

text \<open>The first half of \<open>_handle_session_envelope\<close>: the frame is opened, or the session dropped.\<close>

definition open_session_envelope :: "'k client_env \<Rightarrow> jdict \<Rightarrow> ('w client, json \<times> jdict) act" where
  "open_session_envelope env message s =
     (let sender = jget message ''sender''
      in if \<not> hashable sender then (Inl TypeError, s)
         else case dget (peer_sessions s) (ident sender) of
           None \<Rightarrow> andthen (send_session_reset env sender ''unknown_session'') (\<lambda>_. throw (ValueError ''unknown session'')) s
         | Some session \<Rightarrow>
             (case decrypt (lib_aead env) session message (clock s) of
                (Inl e, _) \<Rightarrow> (Inl (ValueError (exn_str env e)), s\<lparr>peer_sessions := dpop (ident sender) (peer_sessions s)\<rparr>)
              | (Inr body, session') \<Rightarrow>
                  (Inr (sender, body), s\<lparr>peer_sessions := dput (ident sender) session' (peer_sessions s)\<rparr>)))"

text \<open>A reset from the relay's side drops the session with the named peer.\<close>

definition handle_session_reset :: "'k client_env \<Rightarrow> jdict \<Rightarrow> ('w client, unit) act" where
  "handle_session_reset env message s =
     (if \<not> eq_str (jget message ''recipient'') (own_id env) then (Inr (), s)
      else if \<not> hashable (jget message ''sender'') then (Inl TypeError, s)
      else (Inr (), s\<lparr>peer_sessions := dpop (ident (jget message ''sender'')) (peer_sessions s)\<rparr>))"

end
