(* ===== verification/Bulk.thy ===== *)
theory Bulk
  imports RelayAuth
begin

text \<open>
  The bulk lane of \<open>server/appserve_server/service.py\<close>: \<open>handle_bulk\<close> pairs two connections that
  name the same session and transfer, \<open>_pipe_bulk\<close> copies the announced number of bytes from
  the sender to the receiver. No other handler touches the fields of the runtime used here, so
  they are a record of their own. The lock is held across a suspension nowhere, so it has no
  effect on the steps of the model; sending completes within a step.
\<close>

section \<open>State\<close>

text \<open>\<open>_BulkConnection\<close>; the connection number stands for the reader, the writer and the object's identity.\<close>

record bulk_connection =
  bulk_conn :: conn
  bulk_client :: string
  bulk_peer :: string
  bulk_role :: string
  bulk_length :: int

record bulk =
  pending_bulk :: "(string, bulk_connection) dict"
  consumed_bulk :: "(string, time) dict"
  pipe_tasks :: "(string \<times> bulk_connection \<times> bulk_connection) list"
  bulk_paired :: "conn list"
  bulk_ended :: "conn list"
  bulk_clock :: time
  bulk_sent :: "(conn \<times> jdict) list"
  bulk_piped :: "(conn \<times> bytes) list"
  bulk_closed :: "conn list"
  bulk_lost :: "conn list"

definition MAX_BULK_BYTES :: int where
  "MAX_BULK_BYTES = 256 * 1024 * 1024 + 16"

definition MAX_PENDING_BULK :: nat where
  "MAX_PENDING_BULK = 128"

definition BULK_TICKET_TTL_SECONDS :: time where
  "BULK_TICKET_TTL_SECONDS = 10 * 60"

definition send_bulk :: "conn \<Rightarrow> jdict \<Rightarrow> (bulk, unit) act" where
  "send_bulk w v s =
     (if w \<in> set (bulk_lost s) then (Inl (ConnectionError ''Connection lost''), s)
      else if w \<in> set (bulk_closed s) then (Inr (), s)
      else (Inr (), s\<lparr>bulk_sent := bulk_sent s @ [(w, v)]\<rparr>))"

section \<open>The header\<close>

definition ticket_key :: "string \<Rightarrow> string \<Rightarrow> string" where
  "ticket_key session transfer = session @ '':'' @ transfer"

text \<open>The header's tests: \<open>None\<close> when one of them fails, else the ticket and the connection object.\<close>

definition bulk_header :: "conn \<Rightarrow> jdict \<Rightarrow> (string \<times> bulk_connection) option result" where
  "bulk_header w h =
     (if \<not> eq_str (jget h ''type'') ''bulk_connect'' then Inr None
      else if \<not> hashable (jget h ''role'') then Inl TypeError
      else case (jget h ''role'', jget h ''session_id'', jget h ''transfer_id'', jget h ''sender'', jget h ''recipient'',
                 jget h ''length'') of
        (JStr role, JStr session, JStr transfer, JStr sender, JStr recipient, JInt n) \<Rightarrow>
          Inr (if role \<in> {''sender'', ''receiver''} \<and> session \<noteq> [] \<and> transfer \<noteq> [] \<and> sender \<noteq> [] \<and> recipient \<noteq> []
                  \<and> sender \<noteq> recipient \<and> 16 \<le> n \<and> n \<le> MAX_BULK_BYTES
               then Some (ticket_key session transfer,
                 \<lparr>bulk_conn = w, bulk_client = sender, bulk_peer = recipient, bulk_role = role, bulk_length = n\<rparr>)
               else None)
      | _ \<Rightarrow> Inr None)"

section \<open>Pairing\<close>

datatype bulk_phase =
    BulkHello
  | BulkWaiting bulk_connection string
  | BulkPiping bulk_connection string
  | BulkDone

definition refuse_bulk :: "conn \<Rightarrow> string \<Rightarrow> (bulk, bulk_phase) act" where
  "refuse_bulk w e = andthen (send_bulk w (failed e)) (\<lambda>_. ret BulkDone)"

definition fits :: "bulk_connection \<Rightarrow> bulk_connection \<Rightarrow> bool" where
  "fits waiting c \<longleftrightarrow>
     bulk_role waiting \<noteq> bulk_role c \<and> bulk_client waiting = bulk_peer c \<and> bulk_peer waiting = bulk_client c
     \<and> bulk_length waiting = bulk_length c"

definition sort_pair :: "bulk_connection \<Rightarrow> bulk_connection \<Rightarrow> bulk_connection \<times> bulk_connection" where
  "sort_pair waiting c =
     (if bulk_role c = ''sender'' then c else waiting, if bulk_role c = ''receiver'' then c else waiting)"

definition purge_consumed :: "bulk \<Rightarrow> bulk" where
  "purge_consumed s = s\<lparr>consumed_bulk := filter (\<lambda>p. snd p > bulk_clock s) (consumed_bulk s)\<rparr>"

definition pair_bulk :: "string \<Rightarrow> bulk_connection \<Rightarrow> (bulk, bulk_phase) act" where
  "pair_bulk key c =
     andthen (gets (\<lambda>s. dget (pending_bulk s) key)) (\<lambda>found.
     andthen (modify (\<lambda>s. s\<lparr>pending_bulk := dpop key (pending_bulk s)\<rparr>)) (\<lambda>_.
     case found of
       None \<Rightarrow>
         andthen (gets (\<lambda>s. length (pending_bulk s))) (\<lambda>n.
         if n \<ge> MAX_PENDING_BULK then refuse_bulk (bulk_conn c) ''too_many_pending_bulk_offers''
         else andthen (modify (\<lambda>s. s\<lparr>pending_bulk := dput key c (pending_bulk s)\<rparr>)) (\<lambda>_. ret (BulkWaiting c key)))
     | Some waiting \<Rightarrow>
         if \<not> fits waiting c
         then andthen (modify (\<lambda>s. s\<lparr>pending_bulk := dput key waiting (pending_bulk s)\<rparr>)) (\<lambda>_.
              refuse_bulk (bulk_conn c) ''bulk_pair_mismatch'')
         else andthen (modify (\<lambda>s. s\<lparr>
                consumed_bulk := dput key (bulk_clock s + BULK_TICKET_TTL_SECONDS) (consumed_bulk s),
                pipe_tasks := pipe_tasks s @ [(key, sort_pair waiting c)]\<rparr>)) (\<lambda>_. ret (BulkPiping c key))))"

definition bulk_connect :: "conn \<Rightarrow> jdict \<Rightarrow> (bulk, bulk_phase) act" where
  "bulk_connect w h =
     andthen (liftE (bulk_header w h)) (\<lambda>header.
     case header of
       None \<Rightarrow> refuse_bulk w ''invalid_bulk_connect''
     | Some (key, c) \<Rightarrow>
         andthen (modify purge_consumed) (\<lambda>_.
         andthen (gets (\<lambda>s. dget (consumed_bulk s) key)) (\<lambda>used.
         if used \<noteq> None then refuse_bulk w ''bulk_transfer_used'' else pair_bulk key c)))"

section \<open>The pipe\<close>

definition CHUNK :: nat where
  "CHUNK = 256 * 1024"

text \<open>
  \<open>_copy_bulk_ciphertext\<close>. \<open>incoming\<close> is what the sender's connection still delivers before it
  ends or the time limit cuts it off; running out of it ends the copy with an exception.
\<close>

function copy_bulk :: "conn \<Rightarrow> nat \<Rightarrow> bytes \<Rightarrow> (bulk, unit) act" where
  "copy_bulk receiver remaining incoming s =
     (if remaining = 0 then (Inr (), s)
      else let n = min CHUNK remaining in
        if length incoming < n then (Inl IncompleteReadError, s)
        else if receiver \<in> set (bulk_lost s) then (Inl (ConnectionError ''Connection lost''), s)
        else copy_bulk receiver (remaining - n) (drop n incoming)
               (s\<lparr>bulk_piped := bulk_piped s @ [(receiver, take n incoming)]\<rparr>))"
  by pat_completeness auto
termination
  by (relation "measure (\<lambda>(_, remaining, _, _). remaining)") (auto simp: CHUNK_def min_def)

declare copy_bulk.simps [simp del]

definition bulk_ready :: jdict where
  "bulk_ready = [(''ok'', JBool True), (''type'', JStr ''bulk_ready'')]"

definition bulk_complete :: jdict where
  "bulk_complete = [(''ok'', JBool True), (''type'', JStr ''bulk_complete'')]"

definition pipe_bulk :: "bulk_connection \<Rightarrow> bulk_connection \<Rightarrow> bytes \<Rightarrow> (bulk, unit) act" where
  "pipe_bulk sender receiver incoming =
     andthen (modify (\<lambda>s. s\<lparr>bulk_paired := bulk_conn sender # bulk_conn receiver # bulk_paired s\<rparr>)) (\<lambda>_.
     andthen (send_bulk (bulk_conn sender) bulk_ready) (\<lambda>_.
     andthen (send_bulk (bulk_conn receiver) bulk_ready) (\<lambda>_.
     andthen (copy_bulk (bulk_conn receiver) (nat (bulk_length sender)) incoming) (\<lambda>_.
     andthen (send_bulk (bulk_conn sender) bulk_complete) (\<lambda>_.
     send_bulk (bulk_conn receiver) bulk_complete)))))"

section \<open>The handler\<close>

text \<open>What resumes a handler: its header line, its event being set, the 30 seconds being over, the end of its task.\<close>

datatype bulk_wake = Header input | PairedSet | PairTimeout | PipeEnded

fun bulk_body :: "conn \<Rightarrow> bulk_phase \<Rightarrow> bulk_wake \<Rightarrow> (bulk, bulk_phase) act" where
  "bulk_body w BulkHello (Header i) =
     andthen (liftE (read_json i)) (\<lambda>v. andthen (liftE (as_dict v)) (\<lambda>h. bulk_connect w h))"
| "bulk_body w (BulkWaiting c key) PairedSet = ret (BulkPiping c key)"
| "bulk_body w (BulkWaiting c key) PairTimeout = throw TimeoutError"
| "bulk_body w (BulkPiping c key) PipeEnded = ret BulkDone"
| "bulk_body w p _ = ret p"

definition bulk_finally :: "conn \<Rightarrow> bulk \<Rightarrow> bulk" where
  "bulk_finally w s =
     s\<lparr>pending_bulk := filter (\<lambda>p. bulk_conn (snd p) \<noteq> w) (pending_bulk s), bulk_closed := w # bulk_closed s\<rparr>"

definition bulk_step :: "conn \<Rightarrow> bulk_phase \<Rightarrow> bulk_wake \<Rightarrow> bulk \<Rightarrow> bulk_phase \<times> bulk" where
  "bulk_step w p i s =
     (case bulk_body w p i s of
        (Inr BulkDone, t) \<Rightarrow> (BulkDone, if p = BulkDone then t else bulk_finally w t)
      | (Inr q, t) \<Rightarrow> (q, t)
      | (Inl _, t) \<Rightarrow> (BulkDone, bulk_finally w t))"

section \<open>The running lane\<close>

record bulk_system =
  lane :: bulk
  bulk_handlers :: "(conn, bulk_phase) dict"

datatype bulk_event =
    BulkAccept conn
  | BulkWake conn bulk_wake
  | BulkPipe bytes
  | BulkBreak conn
  | BulkElapse time

text \<open>A wake-up happens only when what is waited for has happened; the oldest task starts first.\<close>

definition wakes :: "bulk \<Rightarrow> conn \<Rightarrow> bulk_wake \<Rightarrow> bool" where
  "wakes s w i =
     (case i of PairedSet \<Rightarrow> w \<in> set (bulk_paired s) | PipeEnded \<Rightarrow> w \<in> set (bulk_ended s) | _ \<Rightarrow> True)"

definition run_pipe :: "bytes \<Rightarrow> bulk \<Rightarrow> bulk" where
  "run_pipe incoming s =
     (case pipe_tasks s of
        [] \<Rightarrow> s
      | (_, sender, receiver) # rest \<Rightarrow>
          let t = snd (pipe_bulk sender receiver incoming (s\<lparr>pipe_tasks := rest\<rparr>))
          in t\<lparr>bulk_ended := bulk_conn sender # bulk_conn receiver # bulk_ended t\<rparr>)"

fun bulk_event_step :: "bulk_system \<Rightarrow> bulk_event \<Rightarrow> bulk_system" where
  "bulk_event_step s (BulkAccept w) =
     (if dget (bulk_handlers s) w \<noteq> None then s else s\<lparr>bulk_handlers := dput w BulkHello (bulk_handlers s)\<rparr>)"
| "bulk_event_step s (BulkWake w i) =
     (case dget (bulk_handlers s) w of
        Some p \<Rightarrow> if wakes (lane s) w i
                  then let (q, t) = bulk_step w p i (lane s) in s\<lparr>lane := t, bulk_handlers := dput w q (bulk_handlers s)\<rparr>
                  else s
      | None \<Rightarrow> s)"
| "bulk_event_step s (BulkPipe incoming) = s\<lparr>lane := run_pipe incoming (lane s)\<rparr>"
| "bulk_event_step s (BulkBreak w) = s\<lparr>lane := (lane s)\<lparr>bulk_lost := w # bulk_lost (lane s)\<rparr>\<rparr>"
| "bulk_event_step s (BulkElapse d) = s\<lparr>lane := (lane s)\<lparr>bulk_clock := bulk_clock (lane s) + max 0 d\<rparr>\<rparr>"

definition bulk_run :: "bulk_system \<Rightarrow> bulk_event list \<Rightarrow> bulk_system" where
  "bulk_run = foldl bulk_event_step"

lemma bulk_run_simps [simp]:
  "bulk_run s [] = s"
  "bulk_run s (e # es) = bulk_run (bulk_event_step s e) es"
  by (simp_all add: bulk_run_def)

definition bulk_start :: bulk_system where
  "bulk_start = \<lparr>lane = \<lparr>pending_bulk = [], consumed_bulk = [], pipe_tasks = [], bulk_paired = [], bulk_ended = [],
     bulk_clock = 0, bulk_sent = [], bulk_piped = [], bulk_closed = [], bulk_lost = []\<rparr>, bulk_handlers = []\<rparr>"

section \<open>Tickets: what pairing promises\<close>

text \<open>
  The contract of the lane, one ticket at a time: a ticket is free, offered by one waiting
  connection, or spent until a point in time.
\<close>

datatype ticket = Free | Offered bulk_connection | Spent time

datatype verdict = Waits | Pairs bulk_connection | Refused string

fun offer :: "time \<Rightarrow> bool \<Rightarrow> bulk_connection \<Rightarrow> ticket \<Rightarrow> verdict \<times> ticket" where
  "offer now' full c Free = (if full then (Refused ''too_many_pending_bulk_offers'', Free) else (Waits, Offered c))"
| "offer now' full c (Offered waiting) =
     (if fits waiting c then (Pairs waiting, Spent (now' + BULK_TICKET_TTL_SECONDS))
      else (Refused ''bulk_pair_mismatch'', Offered waiting))"
| "offer now' full c (Spent t) = (Refused ''bulk_transfer_used'', Spent t)"

definition ticket :: "time \<Rightarrow> (string, time) dict \<Rightarrow> (string, bulk_connection) dict \<Rightarrow> string \<Rightarrow> ticket" where
  "ticket now' consumed pending key =
     (case dget (filter (\<lambda>p. snd p > now') consumed) key of
        Some t \<Rightarrow> Spent t
      | None \<Rightarrow> (case dget pending key of Some c \<Rightarrow> Offered c | None \<Rightarrow> Free))"

definition ticket_of :: "bulk \<Rightarrow> string \<Rightarrow> ticket" where
  "ticket_of s = ticket (bulk_clock s) (consumed_bulk s) (pending_bulk s)"

definition answered :: "verdict \<Rightarrow> string \<Rightarrow> bulk_connection \<Rightarrow> bulk \<Rightarrow> bulk_phase result \<Rightarrow> bulk \<Rightarrow> bool" where
  "answered v key c s r t =
     (case v of
        Waits \<Rightarrow> r = Inr (BulkWaiting c key) \<and> bulk_sent t = bulk_sent s \<and> pipe_tasks t = pipe_tasks s
      | Pairs waiting \<Rightarrow> r = Inr (BulkPiping c key) \<and> bulk_sent t = bulk_sent s
          \<and> pipe_tasks t = pipe_tasks s @ [(key, sort_pair waiting c)]
      | Refused e \<Rightarrow> r = Inr BulkDone \<and> bulk_sent t = bulk_sent s @ [(bulk_conn c, failed e)]
          \<and> pipe_tasks t = pipe_tasks s)"

lemma bulk_header_conn:
  "bulk_header w h = Inr (Some (key, c)) \<Longrightarrow> bulk_conn c = w \<and> bulk_role c \<in> {''sender'', ''receiver''} \<and>
     bulk_client c \<noteq> bulk_peer c \<and> 16 \<le> bulk_length c \<and> bulk_length c \<le> MAX_BULK_BYTES"
  by (auto simp: bulk_header_def split: if_splits json.splits)

lemma BULK_TICKET_TTL_pos [simp]: "0 < BULK_TICKET_TTL_SECONDS"
  by (simp add: BULK_TICKET_TTL_SECONDS_def)

lemma dget_live:
  "wf_dict d \<Longrightarrow> dget (filter (\<lambda>p. P (snd p)) d) k
     = (case dget d k of None \<Rightarrow> None | Some v \<Rightarrow> if P v then Some v else None)"
  by (simp add: dget_filter split: option.split)

lemma ticket_updates:
  "dget consumed key = None \<Longrightarrow> ticket now' consumed (dput key c pending) k
     = (if k = key then Offered c else ticket now' consumed pending k)"
  "wf_dict consumed \<Longrightarrow> now' < e \<Longrightarrow> ticket now' (dput key e consumed) (dpop key pending) k
     = (if k = key then Spent e else ticket now' consumed pending k)"
  "dget consumed key = None \<Longrightarrow> dget pending key = Some c \<Longrightarrow> ticket now' consumed (dput key c (dpop key pending)) k
     = (if k = key then Offered c else ticket now' consumed pending k)"
  "wf_dict consumed \<Longrightarrow> now' < e \<Longrightarrow> k \<noteq> key \<Longrightarrow>
     ticket now' (dput key e consumed) pending k = ticket now' consumed pending k"
  "k \<noteq> key \<Longrightarrow> ticket now' consumed (dpop key pending) k = ticket now' consumed pending k"
  by (auto simp: ticket_def dget_live dget_filter_None split: option.split)

lemma pair_bulk_refines:
  assumes "wf_dict (consumed_bulk s)" and "dget (consumed_bulk s) key = None" and "bulk_conn c \<notin> set (bulk_lost s)" and "bulk_conn c \<notin> set (bulk_closed s)"
    and v: "offer (bulk_clock s) (MAX_PENDING_BULK \<le> length (pending_bulk s)) c (ticket_of s key) = (v, tk)"
    and "pair_bulk key c s = (r, t)"
  shows "answered v key c s r t \<and> (\<forall>k. ticket_of t k = (if k = key then tk else ticket_of s k))"
proof (cases "dget (pending_bulk s) key")
  case None
  then have "dpop key (pending_bulk s) = pending_bulk s" by (simp add: delete_id map_of_eq_None_iff)
  moreover have "ticket_of s key = Free"
    using None assms(2) by (simp add: ticket_of_def ticket_def dget_filter_None)
  ultimately show ?thesis
    using None assms
    by (cases "MAX_PENDING_BULK \<le> length (pending_bulk s)")
       (auto simp: pair_bulk_def answered_def refuse_bulk_def andthen_def send_bulk_def ticket_of_def ticket_updates)
next
  case (Some waiting)
  then have "ticket_of s key = Offered waiting"
    using assms(2) by (simp add: ticket_of_def ticket_def dget_filter_None)
  with Some assms show ?thesis
    by (cases "fits waiting c")
       (auto simp: pair_bulk_def answered_def refuse_bulk_def andthen_def send_bulk_def ticket_of_def ticket_updates)
qed

text \<open>C3: pairing refines the ticket machine: a well-formed connect request is answered as the
  ticket it names demands (it waits on a free ticket, is paired with a fitting counterpart and
  spends the ticket for ten minutes, and is refused when the lane is full, when the counterpart
  does not fit, which leaves the counterpart waiting, or when the ticket is spent), and no
  other ticket is affected.\<close>

theorem bulk_connect_refines:
  assumes "bulk_header w h = Inr (Some (key, c))" and "wf_dict (consumed_bulk s)"
    and "w \<notin> set (bulk_lost s)" and "w \<notin> set (bulk_closed s)"
    and "offer (bulk_clock s) (MAX_PENDING_BULK \<le> length (pending_bulk s)) c (ticket_of s key) = (v, tk)"
    and "bulk_connect w h s = (r, t)"
  shows "answered v key c s r t \<and> (\<forall>k. ticket_of t k = (if k = key then tk else ticket_of s k))"
proof -
  let ?p = "purge_consumed s"
  have same: "ticket_of ?p k = ticket_of s k" for k
    by (simp add: ticket_of_def ticket_def purge_consumed_def)
  have w: "bulk_conn c = w" using bulk_header_conn [OF assms(1)] by simp
  show ?thesis
  proof (cases "dget (consumed_bulk ?p) key")
    case (Some e)
    then have "ticket_of s key = Spent e" by (simp add: ticket_of_def ticket_def purge_consumed_def)
    moreover have "r = Inr BulkDone \<and> t = ?p\<lparr>bulk_sent := bulk_sent s @ [(w, failed ''bulk_transfer_used'')]\<rparr>"
      using assms(1,3,4,6) Some
      by (auto simp: bulk_connect_def refuse_bulk_def andthen_def send_bulk_def purge_consumed_def)
    ultimately show ?thesis
      using assms(5) w same by (auto simp: answered_def ticket_of_def ticket_def purge_consumed_def)
  next
    case None
    have "answered v key c ?p r t \<and> (\<forall>k. ticket_of t k = (if k = key then tk else ticket_of ?p k))"
    proof (rule pair_bulk_refines)
      show "wf_dict (consumed_bulk ?p)" using assms(2) by (simp add: purge_consumed_def)
      show "dget (consumed_bulk ?p) key = None" by (rule None)
      show "pair_bulk key c ?p = (r, t)" using assms(1,6) None by (simp add: bulk_connect_def)
    qed (use assms w in \<open>simp_all add: same, simp_all add: purge_consumed_def\<close>)
    moreover have "answered v key c ?p r t = answered v key c s r t"
      by (simp add: answered_def purge_consumed_def split: verdict.split)
    ultimately show ?thesis by (simp add: same)
  qed
qed

section \<open>What the pipe delivers\<close>

definition piped_to :: "bulk \<Rightarrow> conn \<Rightarrow> bytes" where
  "piped_to s w = concat (map snd (filter (\<lambda>p. fst p = w) (bulk_piped s)))"

text \<open>How much of a stream is copied: all that was announced, or the whole chunks of a stream that ends early.\<close>

definition copied :: "nat \<Rightarrow> bytes \<Rightarrow> bytes" where
  "copied n incoming = take (if n \<le> length incoming then n else length incoming div CHUNK * CHUNK) incoming"

lemma CHUNK_pos [simp]: "0 < CHUNK"
  by (simp add: CHUNK_def)

lemma copied_step:
  assumes "0 < n" and "min CHUNK n \<le> length incoming"
  shows "copied n incoming = take (min CHUNK n) incoming @ copied (n - min CHUNK n) (drop (min CHUNK n) incoming)"
proof (cases "n \<le> length incoming")
  case True
  then have "n - min CHUNK n \<le> length (drop (min CHUNK n) incoming)" by simp
  with True show ?thesis by (simp add: copied_def take_add [symmetric])
next
  case False
  with assms(2) have m: "min CHUNK n = CHUNK" "CHUNK \<le> length incoming" by auto
  then obtain l where l: "length incoming = CHUNK + l" using le_Suc_ex by blast
  then have "length incoming div CHUNK * CHUNK = CHUNK + l div CHUNK * CHUNK" by simp
  with False m l show ?thesis by (simp add: copied_def take_add)
qed

lemma copied_less: "length incoming < n \<Longrightarrow> length (copied n incoming) < n"
  by (simp add: copied_def) (meson div_times_less_eq_dividend le_less_trans)

lemma copy_bulk_run:
  assumes "w \<notin> set (bulk_lost s)"
  shows "\<exists>cs. copy_bulk w n incoming s =
      (if n \<le> length incoming then Inr () else Inl IncompleteReadError,
       s\<lparr>bulk_piped := bulk_piped s @ map (Pair w) cs\<rparr>) \<and> concat cs = copied n incoming"
  using assms
proof (induction w n incoming s rule: copy_bulk.induct)
  case (1 w n incoming s)
  show ?case
  proof (cases "n = 0 \<or> length incoming < min CHUNK n")
    case True
    then show ?thesis
      by (intro exI [of _ "[]"]) (auto simp: copy_bulk.simps [of w n] copied_def)
  next
    case False
    define m where "m = min CHUNK n"
    let ?s = "s\<lparr>bulk_piped := bulk_piped s @ [(w, take m incoming)]\<rparr>"
    have n: "n \<noteq> 0" "m \<le> length incoming" using False by (auto simp: m_def)
    then have step: "copy_bulk w n incoming s = copy_bulk w (n - m) (drop m incoming) ?s"
      using 1(2) by (simp add: copy_bulk.simps [of w n] m_def [symmetric] Let_def)
    from False 1 obtain cs where cs: "copy_bulk w (n - m) (drop m incoming) ?s =
        (if n - m \<le> length (drop m incoming) then Inr () else Inl IncompleteReadError,
         ?s\<lparr>bulk_piped := bulk_piped ?s @ map (Pair w) cs\<rparr>)" "concat cs = copied (n - m) (drop m incoming)"
      unfolding m_def by fastforce
    have "n - m \<le> length (drop m incoming) \<longleftrightarrow> n \<le> length incoming" using n by (auto simp: m_def)
    moreover have "copied n incoming = take m incoming @ copied (n - m) (drop m incoming)"
      using copied_step [of n incoming] n by (simp add: m_def)
    ultimately show ?thesis
      using cs by (intro exI [of _ "take m incoming # cs"]) (simp add: step)
  qed
qed

text \<open>C12: the copy loop ends and is exact: it hands the receiver the first \<open>length\<close> bytes of what the
  sender delivers, unchanged and in order, if there are that many, and otherwise raises after
  the whole chunks of 256 KiB that did arrive, which are fewer bytes than announced; nothing
  else changes.\<close>

theorem copy_bulk_exact:
  assumes "w \<notin> set (bulk_lost s)" and "copy_bulk w n incoming s = (r, t)"
  shows "piped_to t w = piped_to s w @ copied n incoming \<and>
         (n \<le> length incoming \<longrightarrow> r = Inr () \<and> copied n incoming = take n incoming) \<and>
         (length incoming < n \<longrightarrow> r = Inl IncompleteReadError \<and> length (copied n incoming) < n) \<and>
         (\<exists>chunks. t = s\<lparr>bulk_piped := bulk_piped s @ map (Pair w) chunks\<rparr>)"
proof -
  from copy_bulk_run [OF assms(1), of n incoming] assms(2) obtain cs where
    t: "r = (if n \<le> length incoming then Inr () else Inl IncompleteReadError)"
      "t = s\<lparr>bulk_piped := bulk_piped s @ map (Pair w) cs\<rparr>" "concat cs = copied n incoming"
    by auto
  then have "piped_to t w = piped_to s w @ copied n incoming"
    by (simp add: piped_to_def filter_map comp_def)
  with t copied_less [of incoming n] show ?thesis
    by (auto simp: copied_def)
qed

text \<open>\<open>bulk_complete\<close> means complete: when both ends are reachable the pipe announces
  \<open>bulk_ready\<close> to both before any data, and \<open>bulk_complete\<close> to both if and only if the receiver
  has been handed exactly the announced number of bytes; a stream that ends early raises and
  leaves the announcement out.\<close>

theorem pipe_bulk_delivers:
  assumes "bulk_conn a \<notin> set (bulk_lost s) \<union> set (bulk_closed s)"
    and "bulk_conn b \<notin> set (bulk_lost s) \<union> set (bulk_closed s)"
    and "pipe_bulk a b incoming s = (r, t)" and "nat (bulk_length a) = n"
  shows "piped_to t (bulk_conn b) = piped_to s (bulk_conn b) @ copied n incoming \<and>
     bulk_sent t = bulk_sent s @ [(bulk_conn a, bulk_ready), (bulk_conn b, bulk_ready)] @
       (if length (copied n incoming) = n
        then [(bulk_conn a, bulk_complete), (bulk_conn b, bulk_complete)] else []) \<and>
     (r = Inr () \<longleftrightarrow> copied n incoming = take n incoming \<and> n \<le> length incoming)"
proof -
  let ?s = "s\<lparr>bulk_paired := bulk_conn a # bulk_conn b # bulk_paired s,
      bulk_sent := bulk_sent s @ [(bulk_conn a, bulk_ready), (bulk_conn b, bulk_ready)]\<rparr>"
  from copy_bulk_run [of "bulk_conn b" ?s n incoming] assms(2) obtain cs where
    cs: "copy_bulk (bulk_conn b) n incoming ?s =
      (if n \<le> length incoming then Inr () else Inl IncompleteReadError,
       ?s\<lparr>bulk_piped := bulk_piped ?s @ map (Pair (bulk_conn b)) cs\<rparr>)" "concat cs = copied n incoming"
    by auto
  have "n \<le> length incoming \<longleftrightarrow> length (copied n incoming) = n"
    using copied_less [of incoming n] by (auto simp: copied_def)
  with assms cs show ?thesis
    by (auto simp: pipe_bulk_def send_bulk_def andthen_def piped_to_def filter_map comp_def split: if_splits)
       (auto simp: copied_def)
qed

section \<open>The lane in every reachable state\<close>

definition announced :: "bulk_connection \<Rightarrow> bool" where
  "announced c \<longleftrightarrow> bulk_role c \<in> {''sender'', ''receiver''} \<and> bulk_client c \<noteq> bulk_peer c \<and>
     16 \<le> bulk_length c \<and> bulk_length c \<le> MAX_BULK_BYTES"

fun matched :: "string \<times> bulk_connection \<times> bulk_connection \<Rightarrow> bool" where
  "matched (key, a, b) \<longleftrightarrow>
     bulk_role a = ''sender'' \<and> bulk_role b = ''receiver'' \<and> bulk_conn a \<noteq> bulk_conn b \<and>
     bulk_client a = bulk_peer b \<and> bulk_peer a = bulk_client b \<and> bulk_length a = bulk_length b \<and>
     announced a \<and> announced b"

definition waiting :: "bulk_phase option \<Rightarrow> (bulk_connection \<times> string) option" where
  "waiting p = (case p of Some (BulkWaiting c key) \<Rightarrow> Some (c, key) | _ \<Rightarrow> None)"

definition engaged :: "bulk \<Rightarrow> conn set" where
  "engaged s = set (bulk_paired s) \<union> (\<Union>(key, a, b) \<in> set (pipe_tasks s). {bulk_conn a, bulk_conn b})"

definition lane_ok :: "bulk \<Rightarrow> (conn \<Rightarrow> (bulk_connection \<times> string) option) \<Rightarrow> bool" where
  "lane_ok s W \<longleftrightarrow>
     wf_dict (pending_bulk s) \<and> wf_dict (consumed_bulk s) \<and> length (pending_bulk s) \<le> MAX_PENDING_BULK \<and>
     (\<forall>key c. dget (pending_bulk s) key = Some c \<longrightarrow> announced c \<and> W (bulk_conn c) = Some (c, key) \<and>
        bulk_conn c \<notin> engaged s) \<and>
     list_all matched (pipe_tasks s)"

definition bulk_inv :: "bulk_system \<Rightarrow> bool" where
  "bulk_inv sys \<longleftrightarrow>
     lane_ok (lane sys) (\<lambda>w. waiting (dget (bulk_handlers sys) w)) \<and>
     (\<forall>w \<in> engaged (lane sys). dget (bulk_handlers sys) w \<notin> {None, Some BulkHello})"

lemma length_dput: "length (dput k v d) \<le> Suc (length d)"
  by (induction d) auto

lemma length_dpop: "length (dpop k d) \<le> length d"
  by (simp add: AList.delete_eq)

lemma length_dpop_present: "dget d k = Some v \<Longrightarrow> length (dpop k d) < length d"
  by (auto simp: AList.delete_eq intro!: length_filter_less dest: map_of_SomeD)

lemma lane_ok_frame:
  "lane_ok s W \<Longrightarrow> pending_bulk t = pending_bulk s \<Longrightarrow> consumed_bulk t = consumed_bulk s \<Longrightarrow>
     pipe_tasks t = pipe_tasks s \<Longrightarrow> bulk_paired t = bulk_paired s \<Longrightarrow> lane_ok t W \<and> engaged t = engaged s"
  by (simp add: lane_ok_def engaged_def)

lemma refuse_bulk_frame:
  "refuse_bulk w e s = (r, t) \<Longrightarrow> pending_bulk t = pending_bulk s \<and> consumed_bulk t = consumed_bulk s \<and>
     pipe_tasks t = pipe_tasks s \<and> bulk_paired t = bulk_paired s \<and> (\<forall>q. r = Inr q \<longrightarrow> q = BulkDone)"
  by (auto simp: refuse_bulk_def andthen_def send_bulk_def split: if_splits)

text \<open>The phase a pairing attempt leaves its handler in; an exception leaves none.\<close>

definition next_waiting :: "bulk_phase result \<Rightarrow> (bulk_connection \<times> string) option" where
  "next_waiting r = (case r of Inr q \<Rightarrow> waiting (Some q) | Inl _ \<Rightarrow> None)"

text \<open>What a connect attempt of \<open>w\<close> may do to the lane.\<close>

definition lane_step :: "(conn \<Rightarrow> (bulk_connection \<times> string) option) \<Rightarrow> conn \<Rightarrow> bulk \<Rightarrow> bulk_phase result \<Rightarrow> bulk \<Rightarrow> bool" where
  "lane_step W w s r t \<longleftrightarrow>
     lane_ok t (W(w := next_waiting r)) \<and> engaged t \<subseteq> insert w (engaged s \<union> {v. W v \<noteq> None}) \<and>
     r \<noteq> Inr BulkHello"

lemma refuse_bulk_ok:
  assumes "lane_ok s W" and "W w = None" and run: "refuse_bulk v e s = (r, t)"
  shows "lane_step W w s r t"
proof -
  have "next_waiting r = None" "r \<noteq> Inr BulkHello"
    using refuse_bulk_frame [OF run] by (cases r; auto simp: next_waiting_def waiting_def)+
  moreover from this assms(2) have "W(w := next_waiting r) = W" by (simp add: fun_upd_idem)
  moreover from refuse_bulk_frame [OF run] have "lane_ok t W \<and> engaged t = engaged s"
    using assms(1) by (intro lane_ok_frame) auto
  ultimately show ?thesis by (auto simp: lane_step_def)
qed

lemma matched_sort_pair:
  assumes "fits v c" and "announced v" and "announced c" and "bulk_conn v \<noteq> bulk_conn c"
  shows "matched (key, sort_pair v c)"
  using assms by (auto simp: fits_def sort_pair_def announced_def)

lemma pair_bulk_ok:
  assumes ok: "lane_ok s W" and c: "announced c" "W (bulk_conn c) = None" "bulk_conn c \<notin> engaged s"
    and run: "pair_bulk key c s = (r, t)"
  shows "lane_step W (bulk_conn c) s r t"
proof -
  have other: "bulk_conn d \<noteq> bulk_conn c \<and> announced d \<and> W (bulk_conn d) = Some (d, k) \<and> bulk_conn d \<notin> engaged s"
    if "dget (pending_bulk s) k = Some d" for k d
  proof -
    from ok that have "announced d \<and> W (bulk_conn d) = Some (d, k) \<and> bulk_conn d \<notin> engaged s"
      by (simp add: lane_ok_def)
    with c(2) show ?thesis by (metis option.distinct(1))
  qed
  show ?thesis
  proof (cases "dget (pending_bulk s) key")
    case None
    then have pop: "dpop key (pending_bulk s) = pending_bulk s" by (simp add: delete_id map_of_eq_None_iff)
    show ?thesis
    proof (cases "MAX_PENDING_BULK \<le> length (pending_bulk s)")
      case True
      with run None pop have "refuse_bulk (bulk_conn c) ''too_many_pending_bulk_offers'' s = (r, t)"
        by (simp add: pair_bulk_def)
      from refuse_bulk_ok [OF ok c(2) this] show ?thesis .
    next
      case False
      with run None pop have t: "r = Inr (BulkWaiting c key)" "t = s\<lparr>pending_bulk := dput key c (pending_bulk s)\<rparr>"
        by (auto simp: pair_bulk_def)
      with False ok c other length_dput [of key c "pending_bulk s"] show ?thesis
        by (auto simp: lane_step_def lane_ok_def next_waiting_def waiting_def engaged_def)
    qed
  next
    case (Some v)
    note v = other [OF Some]
    show ?thesis
    proof (cases "fits v c")
      case True
      with run Some have t: "r = Inr (BulkPiping c key)"
        "t = s\<lparr>pending_bulk := dpop key (pending_bulk s),
               consumed_bulk := dput key (bulk_clock s + BULK_TICKET_TTL_SECONDS) (consumed_bulk s),
               pipe_tasks := pipe_tasks s @ [(key, sort_pair v c)]\<rparr>"
        by (auto simp: pair_bulk_def)
      have eng: "engaged t = insert (bulk_conn c) (insert (bulk_conn v) (engaged s))"
        using True v c(1) by (auto simp: t engaged_def sort_pair_def fits_def announced_def)
      have "bulk_conn d \<noteq> bulk_conn v" if "dget (pending_bulk s) k = Some d" "k \<noteq> key" for k d
        using other [OF that(1)] v that(2) by auto
      with t eng other ok c v matched_sort_pair [OF True _ c(1)] length_dpop [of key "pending_bulk s"]
      have "lane_ok t (W(bulk_conn c := next_waiting r))"
        by (auto simp: lane_ok_def next_waiting_def waiting_def)
      with eng v t(1) show ?thesis by (auto simp: lane_step_def)
    next
      case False
      let ?s = "s\<lparr>pending_bulk := dput key v (dpop key (pending_bulk s))\<rparr>"
      have "length (pending_bulk ?s) \<le> MAX_PENDING_BULK"
        using length_dpop_present [OF Some] length_dput [of key v "dpop key (pending_bulk s)"] ok
        by (simp add: lane_ok_def)
      with ok other Some have "lane_ok ?s W" by (auto simp: lane_ok_def engaged_def)
      moreover from False run Some have "refuse_bulk (bulk_conn c) ''bulk_pair_mismatch'' ?s = (r, t)"
        by (simp add: pair_bulk_def)
      ultimately have "lane_step W (bulk_conn c) ?s r t" using refuse_bulk_ok c(2) by blast
      then show ?thesis by (simp add: lane_step_def engaged_def)
    qed
  qed
qed

lemma bulk_connect_ok:
  assumes ok: "lane_ok s W" and w: "W w = None" "w \<notin> engaged s" and run: "bulk_connect w h s = (r, t)"
  shows "lane_step W w s r t"
proof -
  have purged: "lane_ok (purge_consumed s) W" "engaged (purge_consumed s) = engaged s"
    using ok by (auto simp: lane_ok_def purge_consumed_def engaged_def)
  show ?thesis
  proof (cases "bulk_header w h")
    case (Inl e)
    with run ok w show ?thesis by (auto simp: bulk_connect_def next_waiting_def fun_upd_idem lane_step_def)
  next
    case (Inr header)
    show ?thesis
    proof (cases header)
      case None
      with Inr run have "refuse_bulk w ''invalid_bulk_connect'' s = (r, t)" by (simp add: bulk_connect_def)
      from refuse_bulk_ok [OF ok w(1) this] show ?thesis .
    next
      case (Some kc)
      obtain key c where kc: "kc = (key, c)" by (cases kc)
      from bulk_header_conn Inr Some kc have c: "bulk_conn c = w" "announced c" by (auto simp: announced_def)
      have "lane_step W w (purge_consumed s) r t"
      proof (cases "dget (consumed_bulk (purge_consumed s)) key")
        case used: None
        with Inr Some kc run have "pair_bulk key c (purge_consumed s) = (r, t)" by (simp add: bulk_connect_def)
        from pair_bulk_ok [OF purged(1) c(2) _ _ this] w c(1) purged(2) show ?thesis by simp
      next
        case used: (Some e)
        with Inr Some kc run have "refuse_bulk w ''bulk_transfer_used'' (purge_consumed s) = (r, t)"
          by (simp add: bulk_connect_def)
        from refuse_bulk_ok [OF purged(1) w(1) this] show ?thesis .
      qed
      then show ?thesis by (simp add: lane_step_def purged(2))
    qed
  qed
qed

lemma bulk_finally_ok:
  assumes "lane_ok s W"
  shows "lane_ok (bulk_finally w s) (W(w := None)) \<and> engaged (bulk_finally w s) = engaged s"
proof -
  have "engaged (bulk_finally w s) = engaged s" by (simp add: bulk_finally_def engaged_def)
  with assms show ?thesis
    by (auto simp: lane_ok_def bulk_finally_def dget_filter split: option.splits if_splits
        intro: order_trans [OF length_filter_le])
qed

text \<open>Wherever a handler that is not in its first phase stands, it ends in a phase that waits for nothing.\<close>

lemma bulk_step_ok:
  assumes ok: "lane_ok s W" and W: "W w = waiting (Some p)" and eng: "w \<in> engaged s \<longrightarrow> p \<noteq> BulkHello"
    and "wakes s w i" and step: "bulk_step w p i s = (q, t)"
  shows "lane_ok t (W(w := waiting (Some q))) \<and> engaged t \<subseteq> insert w (engaged s \<union> {v. W v \<noteq> None}) \<and>
     (q = BulkHello \<longrightarrow> p = BulkHello \<and> t = s)"
proof -
  have ended: "lane_ok (bulk_finally w u) (W(w := waiting (Some BulkDone))) \<and>
      engaged (bulk_finally w u) \<subseteq> insert w (engaged s \<union> {v. W v \<noteq> None})"
    if "lane_ok u (W(w := x))" "engaged u \<subseteq> insert w (engaged s \<union> {v. W v \<noteq> None})" for u x
    using bulk_finally_ok [OF that(1), of w] that(2) by (simp add: waiting_def)
  have idle: ?thesis if "bulk_body w p i s = (Inr p, s)"
    using that step ok W by (auto simp: bulk_step_def fun_upd_idem waiting_def ended [of s "W w"] split: bulk_phase.splits)
  show ?thesis
  proof (cases p)
    case BulkHello
    then have W: "W w = None" "w \<notin> engaged s" using W eng by (simp_all add: waiting_def)
    show ?thesis
    proof (cases i)
      case (Header inp)
      show ?thesis
      proof (cases "bindE (read_json inp) as_dict")
        case (Inl e)
        then have "bulk_body w p i s = (Inl e, s)"
          using BulkHello Header by (auto simp: bindE_eq_Inl)
        with step BulkHello ended [of s None] ok W show ?thesis
          by (auto simp: bulk_step_def fun_upd_idem)
      next
        case (Inr h)
        obtain r u where con: "bulk_connect w h s = (r, u)" by force
        then have body: "bulk_body w p i s = (r, u)"
          using BulkHello Header Inr by (auto simp: bindE_eq_Inr)
        from bulk_connect_ok [OF ok W con] have u: "lane_ok u (W(w := next_waiting r))"
          "engaged u \<subseteq> insert w (engaged s \<union> {v. W v \<noteq> None})" "r \<noteq> Inr BulkHello"
          by (auto simp: lane_step_def)
        with ended [OF u(1,2)] step body BulkHello show ?thesis
          by (auto simp: bulk_step_def next_waiting_def split: sum.splits bulk_phase.splits)
      qed
    qed (use idle BulkHello in auto)
  next
    case (BulkWaiting c key)
    show ?thesis
    proof (cases i)
      case PairedSet
      with step BulkWaiting have t: "q = BulkPiping c key" "t = s" by (auto simp: bulk_step_def)
      have "w \<in> engaged s" using assms(4) PairedSet by (simp add: wakes_def engaged_def)
      with ok have "lane_ok s (W(w := None))" by (auto simp: lane_ok_def)
      with t show ?thesis by (auto simp: waiting_def)
    next
      case PairTimeout
      with step BulkWaiting have "q = BulkDone" "t = bulk_finally w s" by (auto simp: bulk_step_def)
      with ended [of s "W w"] ok show ?thesis by auto
    qed (use idle BulkWaiting in auto)
  next
    case (BulkPiping c key)
    show ?thesis
    proof (cases i)
      case PipeEnded
      with step BulkPiping have "q = BulkDone" "t = bulk_finally w s" by (auto simp: bulk_step_def)
      with ended [of s "W w"] ok show ?thesis by auto
    qed (use idle BulkPiping in auto)
  next
    case BulkDone
    with idle show ?thesis by simp
  qed
qed

text \<open>Writing and copying leave the pairing tables alone.\<close>

definition same_tables :: "bulk \<Rightarrow> bulk \<Rightarrow> bool" where
  "same_tables s t \<longleftrightarrow>
     pending_bulk t = pending_bulk s \<and> consumed_bulk t = consumed_bulk s \<and> pipe_tasks t = pipe_tasks s \<and>
     bulk_paired t = bulk_paired s \<and> bulk_clock t = bulk_clock s"

interpretation tables: effect_relation same_tables
  by unfold_locales (auto simp: same_tables_def)

lemma send_bulk_tables: "stays same_tables (send_bulk w v)"
  by (simp add: stays_def send_bulk_def same_tables_def)

lemma copy_bulk_tables: "stays same_tables (copy_bulk w n incoming)"
  unfolding stays_def
proof
  fix s
  show "same_tables s (snd (copy_bulk w n incoming s))"
  proof (induction w n incoming s rule: copy_bulk.induct)
    case (1 w n incoming s)
    let ?s = "s\<lparr>bulk_piped := bulk_piped s @ [(w, take (min CHUNK n) incoming)]\<rparr>"
    have "same_tables s ?s" by (simp add: same_tables_def)
    with 1 show ?case
      by (simp add: copy_bulk.simps [of w n] Let_def tables.R_refl) (blast intro: tables.R_trans)
  qed
qed

lemma pipe_bulk_tables:
  "same_tables (s\<lparr>bulk_paired := bulk_conn a # bulk_conn b # bulk_paired s\<rparr>) (snd (pipe_bulk a b incoming s))"
proof -
  let ?rest = "andthen (send_bulk (bulk_conn a) bulk_ready) (\<lambda>_. andthen (send_bulk (bulk_conn b) bulk_ready) (\<lambda>_.
     andthen (copy_bulk (bulk_conn b) (nat (bulk_length a)) incoming) (\<lambda>_.
     andthen (send_bulk (bulk_conn a) bulk_complete) (\<lambda>_. send_bulk (bulk_conn b) bulk_complete))))"
  have "stays same_tables ?rest"
    by (intro tables.stays_andthen send_bulk_tables copy_bulk_tables)
  then show ?thesis by (simp add: stays_def pipe_bulk_def)
qed

lemma run_pipe_tables:
  "pending_bulk (run_pipe incoming s) = pending_bulk s \<and> consumed_bulk (run_pipe incoming s) = consumed_bulk s \<and>
   bulk_clock (run_pipe incoming s) = bulk_clock s \<and> pipe_tasks (run_pipe incoming s) = tl (pipe_tasks s) \<and>
   engaged (run_pipe incoming s) = engaged s"
proof (cases "pipe_tasks s")
  case Nil
  then show ?thesis by (simp add: run_pipe_def)
next
  case (Cons p rest)
  obtain key a b where p: "p = (key, a, b)" by (cases p)
  from pipe_bulk_tables [of a b "s\<lparr>pipe_tasks := rest\<rparr>" incoming] Cons p show ?thesis
    by (auto simp: run_pipe_def same_tables_def engaged_def Let_def)
qed

lemma bulk_event_inv:
  assumes inv: "bulk_inv sys"
  shows "bulk_inv (bulk_event_step sys e)"
proof (cases e)
  case (BulkAccept w)
  show ?thesis
  proof (cases "dget (bulk_handlers sys) w")
    case None
    have "(\<lambda>v. waiting (dget (dput w BulkHello (bulk_handlers sys)) v)) = (\<lambda>v. waiting (dget (bulk_handlers sys) v))"
      using None by (intro ext) (auto simp: waiting_def)
    with inv None BulkAccept show ?thesis by (auto simp: bulk_inv_def)
  qed (use inv BulkAccept in simp)
next
  case (BulkWake w i)
  show ?thesis
  proof (cases "\<exists>p. dget (bulk_handlers sys) w = Some p \<and> wakes (lane sys) w i")
    case True
    then obtain p where p: "dget (bulk_handlers sys) w = Some p" "wakes (lane sys) w i" by blast
    obtain q t where step: "bulk_step w p i (lane sys) = (q, t)" by force
    let ?W = "\<lambda>v. waiting (dget (bulk_handlers sys) v)" and ?sys = "sys\<lparr>lane := t, bulk_handlers := dput w q (bulk_handlers sys)\<rparr>"
    have sys: "bulk_event_step sys e = ?sys" using BulkWake p step by simp
    have ok: "lane_ok (lane sys) ?W" and eng: "\<forall>v \<in> engaged (lane sys). dget (bulk_handlers sys) v \<notin> {None, Some BulkHello}"
      using inv by (auto simp: bulk_inv_def)
    from bulk_step_ok [OF ok _ _ p(2) step] p(1) eng
    have t: "lane_ok t (?W(w := waiting (Some q)))" "engaged t \<subseteq> insert w (engaged (lane sys) \<union> {v. ?W v \<noteq> None})"
      "q = BulkHello \<longrightarrow> p = BulkHello \<and> t = lane sys" by auto
    have "?W(w := waiting (Some q)) = (\<lambda>v. waiting (dget (bulk_handlers ?sys) v))" by auto
    moreover have "dget (bulk_handlers ?sys) v \<notin> {None, Some BulkHello}" if "v \<in> engaged t" for v
    proof (cases "v = w")
      case True
      with that t(3) eng p(1) show ?thesis by auto
    next
      case False
      with that t(2) have "v \<in> engaged (lane sys) \<or> ?W v \<noteq> None" by auto
      with eng False show ?thesis by (auto simp: waiting_def split: option.splits)
    qed
    ultimately show ?thesis using t(1) unfolding sys bulk_inv_def by simp
  next
    case False
    then show ?thesis using inv BulkWake by (auto split: option.split)
  qed
next
  case (BulkPipe incoming)
  from run_pipe_tables [of incoming "lane sys"] inv BulkPipe show ?thesis
    by (cases "pipe_tasks (lane sys)") (auto simp: bulk_inv_def lane_ok_def)
qed (use inv in \<open>auto simp: bulk_inv_def lane_ok_def engaged_def\<close>)

lemma bulk_run_inv: "bulk_inv sys \<Longrightarrow> bulk_inv (bulk_run sys es)"
  by (induction es arbitrary: sys) (simp_all add: bulk_event_inv)

text \<open>C13: the lane is sound in every reachable state, whatever the connections send and in whatever
  order they act, break or time out: at most 128 offers are pending; every pending offer belongs to
  a connection whose handler is still waiting for exactly that ticket, so no dead connection is
  ever paired; and every pipe that is started joins a sender with a receiver on two different
  connections that named each other and announced the same length within the bounds.\<close>

theorem bulk_lane_sound:
  "bulk_inv (bulk_run bulk_start es)"
  by (rule bulk_run_inv) (simp add: bulk_inv_def bulk_start_def lane_ok_def engaged_def)

section \<open>Tickets are used once\<close>

definition spent :: "string \<Rightarrow> time \<Rightarrow> bulk \<Rightarrow> bulk \<Rightarrow> bool" where
  "spent key e s t \<longleftrightarrow>
     bulk_clock s \<le> bulk_clock t \<and>
     (wf_dict (consumed_bulk s) \<and> dget (consumed_bulk s) key = Some e \<and> bulk_clock t < e \<longrightarrow>
        wf_dict (consumed_bulk t) \<and> dget (consumed_bulk t) key = Some e \<and>
        {p \<in> set (pipe_tasks t). fst p = key} \<subseteq> {p \<in> set (pipe_tasks s). fst p = key})"

interpretation spent: effect_relation "spent key e" for key e
  by unfold_locales (auto simp: spent_def)

lemma refuse_bulk_spent: "stays (spent key e) (refuse_bulk w v)"
  unfolding refuse_bulk_def
  by (intro spent.stays_andthen spent.stays_basic) (auto simp: stays_def send_bulk_def spent_def)

lemma pair_bulk_spent: "key' \<noteq> key \<Longrightarrow> stays (spent key e) (pair_bulk key' c)"
  unfolding pair_bulk_def
  by (intro spent.stays_rules spent.stays_modify refuse_bulk_spent) (auto simp: spent_def)

lemma purge_consumed_spent: "spent key e s (purge_consumed s)"
  by (auto simp: spent_def purge_consumed_def dget_live)

lemma bulk_connect_spent: "stays (spent key e) (bulk_connect w h)"
  unfolding stays_def
proof
  fix s
  show "spent key e s (snd (bulk_connect w h s))"
  proof (cases "bulk_header w h")
    case (Inl x)
    then show ?thesis by (simp add: bulk_connect_def spent.R_refl)
  next
    case (Inr header)
    show ?thesis
    proof (cases header)
      case None
      with Inr refuse_bulk_spent show ?thesis by (simp add: bulk_connect_def stays_def)
    next
      case (Some kc)
      obtain key' c where kc: "kc = (key', c)" by (cases kc)
      let ?p = "purge_consumed s" and ?t = "snd (bulk_connect w h s)"
      have run: "?t = snd ((if dget (consumed_bulk ?p) key' \<noteq> None then refuse_bulk w ''bulk_transfer_used''
          else pair_bulk key' c) ?p)"
        using Inr Some kc by (simp add: bulk_connect_def)
      have clock: "bulk_clock ?p \<le> bulk_clock ?t"
        using refuse_bulk_spent [of key' e] pair_bulk_spent [of key' "''x'' @ key'" e c]
        by (auto simp: run stays_def spent_def)
      show ?thesis
      proof (cases "key' = key \<and> dget (consumed_bulk ?p) key' = None")
        case True
        then have "\<not> (wf_dict (consumed_bulk s) \<and> dget (consumed_bulk s) key = Some e \<and> bulk_clock s < e)"
          by (auto simp: purge_consumed_def dget_live)
        with clock show ?thesis by (auto simp: spent_def purge_consumed_def)
      next
        case False
        with refuse_bulk_spent [of key e] pair_bulk_spent [of key' key e c] have "spent key e ?p ?t"
          by (cases "dget (consumed_bulk ?p) key'") (auto simp: run stays_def)
        with purge_consumed_spent show ?thesis by (rule spent.R_trans)
      qed
    qed
  qed
qed

lemma bulk_body_spent: "stays (spent key e) (bulk_body w p i)"
  by (cases "(w, p, i)" rule: bulk_body.cases)
     (auto intro!: spent.stays_basic spent.stays_andthen bulk_connect_spent)

lemma bulk_step_spent: "spent key e s (snd (bulk_step w p i s))"
proof -
  obtain r t where body: "bulk_body w p i s = (r, t)" by force
  have "spent key e s t" using staysD [OF bulk_body_spent body] .
  moreover have "spent key e t (bulk_finally w t)" by (simp add: spent_def bulk_finally_def)
  ultimately have "spent key e s (bulk_finally w t)" by (rule spent.R_trans)
  with \<open>spent key e s t\<close> body show ?thesis
    by (auto simp: bulk_step_def split: sum.splits bulk_phase.splits)
qed

lemma bulk_event_spent: "spent key e (lane sys) (lane (bulk_event_step sys ev))"
proof (cases ev)
  case (BulkWake w i)
  then show ?thesis
    using bulk_step_spent [of key e "lane sys" w _ i]
    by (auto simp: spent.R_refl split: option.split prod.split) (metis snd_conv)
next
  case (BulkPipe incoming)
  then show ?thesis
    using run_pipe_tables [of incoming "lane sys"]
    by (cases "pipe_tasks (lane sys)") (auto simp: spent_def)
qed (auto simp: spent_def)

lemma bulk_run_spent: "spent key e (lane sys) (lane (bulk_run sys es))"
  by (induction es arbitrary: sys) (auto simp: spent.R_refl intro: spent.R_trans [OF bulk_event_spent])

text \<open>C14: a ticket is used once: from the moment a session and transfer id have been paired, no run of
  the lane starts another pipe for the same pair of ids before the ticket's ten minutes are
  over. A second file of one transfer, which connects under the same two ids, is therefore
  refused.\<close>

theorem bulk_ticket_single_use:
  assumes "dget (consumed_bulk (lane sys)) key = Some e" and "wf_dict (consumed_bulk (lane sys))"
    and "bulk_clock (lane (bulk_run sys es)) < e"
  shows "dget (consumed_bulk (lane (bulk_run sys es))) key = Some e \<and>
     {p \<in> set (pipe_tasks (lane (bulk_run sys es))). fst p = key} \<subseteq> {p \<in> set (pipe_tasks (lane sys)). fst p = key}"
  using bulk_run_spent [of key e sys es] assms by (auto simp: spent_def)

section \<open>Witnesses\<close>

definition bulk_demo_header :: "string \<Rightarrow> string \<Rightarrow> string \<Rightarrow> jdict" where
  "bulk_demo_header role sender recipient =
     [(''type'', JStr ''bulk_connect''), (''role'', JStr role), (''session_id'', JStr ''s''), (''transfer_id'', JStr ''t''),
      (''sender'', JStr sender), (''recipient'', JStr recipient), (''length'', JInt 16)]"

definition demo_end :: "conn \<Rightarrow> string \<Rightarrow> string \<Rightarrow> string \<Rightarrow> bulk_connection" where
  "demo_end w role sender recipient =
     \<lparr>bulk_conn = w, bulk_client = sender, bulk_peer = recipient, bulk_role = role, bulk_length = 16\<rparr>"

definition demo_lane :: bulk where
  "demo_lane = (lane bulk_start)\<lparr>pending_bulk := [(''s:t'', demo_end 1 ''sender'' ''phone'' ''wisp'')]\<rparr>"

lemma bulk_connect_refines_witness:
  "\<exists>r t. bulk_connect 2 (bulk_demo_header ''receiver'' ''wisp'' ''phone'') demo_lane = (r, t) \<and>
     pipe_tasks t = [(''s:t'', demo_end 1 ''sender'' ''phone'' ''wisp'', demo_end 2 ''receiver'' ''wisp'' ''phone'')] \<and>
     ticket_of t ''s:t'' = Spent 600"
proof -
  let ?c = "demo_end 2 ''receiver'' ''wisp'' ''phone''"
  obtain r t where run: "bulk_connect 2 (bulk_demo_header ''receiver'' ''wisp'' ''phone'') demo_lane = (r, t)" by force
  have h: "bulk_header 2 (bulk_demo_header ''receiver'' ''wisp'' ''phone'') = Inr (Some (''s:t'', ?c))"
    by (simp add: bulk_header_def bulk_demo_header_def demo_end_def ticket_key_def MAX_BULK_BYTES_def)
  have wf: "wf_dict (consumed_bulk demo_lane)" "2 \<notin> set (bulk_lost demo_lane)" "2 \<notin> set (bulk_closed demo_lane)"
    by (simp_all add: demo_lane_def bulk_start_def)
  have v: "offer (bulk_clock demo_lane) (MAX_PENDING_BULK \<le> length (pending_bulk demo_lane)) ?c (ticket_of demo_lane ''s:t'')
      = (Pairs (demo_end 1 ''sender'' ''phone'' ''wisp''), Spent 600)"
    by (simp add: ticket_of_def ticket_def demo_lane_def bulk_start_def fits_def demo_end_def BULK_TICKET_TTL_SECONDS_def)
  from bulk_connect_refines [OF h wf v run] run show ?thesis
    by (auto simp: answered_def sort_pair_def demo_end_def demo_lane_def bulk_start_def)
qed

lemma copy_bulk_exact_witness:
  "piped_to (snd (copy_bulk 2 3 [7, 8, 9, 10] demo_lane)) 2 = [7, 8, 9]"
proof -
  have "2 \<notin> set (bulk_lost demo_lane)" by (simp add: demo_lane_def bulk_start_def)
  from copy_bulk_exact [OF this, of 3 "[7, 8, 9, 10]"] show ?thesis
    by (cases "copy_bulk 2 3 [7, 8, 9, 10] demo_lane") (simp add: piped_to_def demo_lane_def bulk_start_def)
qed

lemma pipe_bulk_delivers_witness:
  "bulk_sent (snd (pipe_bulk (demo_end 1 ''sender'' ''phone'' ''wisp'') (demo_end 2 ''receiver'' ''wisp'' ''phone'')
     [1, 2, 3] demo_lane)) = [(1, bulk_ready), (2, bulk_ready)]"
proof -
  let ?a = "demo_end 1 ''sender'' ''phone'' ''wisp''" and ?b = "demo_end 2 ''receiver'' ''wisp'' ''phone''"
  have s: "bulk_conn ?a \<notin> set (bulk_lost demo_lane) \<union> set (bulk_closed demo_lane)"
    "bulk_conn ?b \<notin> set (bulk_lost demo_lane) \<union> set (bulk_closed demo_lane)"
    "nat (bulk_length ?a) = 16"
    by (simp_all add: demo_lane_def bulk_start_def demo_end_def)
  obtain r t where run: "pipe_bulk ?a ?b [1, 2, 3] demo_lane = (r, t)" by force
  from pipe_bulk_delivers [OF s(1,2) run s(3)] run show ?thesis
    by (simp add: copied_def demo_end_def demo_lane_def bulk_start_def CHUNK_def)
qed

definition demo_spent :: bulk_system where
  "demo_spent = bulk_start\<lparr>lane := (lane bulk_start)\<lparr>consumed_bulk := [(''s:t'', 600)]\<rparr>\<rparr>"

text \<open>The second file of a transfer: the sender connects again under the same ids.\<close>

lemma bulk_ticket_single_use_witness:
  "pipe_tasks (lane (bulk_run demo_spent [BulkElapse 5, BulkAccept 3,
     BulkWake 3 (Header (Line (utf8 (json_dumps (JObj (bulk_demo_header ''sender'' ''phone'' ''wisp'')))))), BulkElapse 100])) = []"
  (is "pipe_tasks (lane (bulk_run _ ?es)) = []")
proof -
  let ?h = "bulk_demo_header ''sender'' ''phone'' ''wisp''"
  have wf: "wf_json (JObj ?h)" by (simp add: bulk_demo_header_def wf_dict_def)
  have header: "bulk_header 3 ?h = Inr (Some (''s:t'', demo_end 3 ''sender'' ''phone'' ''wisp''))"
    by (simp add: bulk_header_def bulk_demo_header_def demo_end_def ticket_key_def MAX_BULK_BYTES_def)
  define bs where "bs = utf8 (json_dumps (JObj ?h))"
  have loads: "json_loads bs = Inr (JObj ?h)" unfolding bs_def by (rule json_loads_dumps [OF wf])
  have used: "pipe_tasks (lane (bulk_run demo_spent es)) = []"
    if run: "bulk_clock (lane (bulk_run demo_spent es)) = 105 \<and>
      set (pipe_tasks (lane (bulk_run demo_spent es))) \<subseteq> {p. fst p = ''s:t''}" for es
  proof -
    have "dget (consumed_bulk (lane demo_spent)) ''s:t'' = Some 600" "wf_dict (consumed_bulk (lane demo_spent))"
      and none: "pipe_tasks (lane demo_spent) = []"
      by (simp_all add: demo_spent_def bulk_start_def wf_dict_def)
    from bulk_ticket_single_use [OF this(1,2), of es] run none
    have "{p \<in> set (pipe_tasks (lane (bulk_run demo_spent es))). fst p = ''s:t''} = {}" by simp
    moreover have "set (pipe_tasks (lane (bulk_run demo_spent es)))
        = {p \<in> set (pipe_tasks (lane (bulk_run demo_spent es))). fst p = ''s:t''}"
      using run by (intro equalityI subsetI CollectI conjI) (simp_all add: subset_eq)
    ultimately show ?thesis by (simp only: set_empty)
  qed
  show ?thesis
    unfolding bs_def [symmetric]
    by (rule used)
       (simp add: demo_spent_def bulk_start_def wakes_def bulk_step_def read_json_def bulk_connect_def ticket_key_def
        purge_consumed_def refuse_bulk_def andthen_def send_bulk_def bulk_finally_def header loads)
qed

end
