(* ===== verification/ClientFiles.thy ===== *)
theory ClientFiles
  imports Client Bulk
begin

text \<open>
  \<open>appserve/client.py\<close>, files in both directions: the checks on a \<open>file_begin\<close> request, the
  reception of a bulk file, the task that runs a file action, the expiry of transfers, and the
  preparation and sending of a response's assets.
\<close>

definition MAX_FILES_PER_ACTION :: nat where
  "MAX_FILES_PER_ACTION = 32"

definition MAX_FILE_ACTION_BYTES :: int where
  "MAX_FILE_ACTION_BYTES = 256 * 1024 * 1024"

definition MAX_ACTIVE_TRANSFERS_PER_SENDER :: nat where
  "MAX_ACTIVE_TRANSFERS_PER_SENDER = 4"

definition FILE_TRANSFER_TIMEOUT_SECONDS :: time where
  "FILE_TRANSFER_TIMEOUT_SECONDS = 10 * 60"

definition COMPLETED_OPERATION_TTL_SECONDS :: time where
  "COMPLETED_OPERATION_TTL_SECONDS = 15 * 60"

section \<open>Bodies of answers\<close>

definition transfer_response :: "'w wisp \<Rightarrow> jdict \<Rightarrow> jdict" where
  "transfer_response w transfer = [(''wisp_id'', JStr (wisp_id w)), (''transfer'', JObj transfer)]"

definition operation_status_body :: "'w wisp \<Rightarrow> string \<Rightarrow> string \<Rightarrow> string option \<Rightarrow> jdict" where
  "operation_status_body w status operation_id error =
     [(''wisp_id'', JStr (wisp_id w)),
      (''operation'', JObj ([(''type'', JStr status), (''operation_id'', JStr operation_id)]
         @ (case error of None \<Rightarrow> [] | Some e \<Rightarrow> [(''error'', JStr e)])))]"

definition response_body :: "'w wisp \<Rightarrow> response \<Rightarrow> jdict" where
  "response_body w r = [(''wisp_id'', JStr (wisp_id w)), (''response'', JObj (payload r))]"

definition retained_response_body :: "'w wisp \<Rightarrow> response \<Rightarrow> jdict option" where
  "retained_response_body w r = (if assets_of r \<noteq> [] then None else Some (response_body w r))"

definition remember_completed_operation :: "op_key \<Rightarrow> jdict \<Rightarrow> 'w client \<Rightarrow> 'w client" where
  "remember_completed_operation key body s =
     (if snd key \<noteq> []
      then s\<lparr>completed_operations := dput key (clock s, body) (completed_operations s)\<rparr> else s)"

definition expire_completed_operations :: "'w client \<Rightarrow> 'w client" where
  "expire_completed_operations s =
     s\<lparr>completed_operations :=
       filter (\<lambda>p. fst (snd p) \<ge> clock s - COMPLETED_OPERATION_TTL_SECONDS) (completed_operations s)\<rparr>"

section \<open>Starting a file action\<close>

definition invalid_manifest :: exn where
  "invalid_manifest = ValueError ''invalid file manifest''"

definition manifest_fields :: "(string, incoming_file) dict \<Rightarrow> jdict \<Rightarrow> incoming_file result" where
  "manifest_fields files m =
     (let fid = py_str (dget_or m ''id'' (JStr []));
          field = py_str (dget_or m ''field'' (JStr []));
          name = py_str (dget_or m ''name'' (JStr []));
          content_type = py_str (dget_or m ''content_type'' (JStr ''application/octet-stream''))
      in case jget m ''size'' of
           JInt n \<Rightarrow>
             if fid = [] \<or> length fid > 128 \<or> dget files fid \<noteq> None \<or> field = [] \<or> length field > 128
                \<or> name = [] \<or> length name > 512 \<or> length content_type > 128 \<or> n < 0
             then Inl invalid_manifest
             else Inr \<lparr>file_id = fid, file_field = field, file_name = name, file_type = content_type, file_size = n,
                       file_bulk = [], file_received = 0, file_data = []\<rparr>
         | _ \<Rightarrow> Inl invalid_manifest)"

definition manifest_bulk :: "jdict \<Rightarrow> int \<Rightarrow> jdict result" where
  "manifest_bulk m n =
     (case jget m ''bulk'' of
        JObj bulk \<Rightarrow>
          if \<not> eq_str (jget bulk ''algorithm'') ''SESSION-A256GCM-v2''
             \<or> \<not> (is_str (jget bulk ''nonce'') \<and> truthy (jget bulk ''nonce''))
             \<or> \<not> eq_int (jget bulk ''ciphertext_size'') (n + 16)
          then Inl (ValueError ''invalid bulk transport metadata'')
          else Inr bulk
      | _ \<Rightarrow> Inl (ValueError ''file manifest requires bulk transport metadata''))"

fun add_manifests ::
  "int \<Rightarrow> json list \<Rightarrow> int \<Rightarrow> (string, incoming_file) dict \<Rightarrow> (string, incoming_file) dict result" where
  "add_manifests reserved [] taken files = Inr files"
| "add_manifests reserved (JObj m # ms) taken files =
     bindE (manifest_fields files m) (\<lambda>f.
     if reserved + (taken + file_size f) > MAX_FILE_ACTION_BYTES
     then Inl (ValueError ''file action exceeds the configured size limit'')
     else bindE (manifest_bulk m (file_size f)) (\<lambda>bulk.
          add_manifests reserved ms (taken + file_size f) (dput (file_id f) (f\<lparr>file_bulk := bulk\<rparr>) files)))"
| "add_manifests reserved (_ # ms) taken files = Inl invalid_manifest"

definition transfer_size :: "'w transfer \<Rightarrow> int" where
  "transfer_size t = (\<Sum>f \<leftarrow> dvalues (transfer_files t). file_size f)"

definition reserved_bytes :: "(op_key, 'w transfer) dict \<Rightarrow> int" where
  "reserved_bytes ts = (\<Sum>t \<leftarrow> dvalues ts. transfer_size t)"

definition active_for :: "json \<Rightarrow> (op_key, 'w transfer) dict \<Rightarrow> nat" where
  "active_for sender ts = length (filter (\<lambda>k. fst k = ident sender) (dkeys ts))"

text \<open>\<open>transfer_id\<close> of a request, and the checks that come before anything is created.\<close>

definition transfer_id_of :: "jdict \<Rightarrow> string" where
  "transfer_id_of body = py_str (dget_or body ''transfer_id'' (JStr []))"

definition file_action_request :: "json \<Rightarrow> jdict \<Rightarrow> 'w client \<Rightarrow> (json list \<times> jdict) result" where
  "file_action_request sender body s =
     (case jget body ''files'' of
        JList manifests \<Rightarrow>
          if transfer_id_of body = [] \<or> manifests = []
          then Inl (ValueError ''file action requires a transfer id and at least one file'')
          else (case dget_or body ''action_data'' (JObj []) of
            JObj action_data \<Rightarrow>
              if length manifests > MAX_FILES_PER_ACTION then Inl (ValueError ''too many files in one action'')
              else if dget (transfers s) (ident sender, transfer_id_of body) \<noteq> None
              then Inl (ValueError ''transfer id is already active'')
              else if active_for sender (transfers s) \<ge> MAX_ACTIVE_TRANSFERS_PER_SENDER
              then Inl (ValueError ''too many active file transfers'')
              else Inr (manifests, action_data)
          | _ \<Rightarrow> Inl (ValueError ''file action data must be an object''))
      | _ \<Rightarrow> Inl (ValueError ''file action requires a transfer id and at least one file''))"

text \<open>The temporary directory is made first and removed again when a manifest is refused.\<close>

definition begin_file_action :: "nat \<Rightarrow> json \<Rightarrow> 'w wisp \<Rightarrow> jdict \<Rightarrow> ('w client, jdict) act" where
  "begin_file_action directory sender w body s =
     (case file_action_request sender body s of
        Inl e \<Rightarrow> (Inl e, s)
      | Inr (manifests, action_data) \<Rightarrow>
          (case add_manifests (reserved_bytes (transfers s)) manifests 0 [] of
             Inl e \<Rightarrow> (Inl e, s)
           | Inr files \<Rightarrow>
               (Inr (transfer_response w [(''type'', JStr ''ready''), (''transfer_id'', JStr (transfer_id_of body))]),
                s\<lparr>directories := directory # directories s,
                  transfers := dput (ident sender, transfer_id_of body)
                    \<lparr>transfer_sender = sender, transfer_wisp = w,
                     transfer_data = map (\<lambda>p. (JStr (fst p), snd p)) action_data,
                     transfer_directory = directory, transfer_files = files, transfer_created = clock s,
                     transfer_task = None\<rparr> (transfers s)\<rparr>)))"

definition cleanup_transfer :: "op_key \<Rightarrow> 'w client \<Rightarrow> 'w client" where
  "cleanup_transfer key s =
     (case dget (transfers s) key of
        None \<Rightarrow> s
      | Some t \<Rightarrow> s\<lparr>transfers := dpop key (transfers s),
                    directories := filter (\<lambda>d. d \<noteq> transfer_directory t) (directories s)\<rparr>)"

text \<open>
  \<open>_expire_file_transfers\<close>: the answer is retained first, then the task is cancelled; its
  \<open>finally\<close> clause and the loop at the end both drop the transfer and its directory.
\<close>

definition expire_file_transfers :: "'w client \<Rightarrow> 'w client" where
  "expire_file_transfers s =
     (let cutoff = clock s - FILE_TRANSFER_TIMEOUT_SECONDS;
          expired = filter (\<lambda>p. transfer_created (snd p) < cutoff) (transfers s);
          s1 = fold (\<lambda>p. remember_completed_operation (fst p)
                 (operation_status_body (transfer_wisp (snd p)) ''indeterminate'' (snd (fst p)) None)) expired s
      in fold (\<lambda>p. cleanup_transfer (fst p)) expired s1)"

section \<open>Receiving a bulk file\<close>

text \<open>What the connection to the relay's bulk port does: a failure to open it, the lines and the bytes it delivers.\<close>

record bulk_io =
  io_conn :: conn
  io_failure :: "exn option"
  io_ready :: input
  io_stream :: bytes
  io_complete :: input

definition bulk_aad :: "string \<Rightarrow> string \<Rightarrow> string \<Rightarrow> string \<Rightarrow> string \<Rightarrow> int \<Rightarrow> bytes" where
  "bulk_aad session sender recipient transfer_id fid n =
     join0 [utf8 ''wispgate-bulk-v2'', utf8 session, utf8 sender, utf8 recipient, utf8 transfer_id, utf8 fid,
            utf8 (int_str n)]"

definition bulk_hello :: "string \<Rightarrow> string \<Rightarrow> string \<Rightarrow> string \<Rightarrow> json \<Rightarrow> json \<Rightarrow> jdict" where
  "bulk_hello role session transfer_id sender recipient n =
     [(''type'', JStr ''bulk_connect''), (''role'', JStr role), (''session_id'', JStr session),
      (''transfer_id'', JStr transfer_id), (''sender'', JStr sender), (''recipient'', recipient), (''length'', n)]"

definition expect :: "string \<Rightarrow> string \<Rightarrow> input \<Rightarrow> unit result" where
  "expect kind fallback i =
     bindE (read_message i) (\<lambda>m.
     if \<not> truthy (jget m ''ok'') \<or> \<not> eq_str (jget m ''type'') kind
     then Inl (ConnectionError (py_str (dget_or m ''error'' (JStr fallback)))) else Inr ())"

text \<open>
  The bytes after the greeting: \<open>n\<close> bytes of ciphertext in chunks and the 16 bytes of the tag. A
  size that is not an integer object cannot be read with, unless there is nothing to read.
\<close>

definition receive_stream :: "aead \<Rightarrow> bytes \<Rightarrow> bytes \<Rightarrow> bytes \<Rightarrow> json \<Rightarrow> int \<Rightarrow> bytes \<Rightarrow> bytes result" where
  "receive_stream c key nonce aad claimed n stream =
     bindE (aes_key key) (\<lambda>gcm.
     if \<not> is_plain_int claimed \<and> 0 < n then Inl TypeError
     else if length stream < nat n + 16 then Inl IncompleteReadError
     else case aes_gcm_decrypt c gcm nonce (take (nat n + 16) stream) aad of
       None \<Rightarrow> Inl InvalidTag
     | Some plaintext \<Rightarrow>
         if int (length plaintext) \<noteq> n then Inl (ValueError ''bulk file length did not match its manifest'')
         else Inr plaintext)"

definition receive_bulk_file ::
  "'k client_env \<Rightarrow> bulk_io \<Rightarrow> json \<Rightarrow> string \<Rightarrow> incoming_file \<Rightarrow> ('w client, incoming_file) act" where
  "receive_bulk_file env io sender transfer_id f =
     andthen (liftE (bindE (jitem (file_bulk f) ''nonce'') unb64_json)) (\<lambda>nonce.
     if length nonce \<noteq> 12 then throw (ValueError ''invalid bulk nonce'')
     else
       andthen (gets (\<lambda>s. dget (peer_sessions s) (ident sender))) (\<lambda>found.
       case found of
         None \<Rightarrow> throw (ValueError ''no active peer session for bulk transfer'')
       | Some session \<Rightarrow>
           andthen (liftE (bulk_key (lib_hkdf env) session (JStr transfer_id) False)) (\<lambda>key.
           andthen (liftE (case io_failure io of Some e \<Rightarrow> Inl e | None \<Rightarrow> Inr ())) (\<lambda>_.
           andthen (liftE (jitem (file_bulk f) ''ciphertext_size'')) (\<lambda>claimed.
           andthen (send_to (io_conn io)
             (bulk_hello ''receiver'' (session_id session) transfer_id (own_id env) sender claimed)) (\<lambda>_.
           andthen (liftE (expect ''bulk_ready'' ''bulk relay rejected transfer'' (io_ready io))) (\<lambda>_.
           andthen (liftE (text_of sender)) (\<lambda>peer.
           andthen (liftE (receive_stream (lib_aead env) key nonce
             (bulk_aad (session_id session) peer (own_id env) transfer_id (file_id f) (file_size f))
             claimed (file_size f) (io_stream io))) (\<lambda>content.
           ret (f\<lparr>file_data := content, file_received := file_size f\<rparr>))))))))))"

section \<open>The task of a file action\<close>

text \<open>The callback is given one upload per field, or a tuple when several files share the field.\<close>

definition uploaded :: "incoming_file \<Rightarrow> uploaded_file" where
  "uploaded f = \<lparr>up_field = file_field f, up_name = file_name f, up_type = file_type f, up_size = file_size f,
     up_data = file_data f\<rparr>"

definition group_uploads :: "incoming_file list \<Rightarrow> (string, uploaded_file list) dict" where
  "group_uploads fs =
     fold (\<lambda>f d. dput (file_field f) (dget_or d (file_field f) [] @ [uploaded f]) d) fs []"

definition expose_uploads :: "incoming_file list \<Rightarrow> (string, upload) dict" where
  "expose_uploads fs =
     map (\<lambda>p. (fst p, case snd p of [u] \<Rightarrow> OneFile u | us \<Rightarrow> ManyFiles us)) (group_uploads fs)"

definition set_task :: "op_key \<Rightarrow> 'w transfer \<Rightarrow> task option \<Rightarrow> 'w client \<Rightarrow> 'w client" where
  "set_task key t p s = s\<lparr>transfers := dput key (t\<lparr>transfer_task := p\<rparr>) (transfers s)\<rparr>"

text \<open>Invoking an action callback; its effect on the world happens even if nobody sees the outcome.\<close>

definition invoke_action ::
  "op_key \<Rightarrow> json \<Rightarrow> 'w wisp \<Rightarrow> json table \<Rightarrow> (string, upload) dict \<Rightarrow> 'w client \<Rightarrow> response result \<times> 'w client" where
  "invoke_action key sender w values files s =
     (let (r, u) = wisp_action w values files sender (world s)
      in (r, s\<lparr>world := u, calls := calls s @ [key]\<rparr>))"

text \<open>The failure branch: the error is retained first; sending it may wait for the relay, and may fail.\<close>

definition delivery_failure :: "exn \<Rightarrow> bool" where
  "delivery_failure e \<longleftrightarrow> is_os_error e \<or> is_value_error e"

definition attempt :: "('w client, unit) act \<Rightarrow> ('w client, unit) act" where
  "attempt m = catch m (\<lambda>e. if delivery_failure e then ret () else throw e)"

definition fail_transfer :: "'k client_env \<Rightarrow> op_key \<Rightarrow> 'w transfer \<Rightarrow> exn \<Rightarrow> 'w client \<Rightarrow> 'w client" where
  "fail_transfer env key t e s =
     (let body = transfer_response (transfer_wisp t)
            [(''type'', JStr ''error''), (''transfer_id'', JStr (snd key)), (''error'', JStr (exn_str env e))]
      in set_task key t (Some (Reporting body)) (remember_completed_operation key body s))"

text \<open>The end of the task: whatever happened, the transfer and its directory go.\<close>

definition ending :: "op_key \<Rightarrow> ('w client, unit) act \<Rightarrow> 'w client \<Rightarrow> 'w client" where
  "ending key m s = cleanup_transfer key (snd (m s))"

section \<open>Assets of a response\<close>

record prepared_asset =
  prepared :: asset
  prepared_transfer :: string
  prepared_sender :: string
  prepared_recipient :: json
  prepared_session :: string
  prepared_nonce :: string
  prepared_key :: bytes

fun int_size :: "json \<Rightarrow> int result" where
  "int_size (JInt n) = Inr n"
| "int_size _ = Inl (ValueError ''invalid Wisp response asset'')"

definition asset_char :: "char \<Rightarrow> bool" where
  "asset_char c \<longleftrightarrow>
     (65 \<le> code c \<and> code c \<le> 90) \<or> (97 \<le> code c \<and> code c \<le> 122) \<or> is_digit c \<or> c \<in> set ''._~-''"

fun asset_ids_ok :: "string list \<Rightarrow> (asset \<times> int) list \<Rightarrow> bool" where
  "asset_ids_ok ids [] = True"
| "asset_ids_ok ids ((a, n) # as) \<longleftrightarrow>
     asset_id a \<noteq> [] \<and> (\<forall>c \<in> set (asset_id a). asset_char c) \<and> asset_id a \<notin> {''.'', ''..''} \<and>
     length (asset_id a) \<le> 128 \<and> asset_id a \<notin> set ids \<and> asset_name a \<noteq> [] \<and> length (asset_name a) \<le> 512 \<and>
     asset_type a \<noteq> [] \<and> length (asset_type a) \<le> 128 \<and> 0 \<le> n \<and> asset_ids_ok (asset_id a # ids) as"

definition checked_assets :: "asset list \<Rightarrow> (asset \<times> int) list result" where
  "checked_assets as =
     (if as = [] \<or> length as > MAX_FILES_PER_ACTION
      then Inl (ValueError ''a Wisp response must contain between 1 and 32 assets'')
      else bindE (all_results (map (\<lambda>a. int_size (asset_size a)) as)) (\<lambda>sizes.
        if sum_list sizes > MAX_FILE_ACTION_BYTES
        then Inl (ValueError ''Wisp response assets exceed the configured size limit'')
        else if \<not> asset_ids_ok [] (zip as sizes) then Inl (ValueError ''invalid Wisp response asset'')
        else Inr (zip as sizes)))"

text \<open>The transfer id and the nonces are drawn at random.\<close>

definition prepare_outbound_assets ::
  "'k client_env \<Rightarrow> string \<Rightarrow> bytes list \<Rightarrow> json \<Rightarrow> asset list \<Rightarrow> 'w client \<Rightarrow> prepared_asset list result" where
  "prepare_outbound_assets env transfer_id nonces recipient as s =
     bindE (checked_assets as) (\<lambda>sized.
     case dget (peer_sessions s) (ident recipient) of
       None \<Rightarrow> Inl (ValueError (''no active peer session for '' @ py_str recipient))
     | Some session \<Rightarrow>
         all_results (map (\<lambda>(a, nonce). bindE (bulk_key (lib_hkdf env) session (JStr transfer_id) True) (\<lambda>key.
           Inr \<lparr>prepared = a, prepared_transfer = transfer_id, prepared_sender = own_id env,
                prepared_recipient = recipient, prepared_session = session_id session,
                prepared_nonce = b64u nonce, prepared_key = key\<rparr>)) (zip as nonces)))"

text \<open>
  \<open>_send_wisp_response\<close>. With assets the file list reads \<open>item.ticket\<close>, which a prepared asset does
  not have: nothing after that expression is ever reached.
\<close>

record asset_draws =
  draw_transfer :: string
  draw_nonces :: "bytes list"

definition send_wisp_response ::
  "'k client_env \<Rightarrow> asset_draws \<Rightarrow> json \<Rightarrow> 'w wisp \<Rightarrow> response \<Rightarrow> ('w client, unit) act" where
  "send_wisp_response env rnd recipient w r =
     (if assets_of r = [] then send_session env recipient (response_body w r)
      else andthen (\<lambda>s. (prepare_outbound_assets env (draw_transfer rnd) (draw_nonces rnd) recipient (assets_of r) s, s))
             (\<lambda>items. if items = [] then throw (ValueError ''list index out of range'')
                      else throw (AttributeError ''ticket'')))"

definition ciphertext_size :: "prepared_asset \<Rightarrow> int" where
  "ciphertext_size p = (case asset_size (prepared p) of JInt n \<Rightarrow> n + 16 | _ \<Rightarrow> 16)"

text \<open>\<open>_send_outbound_asset\<close>: the content is encrypted as it is read; a changed length is noticed at the end.\<close>

definition stream_to :: "conn \<Rightarrow> bytes \<Rightarrow> ('w client, unit) act" where
  "stream_to w bs s =
     (if w \<in> set (broken s) then (Inl (ConnectionError ''Connection lost''), s)
      else (Inr (), s\<lparr>streamed := streamed s @ [(w, bs)]\<rparr>))"

definition send_outbound_asset :: "'k client_env \<Rightarrow> bulk_io \<Rightarrow> prepared_asset \<Rightarrow> ('w client, unit) act" where
  "send_outbound_asset env io p =
     (let content = asset_content (prepared p); n = ciphertext_size p - 16
      in andthen (gets (\<lambda>s. dget (peer_sessions s) (ident (prepared_recipient p)))) (\<lambda>found.
         case found of
           None \<Rightarrow> throw (ValueError ''no active peer session for bulk transfer'')
         | Some session \<Rightarrow>
             andthen (liftE (case io_failure io of Some e \<Rightarrow> Inl e | None \<Rightarrow> Inr ())) (\<lambda>_.
             andthen (send_to (io_conn io)
               (bulk_hello ''sender'' (session_id session) (prepared_transfer p) (own_id env) (prepared_recipient p)
                 (JInt (ciphertext_size p)))) (\<lambda>_.
             andthen (liftE (expect ''bulk_ready'' ''bulk relay rejected transfer'' (io_ready io))) (\<lambda>_.
             andthen (liftE (unb64 (prepared_nonce p))) (\<lambda>nonce.
             andthen (liftE (aes_key (prepared_key p))) (\<lambda>key.
             andthen (liftE (text_of (prepared_recipient p))) (\<lambda>peer.
             let sealed = aes_gcm_encrypt (lib_aead env) key nonce content
                   (bulk_aad (prepared_session p) (prepared_sender p) peer (prepared_transfer p)
                      (asset_id (prepared p)) n)
             in andthen (stream_to (io_conn io) (take (length content) sealed)) (\<lambda>_.
                if int (length content) \<noteq> n then throw (ValueError ''asset length changed during transfer'')
                else andthen (stream_to (io_conn io) (drop (length content) sealed)) (\<lambda>_.
                     liftE (expect ''bulk_complete'' ''bulk relay did not complete transfer'' (io_complete io))))))))))))"

section \<open>The steps of the task\<close>

text \<open>Receiving the next file of a transfer.\<close>

definition receive_next :: "'k client_env \<Rightarrow> op_key \<Rightarrow> bulk_io \<Rightarrow> 'w client \<Rightarrow> 'w client" where
  "receive_next env key io s =
     (case dget (transfers s) key of
        Some t \<Rightarrow>
          (case transfer_task t of
             Some (Receiving (fid # rest)) \<Rightarrow>
               (case dget (transfer_files t) fid of
                  Some f \<Rightarrow>
                    (case receive_bulk_file env io (transfer_sender t) (snd key) f s of
                       (Inl e, s1) \<Rightarrow> fail_transfer env key t e s1
                     | (Inr f', s1) \<Rightarrow>
                         set_task key (t\<lparr>transfer_files := dput fid f' (transfer_files t)\<rparr>) (Some (Receiving rest)) s1)
                | None \<Rightarrow> s)
           | _ \<Rightarrow> s)
      | None \<Rightarrow> s)"

text \<open>All files are there: the callback runs.\<close>

definition start_callback :: "op_key \<Rightarrow> 'w client \<Rightarrow> 'w client" where
  "start_callback key s =
     (case dget (transfers s) key of
        Some t \<Rightarrow>
          (case transfer_task t of
             Some (Receiving []) \<Rightarrow>
               let (r, s1) = invoke_action key (transfer_sender t) (transfer_wisp t) (transfer_data t)
                     (expose_uploads (dvalues (transfer_files t))) s
               in set_task key t (Some (Calling r)) s1
           | _ \<Rightarrow> s)
      | None \<Rightarrow> s)"

definition retained_or_indeterminate :: "'w wisp \<Rightarrow> string \<Rightarrow> response \<Rightarrow> jdict" where
  "retained_or_indeterminate w operation_id r =
     (case retained_response_body w r of
        Some body \<Rightarrow> body
      | None \<Rightarrow> operation_status_body w ''indeterminate'' operation_id None)"

definition finish_transfer :: "'k client_env \<Rightarrow> op_key \<Rightarrow> 'w client \<Rightarrow> 'w client" where
  "finish_transfer env key s =
     (case dget (transfers s) key of
        Some t \<Rightarrow>
          (case transfer_task t of
             Some (Calling (Inl e)) \<Rightarrow> fail_transfer env key t e s
           | Some (Calling (Inr r)) \<Rightarrow>
               set_task key t (Some (Answering r))
                 (remember_completed_operation key (retained_or_indeterminate (transfer_wisp t) (snd key) r) s)
           | _ \<Rightarrow> s)
      | None \<Rightarrow> s)"

text \<open>The last step, taken when the relay is ready: delivery is tried, then the transfer ends.\<close>

definition deliver_transfer :: "'k client_env \<Rightarrow> asset_draws \<Rightarrow> op_key \<Rightarrow> 'w client \<Rightarrow> 'w client" where
  "deliver_transfer env rnd key s =
     (case dget (transfers s) key of
        Some t \<Rightarrow>
          (case transfer_task t of
             Some (Reporting body) \<Rightarrow> ending key (attempt (send_session env (transfer_sender t) body)) s
           | Some (Answering r) \<Rightarrow>
               ending key (attempt (send_wisp_response env rnd (transfer_sender t) (transfer_wisp t) r)) s
           | _ \<Rightarrow> s)
      | None \<Rightarrow> s)"

end
