(* ===== verification/ClientDispatch.thy ===== *)
theory ClientDispatch
  imports ClientFiles
begin

text \<open>
  \<open>appserve/client.py\<close>, the event loop and the dispatch of session bodies to the registered Wisps,
  and the runtime as a whole. The loop's coroutine suspends in a callback, so a dispatch is cut
  there: the callback's effect happens when it is started, its outcome is seen when it is done,
  and tasks of file actions and heartbeats may run in between.
\<close>

section \<open>Dispatch\<close>

datatype 'w loop_phase =
    LoopReading
  | LoopState json "'w wisp" "response result"
  | LoopAction json "'w wisp" string "response result"
  | LoopEnded

definition lookup_wisp :: "jdict \<Rightarrow> 'w client \<Rightarrow> 'w wisp option result" where
  "lookup_wisp body s =
     (if \<not> hashable (jget body ''wisp_id'') then Inl TypeError
      else Inr (case jget body ''wisp_id'' of JStr i \<Rightarrow> dget (registered s) i | _ \<Rightarrow> None))"

definition resume_operation :: "'k client_env \<Rightarrow> json \<Rightarrow> 'w wisp \<Rightarrow> string \<Rightarrow> ('w client, unit) act" where
  "resume_operation env sender w operation_id s =
     (let key = (ident sender, operation_id);
          state = (\<lambda>kind. [(''type'', JStr kind), (''operation_id'', JStr operation_id)])
      in case dget (completed_operations s) key of
           Some (_, body) \<Rightarrow> send_session env sender (dsetdefault ''operation'' (JObj (state ''completed'')) body) s
         | None \<Rightarrow>
             send_session env sender (operation_status_body w
               (if dget (transfers s) key \<noteq> None \<or> key \<in> set (active_operations s) then ''running'' else ''expired'')
               operation_id None) s)"

definition begin_error :: "exn \<Rightarrow> bool" where
  "begin_error e \<longleftrightarrow> is_value_error e \<or> e = TypeError \<or> (\<exists>k. e = KeyError k)"

definition file_begin ::
  "'k client_env \<Rightarrow> nat \<Rightarrow> json \<Rightarrow> 'w wisp \<Rightarrow> jdict \<Rightarrow> ('w client, unit) act" where
  "file_begin env directory sender w body =
     (let tid = transfer_id_of body; key = (ident sender, tid)
      in andthen (gets (\<lambda>s. (dget (completed_operations s) key, dget (transfers s) key))) (\<lambda>found.
         case found of
           (Some (_, retained), _) \<Rightarrow> send_session env sender retained
         | (None, Some _) \<Rightarrow> send_session env sender (operation_status_body w ''running'' tid None)
         | (None, None) \<Rightarrow>
             andthen (catch (begin_file_action directory sender w body)
               (\<lambda>e. if begin_error e
                    then andthen (modify (cleanup_transfer key)) (\<lambda>_. ret (transfer_response w
                      [(''type'', JStr ''error''), (''transfer_id'', JStr tid), (''error'', JStr (exn_str env e))]))
                    else throw e)) (\<lambda>response.
             andthen (send_session env sender response) (\<lambda>_.
             modify (\<lambda>s. case dget (transfers s) key of
                 Some t \<Rightarrow> set_task key t (Some (Receiving (dkeys (transfer_files t)))) s
               | None \<Rightarrow> s)))))"

definition operation_id_of :: "jdict \<Rightarrow> string option" where
  "operation_id_of body =
     (case jget body ''operation_id'' of
        JStr i \<Rightarrow> if i = [] \<or> length i > 128 then None else Some i
      | _ \<Rightarrow> None)"

text \<open>
  A mutating action. The retained answer of the same operation is repeated; otherwise the callback
  is started, unless \<open>action_data\<close> is no dictionary, which counts as a failed callback.
\<close>

definition start_action ::
  "'k client_env \<Rightarrow> json \<Rightarrow> 'w wisp \<Rightarrow> jdict \<Rightarrow> ('w client, 'w loop_phase) act" where
  "start_action env sender w body =
     (case operation_id_of body of
        None \<Rightarrow>
          andthen (send_session env sender
            (operation_status_body w ''invalid'' [] (Some ''mutating action requires a stable operation_id'')))
            (\<lambda>_. ret LoopReading)
      | Some i \<Rightarrow>
          let key = (ident sender, i)
          in andthen (gets (\<lambda>s. (dget (completed_operations s) key, key \<in> set (active_operations s)))) (\<lambda>found.
             case found of
               (Some (_, retained), _) \<Rightarrow> andthen (send_session env sender retained) (\<lambda>_. ret LoopReading)
             | (None, True) \<Rightarrow>
                 andthen (send_session env sender (operation_status_body w ''running'' i None)) (\<lambda>_. ret LoopReading)
             | (None, False) \<Rightarrow>
                 andthen (modify (\<lambda>s. s\<lparr>active_operations := key # active_operations s\<rparr>)) (\<lambda>_.
                 case to_dict (dget_or body ''action_data'' (JObj [])) of
                   Inl e \<Rightarrow> ret (LoopAction sender w i (Inl e))
                 | Inr values \<Rightarrow>
                     (\<lambda>s. let (r, t) = invoke_action key sender w values [] s in (Inr (LoopAction sender w i r), t)))))"

definition invoke_state :: "json \<Rightarrow> 'w wisp \<Rightarrow> 'w client \<Rightarrow> response result \<times> 'w client" where
  "invoke_state sender w s = (let (r, u) = wisp_state w sender (world s) in (r, s\<lparr>world := u\<rparr>))"

definition dispatch_session_body ::
  "'k client_env \<Rightarrow> nat \<Rightarrow> json \<Rightarrow> jdict \<Rightarrow> ('w client, 'w loop_phase) act" where
  "dispatch_session_body env directory sender body =
     andthen (modify expire_file_transfers) (\<lambda>_.
     andthen (modify expire_completed_operations) (\<lambda>_.
     andthen (\<lambda>s. (lookup_wisp body s, s)) (\<lambda>found.
     case found of
       None \<Rightarrow> ret LoopReading
     | Some w \<Rightarrow>
         let kind = jget body ''action''
         in if eq_str kind ''operation_resume''
            then andthen (resume_operation env sender w (py_str (dget_or body ''operation_id'' (JStr []))))
                   (\<lambda>_. ret LoopReading)
            else if eq_str kind ''state_request''
            then (\<lambda>s. let (r, t) = invoke_state sender w s in (Inr (LoopState sender w r), t))
            else if eq_str kind ''file_begin''
            then andthen (file_begin env directory sender w body) (\<lambda>_. ret LoopReading)
            else start_action env sender w body)))"

text \<open>The second half, when the callback is done.\<close>

fun finish_dispatch ::
  "'k client_env \<Rightarrow> asset_draws \<Rightarrow> 'w loop_phase \<Rightarrow> ('w client, 'w loop_phase) act" where
  "finish_dispatch env rnd (LoopState sender w r) =
     andthen (liftE r) (\<lambda>response. andthen (send_wisp_response env rnd sender w response) (\<lambda>_. ret LoopReading))"
| "finish_dispatch env rnd (LoopAction sender w i r) =
     (let key = (ident sender, i);
          done' = modify (\<lambda>s. s\<lparr>active_operations := removeAll key (active_operations s)\<rparr>)
      in case r of
           Inl e \<Rightarrow>
             andthen (modify (remember_completed_operation key (operation_status_body w ''indeterminate'' i None))) (\<lambda>_.
             andthen done' (\<lambda>_. throw e))
         | Inr response \<Rightarrow>
             andthen done' (\<lambda>_.
             andthen (case retained_response_body w response of
                        None \<Rightarrow> ret ()
                      | Some body \<Rightarrow> modify (remember_completed_operation key body)) (\<lambda>_.
             andthen (send_wisp_response env rnd sender w response) (\<lambda>_. ret LoopReading))))"
| "finish_dispatch env rnd p = ret p"

section \<open>The event loop\<close>

text \<open>\<open>except ValueError\<close> around the handling of a session frame: the frame is discarded.\<close>

definition discarding :: "('w client, 'w loop_phase) act \<Rightarrow> ('w client, 'w loop_phase) act" where
  "discarding m = catch m (\<lambda>e. if is_value_error e then ret LoopReading else throw e)"

definition answer_ping :: "jdict \<Rightarrow> ('w client, unit) act" where
  "answer_ping message s =
     (case (jget message ''nonce'', writer s) of
        (JStr nonce, Some w) \<Rightarrow>
          if nonce = [] then (Inr (), s) else send_to w [(''type'', JStr ''pong''), (''nonce'', JStr nonce)] s
      | _ \<Rightarrow> (Inr (), s))"

definition loop_message :: "'k client_env \<Rightarrow> sealing \<Rightarrow> nat \<Rightarrow> jdict \<Rightarrow> ('w client, 'w loop_phase) act" where
  "loop_message env rnd directory message =
     (let kind = jget message ''type'' in
      if eq_str kind ''ping'' then andthen (answer_ping message) (\<lambda>_. ret LoopReading)
      else if eq_str kind ''envelope'' then andthen (handle_envelope env rnd message) (\<lambda>_. ret LoopReading)
      else if eq_str kind ''session_envelope''
      then discarding (andthen (open_session_envelope env message) (\<lambda>(sender, body).
             dispatch_session_body env directory sender body))
      else if eq_str kind ''session_reset'' then andthen (handle_session_reset env message) (\<lambda>_. ret LoopReading)
      else ret LoopReading)"

definition loop_read :: "'k client_env \<Rightarrow> sealing \<Rightarrow> nat \<Rightarrow> input \<Rightarrow> ('w client, 'w loop_phase) act" where
  "loop_read env rnd directory i =
     andthen (liftE (read_line i)) (\<lambda>line.
     if line = [] then ret LoopEnded
     else andthen (liftE (bindE (json_loads line) as_dict)) (\<lambda>message. loop_message env rnd directory message))"

definition close_connection :: "'w client \<Rightarrow> 'w client" where
  "close_connection s = s\<lparr>ready_event := False, writer := None\<rparr>"

text \<open>An exception that leaves the loop, like its end, makes \<open>serve\<close> close the connection.\<close>

definition settle :: "'w loop_phase result \<times> 'w client \<Rightarrow> 'w loop_phase \<times> 'w client" where
  "settle rs =
     (case rs of
        (Inr LoopEnded, s) \<Rightarrow> (LoopEnded, close_connection s)
      | (Inr p, s) \<Rightarrow> (p, s)
      | (Inl _, s) \<Rightarrow> (LoopEnded, close_connection s))"

definition close_client :: "'w client \<Rightarrow> 'w client" where
  "close_client s =
     (let s1 = fold (\<lambda>p. cleanup_transfer (fst p)) (transfers s) (close_connection s)
      in s1\<lparr>peer_sessions := [], active_operations := [], transfers := []\<rparr>)"

section \<open>The running runtime\<close>

record 'w runtime =
  client :: "'w client"
  loop :: "'w loop_phase"

datatype 'w happening =
    Arrives input sealing nat
  | CallbackDone asset_draws
  | FileArrives op_key bulk_io
  | FilesComplete op_key
  | FileCallbackDone op_key
  | Delivers op_key asset_draws
  | Beats string
  | Connected conn
  | Passes time
  | Breaks conn
  | Closes
  | Restarts "'w wisp list" 'w bool

definition heartbeat :: "string \<Rightarrow> 'w client \<Rightarrow> 'w client" where
  "heartbeat nonce s =
     (case writer s of
        None \<Rightarrow> s
      | Some w \<Rightarrow> snd (send_to w [(''type'', JStr ''ping''), (''nonce'', JStr nonce)] s))"

text \<open>
  A process starts with its Wisps registered and no connection, on the files that are there: its
  peer store and the temporary directories of earlier processes.
\<close>

definition runtime_start :: "'w wisp list \<Rightarrow> 'w \<Rightarrow> json option \<Rightarrow> nat list \<Rightarrow> time \<Rightarrow> 'w runtime" where
  "runtime_start ws u stored left t0 =
     \<lparr>client = fold register ws (AppserveClient u stored left t0), loop = LoopEnded\<rparr>"

text \<open>
  A fresh directory is one that is not there, a step that may have to wait for the relay is
  taken when it is ready, a new connection follows the end of the loop. A restart kills the
  process anywhere and starts the next one on the same disk; with \<open>--reset-peer-trust\<close> the start
  deletes the peer store first.
\<close>

fun runtime_step :: "'k client_env \<Rightarrow> 'w runtime \<Rightarrow> 'w happening \<Rightarrow> 'w runtime" where
  "runtime_step env s (Arrives i rnd directory) =
     (if loop s = LoopReading \<and> directory \<notin> set (directories (client s))
      then (let (p, t) = settle (loop_read env rnd directory i (client s)) in s\<lparr>client := t, loop := p\<rparr>)
      else s)"
| "runtime_step env s (CallbackDone rnd) =
     (let (p, t) = settle (discarding (finish_dispatch env rnd (loop s)) (client s)) in
      if loop s = LoopReading \<or> loop s = LoopEnded then s else s\<lparr>client := t, loop := p\<rparr>)"
| "runtime_step env s (FileArrives key io) = s\<lparr>client := receive_next env key io (client s)\<rparr>"
| "runtime_step env s (FilesComplete key) = s\<lparr>client := start_callback key (client s)\<rparr>"
| "runtime_step env s (FileCallbackDone key) = s\<lparr>client := finish_transfer env key (client s)\<rparr>"
| "runtime_step env s (Delivers key rnd) =
     (if writer (client s) = None then s else s\<lparr>client := deliver_transfer env rnd key (client s)\<rparr>)"
| "runtime_step env s (Beats nonce) = s\<lparr>client := heartbeat nonce (client s)\<rparr>"
| "runtime_step env s (Connected w) =
     (if loop s = LoopEnded then s\<lparr>client := (client s)\<lparr>ready_event := True, writer := Some w\<rparr>, loop := LoopReading\<rparr>
      else s)"
| "runtime_step env s (Passes d) = s\<lparr>client := (client s)\<lparr>clock := clock (client s) + max 0 d\<rparr>\<rparr>"
| "runtime_step env s (Breaks w) = s\<lparr>client := (client s)\<lparr>broken := w # broken (client s)\<rparr>\<rparr>"
| "runtime_step env s Closes = s\<lparr>client := close_client (client s), loop := LoopEnded\<rparr>"
| "runtime_step env s (Restarts ws u reset) =
     runtime_start ws u (if reset then None else peer_store (client s)) (directories (client s)) (clock (client s))"

definition runtime_run :: "'k client_env \<Rightarrow> 'w runtime \<Rightarrow> 'w happening list \<Rightarrow> 'w runtime" where
  "runtime_run env = foldl (runtime_step env)"

lemma runtime_run_simps [simp]:
  "runtime_run env s [] = s"
  "runtime_run env s (e # es) = runtime_run env (runtime_step env s e) es"
  by (simp_all add: runtime_run_def)

end
