(* ===== verification/ClientOperations.thy ===== *)
theory ClientOperations
  imports ClientDispatch
begin

text \<open>
  What the runtime promises about operations: the answer of an operation is retained for fifteen
  minutes, and as long as it is, the operation is not executed again and a retry is given that
  very answer. While a transfer of the operation waits for the delivery of its answer, its
  expiry may put another answer in the place of the retained one; none is ever taken away.
\<close>

section \<open>Keeping a retained answer\<close>

text \<open>
  A promise about an operation, made at a time: with a body, that exactly this answer of that time is
  retained; without, that some answer is retained which is not older. The first can be given when
  nothing of the operation is under way, the second also while a transfer of it is past its
  callback, or was never started.
\<close>

type_synonym promise = "time \<times> jdict option"

fun meets :: "time \<times> jdict \<Rightarrow> promise \<Rightarrow> bool" where
  "meets a (t, Some reply) \<longleftrightarrow> a = (t, reply)"
| "meets a (t, None) \<longleftrightarrow> t \<le> fst a"

definition receiving :: "'w transfer \<Rightarrow> bool" where
  "receiving t \<longleftrightarrow> (\<exists>todo. transfer_task t = Some (Receiving todo))"

definition transfer_over :: "op_key \<Rightarrow> promise \<Rightarrow> 'w client \<Rightarrow> bool" where
  "transfer_over key e s \<longleftrightarrow> (\<forall>t. dget (transfers s) key = Some t \<longrightarrow> snd e = None \<and> \<not> receiving t)"

definition fresh_answer :: "op_key \<Rightarrow> promise \<Rightarrow> 'w client \<Rightarrow> bool" where
  "fresh_answer key e s \<longleftrightarrow>
     transfer_over key e s \<and> (\<exists>a. dget (completed_operations s) key = Some a \<and> meets a e) \<and>
     wf_dict (completed_operations s) \<and> wf_dict (transfers s) \<and>
     (snd e = None \<longrightarrow> fst e \<le> clock s) \<and> clock s \<le> fst e + COMPLETED_OPERATION_TTL_SECONDS"

lemmas fresh_defs = fresh_answer_def transfer_over_def

lemma receiving_task [simp]: "receiving (t\<lparr>transfer_task := p\<rparr>) \<longleftrightarrow> (\<exists>todo. p = Some (Receiving todo))"
  by (simp add: receiving_def)

lemma meets_time: "meets a e \<Longrightarrow> fst e \<le> fst a"
  by (cases "(a, e)" rule: meets.cases) auto

lemma meets_unexpired: "meets (u, b) e \<Longrightarrow> now \<le> fst e + ttl \<Longrightarrow> now - ttl \<le> u"
  by (drule meets_time) simp

lemma meets_newer [simp]: "snd e = None \<Longrightarrow> meets a e \<longleftrightarrow> fst e \<le> fst a"
  by (cases e) auto

definition runs_of :: "op_key \<Rightarrow> 'w client \<Rightarrow> nat" where
  "runs_of key s = length (filter (\<lambda>k. k = key) (calls s))"

definition keeps_answer :: "op_key \<Rightarrow> promise \<Rightarrow> 'w client \<Rightarrow> 'w client \<Rightarrow> bool" where
  "keeps_answer key e s t \<longleftrightarrow>
     clock t = clock s \<and> (fresh_answer key e s \<longrightarrow> fresh_answer key e t \<and> runs_of key t = runs_of key s)"

interpretation kept: effect_relation "keeps_answer key e" for key e
  by unfold_locales (auto simp: keeps_answer_def)

lemma keeps_answer_frame:
  "clock t = clock s \<Longrightarrow> transfers t = transfers s \<Longrightarrow> completed_operations t = completed_operations s \<Longrightarrow>
     calls t = calls s \<Longrightarrow> keeps_answer key e s t"
  by (simp add: keeps_answer_def fresh_defs runs_of_def)

text \<open>Most operations of the runtime touch none of the four fields.\<close>

definition elsewhere :: "'w client \<Rightarrow> 'w client \<Rightarrow> bool" where
  "elsewhere s t \<longleftrightarrow>
     clock t = clock s \<and> transfers t = transfers s \<and> completed_operations t = completed_operations s \<and>
     calls t = calls s \<and> directories t = directories s"

interpretation elsewhere: effect_relation elsewhere
  by unfold_locales (auto simp: elsewhere_def)

lemma elsewhere_keeps: "stays elsewhere m \<Longrightarrow> stays (keeps_answer key e) m"
  by (auto simp: stays_def elsewhere_def intro!: keeps_answer_frame)

lemma sending_elsewhere:
  "stays elsewhere (send_to w v)"
  "stays elsewhere (send_session env recipient body)"
  "stays elsewhere (send_session_reset env r reason)"
  "stays elsewhere (send_envelope env rnd peer_name body)"
  "stays elsewhere (answer_ping message)"
  "stays elsewhere (remember_peer env peer key)"
  "stays elsewhere (handle_session_reset env message)"
  by (auto simp: stays_def elsewhere_def send_to_def send_session_def send_session_reset_def send_envelope_def
      answer_ping_def remember_peer_def handle_session_reset_def Let_def
      split: option.split sum.split prod.split json.split if_splits)

lemma open_session_elsewhere: "stays elsewhere (open_session env rnd peer body)"
  unfolding open_session_def
  by (auto intro!: elsewhere.stays_rules elsewhere.stays_modify sending_elsewhere simp: elsewhere_def
      split: json.split prod.split)

lemma handle_envelope_elsewhere: "stays elsewhere (handle_envelope env rnd message)"
  unfolding handle_envelope_def
  by (auto intro!: elsewhere.stays_rules sending_elsewhere open_session_elsewhere split: json.split)

lemma open_session_envelope_elsewhere: "stays elsewhere (open_session_envelope env message)"
proof -
  have "stays elsewhere (andthen (send_session_reset env sender ''unknown_session'') (\<lambda>_. throw (ValueError ''unknown session'')))"
    for sender by (intro elsewhere.stays_rules sending_elsewhere)
  then show ?thesis
    unfolding open_session_envelope_def
    by (auto simp: stays_def elsewhere_def Let_def split: option.split json.split prod.split sum.split)
qed

lemma prepare_elsewhere: "stays elsewhere (send_wisp_response env rnd recipient w r)"
  unfolding send_wisp_response_def
  by (auto intro!: elsewhere.stays_rules sending_elsewhere)

lemmas elsewhere_rules = sending_elsewhere open_session_elsewhere handle_envelope_elsewhere
  open_session_envelope_elsewhere prepare_elsewhere

lemma send_session_keeps: "keeps_answer key e s (snd (send_session env recipient body s))"
  by (rule sending_elsewhere(2) [THEN elsewhere_keeps, unfolded stays_def, rule_format])

lemmas kept_rules = kept.stays_rules elsewhere_rules [THEN elsewhere_keeps]

section \<open>The operations that touch the tables\<close>

lemma remember_keeps:
  "snd e = None \<or> key' \<noteq> key \<Longrightarrow> keeps_answer key e s (remember_completed_operation key' body s)"
  by (auto simp: keeps_answer_def fresh_defs runs_of_def remember_completed_operation_def wf_dict_dput)

lemmas remember_other = remember_keeps [OF disjI2]

lemma expire_completed_keeps: "keeps_answer key e s (expire_completed_operations s)"
  by (auto simp: keeps_answer_def fresh_defs runs_of_def expire_completed_operations_def dget_filter
      intro: meets_unexpired)

lemma cleanup_keeps: "keeps_answer key e s (cleanup_transfer key' s)"
  by (auto simp: keeps_answer_def fresh_defs runs_of_def cleanup_transfer_def split: option.split)

lemma cleanups_keep: "keeps_answer key e s (fold (\<lambda>p. cleanup_transfer (fst p)) ps s)"
  by (induction ps arbitrary: s) (auto simp: kept.R_refl intro: kept.R_trans [OF cleanup_keeps])

lemma remembers_keep:
  "snd e = None \<or> (\<forall>p \<in> set ps. fst p \<noteq> key) \<Longrightarrow>
     keeps_answer key e s (fold (\<lambda>p. remember_completed_operation (fst p) (f p)) ps s)"
  by (induction ps arbitrary: s) (auto simp: kept.R_refl intro: kept.R_trans [OF remember_keeps])

lemma folds_clock:
  "clock (fold (\<lambda>p. remember_completed_operation (fst p) (f p)) ps s) = clock s"
  "clock (fold (\<lambda>p. cleanup_transfer (fst p)) qs s) = clock s"
  by (induction ps arbitrary: s; auto simp: remember_completed_operation_def)
     (induction qs arbitrary: s; auto simp: cleanup_transfer_def split: option.split)

lemma expire_transfers_clock: "clock (expire_file_transfers s) = clock s"
  by (simp add: expire_file_transfers_def Let_def folds_clock)

lemma expire_transfers_keeps: "keeps_answer key e s (expire_file_transfers s)"
proof (cases "fresh_answer key e s")
  case True
  then have "snd e = None \<or> dget (transfers s) key = None" by (auto simp: fresh_defs)
  then have "snd e = None \<or> (\<forall>p \<in> set (filter (\<lambda>p. transfer_created (snd p) < c) (transfers s)). fst p \<noteq> key)" for c
    by (force simp: map_of_eq_None_iff)
  from remembers_keep [OF this] show ?thesis
    unfolding expire_file_transfers_def Let_def by (rule kept.R_trans) (rule cleanups_keep)
next
  case False
  with expire_transfers_clock show ?thesis by (auto simp: keeps_answer_def)
qed

lemma invoke_other: "key' \<noteq> key \<Longrightarrow> keeps_answer key e s (snd (invoke_action key' p w values files s))"
  by (auto simp: keeps_answer_def fresh_defs runs_of_def invoke_action_def split: prod.split)

lemma set_task_keeps:
  "key' \<noteq> key \<or> snd e = None \<and> (\<forall>todo. p \<noteq> Some (Receiving todo)) \<Longrightarrow> keeps_answer key e s (set_task key' t p s)"
  by (auto simp: keeps_answer_def fresh_defs runs_of_def set_task_def)

lemma keeps_unless: "(fresh_answer key e s \<Longrightarrow> keeps_answer key e s t) \<Longrightarrow> clock t = clock s \<Longrightarrow> keeps_answer key e s t"
  by (auto simp: keeps_answer_def)

lemma begin_file_action_other:
  "(ident sender, transfer_id_of body) \<noteq> key \<Longrightarrow> stays (keeps_answer key e) (begin_file_action directory sender w body)"
  by (auto simp: stays_def keeps_answer_def fresh_defs runs_of_def begin_file_action_def
      split: sum.split prod.split)

lemma file_begin_other:
  assumes "(ident sender, transfer_id_of body) \<noteq> key"
  shows "stays (keeps_answer key e) (file_begin env directory sender w body)"
proof -
  have "stays (keeps_answer key e) (modify (\<lambda>s. case dget (transfers s) (ident sender, transfer_id_of body) of
      Some t \<Rightarrow> set_task (ident sender, transfer_id_of body) t (Some (Receiving (dkeys (transfer_files t)))) s | None \<Rightarrow> s))"
    using assms by (auto simp: stays_def kept.R_refl intro!: set_task_keeps split: option.split)
  moreover have "stays (keeps_answer key e) (modify (cleanup_transfer k))" for k
    by (rule kept.stays_modify) (rule cleanup_keeps)
  ultimately show ?thesis
    unfolding file_begin_def Let_def
    by (auto intro!: kept_rules begin_file_action_other assms split: option.split prod.split)
qed

lemma start_action_other:
  assumes "\<And>i. operation_id_of body = Some i \<Longrightarrow> (ident sender, i) \<noteq> key"
  shows "stays (keeps_answer key e) (start_action env sender w body)"
proof -
  have "stays (keeps_answer key e) (\<lambda>s. let (r, t) = invoke_action k p w vs files s in (Inr (f r), t))" if "k \<noteq> key" for k p vs files f
    unfolding stays_def Let_def by (simp add: case_prod_beta invoke_other [OF that])
  moreover have "stays (keeps_answer key e) (modify (\<lambda>s. s\<lparr>active_operations := k # active_operations s\<rparr>))" for k
    by (rule kept.stays_modify) (rule keeps_answer_frame; simp)
  ultimately show ?thesis
    using assms unfolding start_action_def Let_def
    by (auto intro!: kept_rules split: option.split prod.split bool.split sum.split)
qed

text \<open>An operation that is answered already: it is looked up before anything else is done.\<close>

lemma file_begin_answered:
  "dget (completed_operations s) (ident sender, transfer_id_of body) = Some (t0, b) \<Longrightarrow>
     file_begin env directory sender w body s = send_session env sender b s"
  by (simp add: file_begin_def Let_def)

lemma start_action_answered:
  "operation_id_of body = Some i \<Longrightarrow> dget (completed_operations s) (ident sender, i) = Some (t0, b) \<Longrightarrow>
     start_action env sender w body s = andthen (send_session env sender b) (\<lambda>_. ret LoopReading) s"
  by (simp add: start_action_def Let_def)

lemma file_begin_keeps: "stays (keeps_answer key e) (file_begin env directory sender w body)"
  unfolding stays_def
proof
  fix s
  let ?t = "snd (file_begin env directory sender w body s)" and ?k = "(ident sender, transfer_id_of body)"
  show "keeps_answer key e s ?t"
  proof (cases "?k = key")
    case True
    show ?thesis
    proof (rule keeps_unless)
      assume "fresh_answer key e s"
      then obtain u b where "dget (completed_operations s) key = Some (u, b)" by (auto simp: fresh_answer_def)
      with True have "?t = snd (send_session env sender b s)" by (simp add: file_begin_answered)
      with send_session_keeps show "keeps_answer key e s ?t" by simp
    next
      show "clock ?t = clock s"
        using file_begin_other [of sender body "(ident sender, ''x'' @ transfer_id_of body)" e env directory w]
        by (simp add: stays_def keeps_answer_def)
    qed
  next
    case False
    then show ?thesis by (rule file_begin_other [unfolded stays_def, rule_format])
  qed
qed

lemma send_session_then: "keeps_answer key e s (snd (andthen (send_session env r b) (\<lambda>_. ret x) s))"
  by (rule stays_at) (intro kept_rules)

lemma start_action_keeps:
  "keeps_answer key e s (snd (start_action env sender w body s)) \<and>
   (fresh_answer key e s \<and> fst (start_action env sender w body s) = Inr (LoopAction p v i r) \<longrightarrow> (ident p, i) \<noteq> key)"
proof (cases "\<exists>i. operation_id_of body = Some i \<and> (ident sender, i) = key")
  case True
  then obtain j where j: "operation_id_of body = Some j" "(ident sender, j) = key" by blast
  have kept: "keeps_answer key e s (snd (start_action env sender w body s)) \<and>
      fst (start_action env sender w body s) \<noteq> Inr (LoopAction p v i r)" if fresh: "fresh_answer key e s"
  proof -
    obtain t0 b where "dget (completed_operations s) key = Some (t0, b)" using fresh by (auto simp: fresh_answer_def)
    with j have "start_action env sender w body s = andthen (send_session env sender b) (\<lambda>_. ret LoopReading) s"
      by (intro start_action_answered [of body j s sender t0]) simp_all
    then show ?thesis
      by (simp add: send_session_then) (simp add: andthen_def split: prod.split sum.split)
  qed
  have "operation_id_of body = Some i \<Longrightarrow> (ident sender, i) \<noteq> (ident sender, ''x'' @ j)" for i using j by auto
  from start_action_other [OF this, where e = e and env = env and w = w]
  have "clock (snd (start_action env sender w body s)) = clock s" by (simp add: stays_def keeps_answer_def)
  with kept show ?thesis by (auto simp: keeps_answer_def)
next
  case False
  then have "stays (keeps_answer key e) (start_action env sender w body)"
    by (intro start_action_other) auto
  moreover have "(ident p, i) \<noteq> key" if "fst (start_action env sender w body s) = Inr (LoopAction p v i r)"
    using that False
    by (auto simp: start_action_def Let_def andthen_def split: option.splits prod.splits sum.splits bool.splits)
  ultimately show ?thesis by (auto simp: stays_def)
qed

text \<open>The answer survives a whole dispatch, and no dispatch starts a callback for the operation.\<close>

definition no_callback :: "op_key \<Rightarrow> 'w loop_phase result \<Rightarrow> bool" where
  "no_callback key r \<longleftrightarrow> (\<forall>p v i x. r = Inr (LoopAction p v i x) \<longrightarrow> (ident p, i) \<noteq> key)"

definition answer_stays :: "op_key \<Rightarrow> promise \<Rightarrow> 'w client \<Rightarrow> 'w loop_phase result \<times> 'w client \<Rightarrow> bool" where
  "answer_stays key e s rt \<longleftrightarrow> keeps_answer key e s (snd rt) \<and> (fresh_answer key e s \<longrightarrow> no_callback key (fst rt))"

lemma answer_stays_quiet:
  assumes "stays (keeps_answer key e) m" and "\<And>r t. m s = (r, t) \<Longrightarrow> no_callback key r"
  shows "answer_stays key e s (m s)"
  using assms by (cases "m s") (auto simp: answer_stays_def stays_def dest: spec [of _ s])

lemma then_reading: "andthen m (\<lambda>_. ret LoopReading) s = (r, t) \<Longrightarrow> no_callback key r"
  by (auto simp: andthen_def no_callback_def split: prod.splits sum.splits)

lemma answer_stays_after:
  assumes "keeps_answer key e s u" and "answer_stays key e u rt"
  shows "answer_stays key e s rt"
  using assms kept.R_trans [OF assms(1)] by (auto simp: answer_stays_def keeps_answer_def)

text \<open>The dispatch of a body to the Wisp it names, after the expiry of old transfers and answers.\<close>

abbreviation handle_body ::
  "'k client_env \<Rightarrow> nat \<Rightarrow> json \<Rightarrow> 'w wisp \<Rightarrow> jdict \<Rightarrow> ('w client, 'w loop_phase) act" where
  "handle_body env directory sender w body \<equiv>
     (if eq_str (jget body ''action'') ''operation_resume''
      then andthen (resume_operation env sender w (py_str (dget_or body ''operation_id'' (JStr [])))) (\<lambda>_. ret LoopReading)
      else if eq_str (jget body ''action'') ''state_request''
      then (\<lambda>s. let (r, t) = invoke_state sender w s in (Inr (LoopState sender w r), t))
      else if eq_str (jget body ''action'') ''file_begin''
      then andthen (file_begin env directory sender w body) (\<lambda>_. ret LoopReading)
      else start_action env sender w body)"

lemma dispatch_found:
  assumes "lookup_wisp body (expire_completed_operations (expire_file_transfers s)) = Inr found"
  shows "dispatch_session_body env directory sender body s =
    (case found of None \<Rightarrow> ret LoopReading | Some w \<Rightarrow> handle_body env directory sender w body)
      (expire_completed_operations (expire_file_transfers s))"
  using assms by (simp add: dispatch_session_body_def andthen_def [of "\<lambda>s. (lookup_wisp body s, s)"] Let_def)

lemma dispatch_keeps: "answer_stays key e s (dispatch_session_body env directory sender body s)"
proof -
  let ?u = "expire_completed_operations (expire_file_transfers s)"
  have u: "keeps_answer key e s ?u"
    by (rule kept.R_trans [OF expire_transfers_keeps expire_completed_keeps])
  have "answer_stays key e ?u (dispatch_session_body env directory sender body s)"
  proof (cases "lookup_wisp body ?u")
    case (Inl x)
    then show ?thesis
      by (simp add: dispatch_session_body_def andthen_def answer_stays_def kept.R_refl no_callback_def)
  next
    case (Inr found)
    have run: "dispatch_session_body env directory sender body s =
        (case found of None \<Rightarrow> ret LoopReading | Some w \<Rightarrow> handle_body env directory sender w body) ?u"
      using Inr by (rule dispatch_found)
    show ?thesis
    proof (cases found)
      case None
      with run show ?thesis by (simp add: answer_stays_def kept.R_refl no_callback_def)
    next
      case (Some w)
      have resume: "stays (keeps_answer key e) (resume_operation env sender w i)" for i
        unfolding stays_def resume_operation_def Let_def
        by (auto intro: send_session_keeps split: option.split)
      have state: "answer_stays key e v (let (r, t) = invoke_state sender w v in (Inr (LoopState sender w r), t))" for v
        by (auto simp: answer_stays_def no_callback_def invoke_state_def split: prod.split
            intro!: keeps_answer_frame)
      show ?thesis
        unfolding run Some option.case
        using state start_action_keeps [of key e ?u env sender w body]
        by (auto simp: answer_stays_def [of _ _ _ "start_action env sender w body ?u"] no_callback_def [of key "fst (start_action env sender w body ?u)"]
            intro!: answer_stays_quiet kept.stays_andthen kept.stays_basic resume file_begin_keeps dest: then_reading)
    qed
  qed
  with u show ?thesis by (rule answer_stays_after)
qed

lemma answer_stays_catch:
  assumes "answer_stays key e s (m s)"
  shows "answer_stays key e s (discarding m s)"
  using assms by (cases "m s") (auto simp: discarding_def catch_def answer_stays_def no_callback_def split: sum.splits)

lemma loop_read_keeps: "answer_stays key e s (loop_read env rnd directory i s)"
proof -
  have frame: "answer_stays key e s (andthen (open_session_envelope env message)
      (\<lambda>(sender, body). dispatch_session_body env directory sender body) s)" for message
  proof -
    obtain r u where m: "open_session_envelope env message s = (r, u)" by force
    have u: "keeps_answer key e s u"
      using stays_at [OF elsewhere_keeps [OF open_session_envelope_elsewhere], of key e s env message] m by simp
    show ?thesis
    proof (cases r)
      case (Inl x)
      with m u show ?thesis by (simp add: andthen_def answer_stays_def no_callback_def)
    next
      case (Inr sb)
      with m answer_stays_after [OF u dispatch_keeps] show ?thesis
        by (cases sb) (simp add: andthen_def)
    qed
  qed
  have quiet: "answer_stays key e s (andthen m (\<lambda>_. ret LoopReading) s)" if "stays elsewhere m"
    for m :: "('a client, unit) act"
  proof (rule answer_stays_quiet)
    show "stays (keeps_answer key e) (andthen m (\<lambda>_. ret LoopReading))"
      using that by (intro kept.stays_andthen kept.stays_basic elsewhere_keeps)
  qed (rule then_reading)
  have loop: "answer_stays key e s (loop_message env rnd directory message s)" for message
    unfolding loop_message_def Let_def
    by (auto intro!: quiet answer_stays_catch frame elsewhere_rules)
       (simp add: answer_stays_def no_callback_def kept.R_refl)
  show ?thesis
  proof (cases "read_line i")
    case (Inl x)
    then show ?thesis by (simp add: loop_read_def answer_stays_def no_callback_def kept.R_refl)
  next
    case (Inr line)
    show ?thesis
      using loop Inr
      by (cases "bindE (json_loads line) as_dict")
         (auto simp: loop_read_def answer_stays_def no_callback_def kept.R_refl)
  qed
qed

section \<open>The runtime's steps\<close>

text \<open>The steps of a transfer's task leave the other operations alone, and do nothing for an operation without one.\<close>

lemma keeps_of_task:
  assumes "\<And>k e'. key' \<noteq> k \<Longrightarrow> keeps_answer k e' s t"
    and "transfer_over key' e s \<Longrightarrow> keeps_answer key' e s t"
  shows "keeps_answer key e s t"
proof (cases "key' = key")
  case True
  have "clock t = clock s"
    using assms(1) [of "(fst key', ''x'' @ snd key')" e] by (cases key') (simp add: keeps_answer_def)
  with True assms(2) show ?thesis by (auto simp: keeps_answer_def fresh_answer_def)
qed (rule assms(1))

lemma fail_transfer_keeps:
  "snd e = None \<or> key' \<noteq> key \<Longrightarrow> keeps_answer key e s (fail_transfer env key' t x s)"
  unfolding fail_transfer_def Let_def by (rule kept.R_trans [OF remember_keeps set_task_keeps]) auto

lemmas fail_transfer_other = fail_transfer_keeps [OF disjI2]

lemma transfer_over_task: "transfer_over key e s \<Longrightarrow> dget (transfers s) key = Some t \<Longrightarrow> transfer_task t \<noteq> Some (Receiving todo)"
  by (auto simp: transfer_over_def receiving_def)

lemma receive_bulk_file_elsewhere: "stays elsewhere (receive_bulk_file env io sender tid f)"
  unfolding receive_bulk_file_def
  by (auto intro!: elsewhere.stays_rules elsewhere_rules split: option.split prod.split)

lemma receive_next_keeps: "keeps_answer key e s (receive_next env key' io s)"
proof (rule keeps_of_task)
  fix k e' assume k: "key' \<noteq> k"
  show "keeps_answer k e' s (receive_next env key' io s)"
  proof -
    have "keeps_answer k e' s u" if "receive_bulk_file env io sender tid f s = (r, u)" for sender tid f r u
      using staysD [OF elsewhere_keeps [OF receive_bulk_file_elsewhere] that] .
    with k show ?thesis
      unfolding receive_next_def
      by (auto simp: kept.R_refl intro: kept.R_trans [OF _ fail_transfer_other] kept.R_trans [OF _ set_task_keeps]
          split: option.split task.split list.split prod.split sum.split)
  qed
next
  assume "transfer_over key' e s"
  then have "receive_next env key' io s = s"
    by (auto simp: receive_next_def dest: transfer_over_task split: option.split task.split)
  then show "keeps_answer key' e s (receive_next env key' io s)" by (simp add: kept.R_refl)
qed

lemma start_callback_keeps: "keeps_answer key e s (start_callback key' s)"
proof (rule keeps_of_task)
  fix k e' assume k: "key' \<noteq> k"
  have "keeps_answer k e' s u" if "invoke_action key' p w vs fs s = (r, u)" for p w vs fs r u
    using invoke_other [OF k, of e' s p w vs fs] that by simp
  with k show "keeps_answer k e' s (start_callback key' s)"
    unfolding start_callback_def Let_def
    by (auto simp: kept.R_refl intro: kept.R_trans [OF _ set_task_keeps]
        split: option.split task.split list.split prod.split)
next
  assume "transfer_over key' e s"
  then have "start_callback key' s = s"
    by (auto simp: start_callback_def dest: transfer_over_task split: option.split task.split)
  then show "keeps_answer key' e s (start_callback key' s)" by (simp add: kept.R_refl)
qed

lemma finish_transfer_keeps: "keeps_answer key e s (finish_transfer env key' s)"
proof -
  have step: "keeps_answer k e' s (finish_transfer env key' s)" if "snd e' = None \<or> key' \<noteq> k" for k e'
    using that unfolding finish_transfer_def
    by (auto simp: kept.R_refl intro: fail_transfer_keeps kept.R_trans [OF remember_keeps set_task_keeps]
        split: option.split task.split sum.split)
  show ?thesis
  proof (rule keeps_of_task)
    assume over: "transfer_over key' e s"
    show "keeps_answer key' e s (finish_transfer env key' s)"
    proof (cases "dget (transfers s) key'")
      case None
      then show ?thesis by (simp add: finish_transfer_def kept.R_refl)
    next
      case (Some t)
      with over have "snd e = None" by (simp add: transfer_over_def)
      then show ?thesis by (intro step) simp
    qed
  qed (simp add: step)
qed

lemma attempt_elsewhere: "stays elsewhere m \<Longrightarrow> stays elsewhere (attempt m)"
  unfolding attempt_def by (intro elsewhere.stays_rules)

lemma ending_keeps: "stays elsewhere m \<Longrightarrow> keeps_answer key e s (ending key' m s)"
  unfolding ending_def by (rule kept.R_trans [OF stays_at [OF elsewhere_keeps] cleanup_keeps])

lemma deliver_transfer_keeps: "keeps_answer key e s (deliver_transfer env rnd key' s)"
  unfolding deliver_transfer_def
  by (auto simp: kept.R_refl intro!: ending_keeps attempt_elsewhere elsewhere_rules
      split: option.split task.split)

lemma heartbeat_elsewhere: "elsewhere s (heartbeat nonce s)"
  by (auto simp: heartbeat_def elsewhere.R_refl intro: stays_at sending_elsewhere split: option.split)

lemma heartbeat_keeps: "keeps_answer key e s (heartbeat nonce s)"
  using heartbeat_elsewhere [of s nonce] by (intro keeps_answer_frame) (simp_all add: elsewhere_def)

lemma close_connection_keeps: "keeps_answer key e s (close_connection s)"
  by (rule keeps_answer_frame) (simp_all add: close_connection_def)

lemma close_client_keeps: "keeps_answer key e s (close_client s)"
proof -
  have "keeps_answer key e u (u\<lparr>peer_sessions := [], active_operations := [], transfers := []\<rparr>)" for u
    by (auto simp: keeps_answer_def fresh_defs runs_of_def)
  then show ?thesis
    unfolding close_client_def Let_def
    by (blast intro: kept.R_trans close_connection_keeps cleanups_keep)
qed

lemma settle_keeps:
  assumes "answer_stays key e s rt" and "settle rt = (p, t)"
  shows "keeps_answer key e s t" and "fresh_answer key e s \<Longrightarrow> no_callback key (Inr p)"
proof -
  obtain r u where rt: "rt = (r, u)" by force
  then have u: "keeps_answer key e s u" "fresh_answer key e s \<Longrightarrow> no_callback key r"
    using assms(1) by (simp_all add: answer_stays_def)
  show "keeps_answer key e s t"
    using assms(2) rt u(1) kept.R_trans [OF u(1) close_connection_keeps]
    by (auto simp: settle_def split: sum.splits loop_phase.splits)
  show "fresh_answer key e s \<Longrightarrow> no_callback key (Inr p)"
    using assms(2) rt u(2)
    by (auto simp: settle_def no_callback_def split: sum.splits loop_phase.splits)
qed

text \<open>Time only passes.\<close>

definition running_other :: "op_key \<Rightarrow> 'w runtime \<Rightarrow> bool" where
  "running_other key s \<longleftrightarrow> no_callback key (Inr (loop s))"

lemma dispatch_end_keeps:
  assumes "snd e = None \<or> running_other key s" and "loop s \<noteq> LoopReading" and "loop s \<noteq> LoopEnded"
  shows "answer_stays key e t (discarding (finish_dispatch env rnd (loop s)) t)"
proof (rule answer_stays_catch, rule answer_stays_quiet)
  have r: "stays (keeps_answer key e) (modify (remember_completed_operation k b))" if "snd e = None \<or> k \<noteq> key" for k b
    by (rule kept.stays_modify) (rule remember_keeps [OF that])
  have d: "stays (keeps_answer key e) (modify (\<lambda>s. s\<lparr>active_operations := f s\<rparr>))" for f
    by (rule kept.stays_modify) (rule keeps_answer_frame; simp)
  show "stays (keeps_answer key e) (finish_dispatch env rnd (loop s))"
    using assms
    by (cases "loop s")
       (auto simp: running_other_def no_callback_def Let_def intro!: kept_rules r d split: sum.split option.split)
next
  fix r u
  assume "finish_dispatch env rnd (loop s) t = (r, u)"
  with assms(2-3) show "no_callback key r"
    by (cases "loop s") (auto simp: no_callback_def Let_def andthen_Inr split: sum.splits)
qed

fun is_restart :: "'w happening \<Rightarrow> bool" where
  "is_restart (Restarts ws u reset) = True"
| "is_restart _ = False"

definition retains :: "op_key \<Rightarrow> promise \<Rightarrow> 'w runtime \<Rightarrow> bool" where
  "retains key e s \<longleftrightarrow> fresh_answer key e (client s) \<and> (snd e = None \<or> running_other key s)"

lemma retains_if:
  "fresh_answer key e s \<Longrightarrow> keeps_answer key e s t \<Longrightarrow> no_callback key (Inr q) \<Longrightarrow>
     retains key e \<lparr>client = t, loop = q\<rparr> \<and> runs_of key t = runs_of key s"
  by (simp add: retains_def running_other_def keeps_answer_def)

lemma quiet_phase [simp]: "no_callback key (Inr LoopReading)" "no_callback key (Inr LoopEnded)"
  by (simp_all add: no_callback_def)

text \<open>Every step but a restart keeps a retained answer that has not timed out.\<close>

lemma step_retains:
  assumes s: "retains key e s" and "\<not> is_restart ev"
    and time: "clock (client (runtime_step env s ev)) \<le> fst e + COMPLETED_OPERATION_TTL_SECONDS"
  shows "retains key e (runtime_step env s ev) \<and> runs_of key (client (runtime_step env s ev)) = runs_of key (client s)"
proof -
  have f: "fresh_answer key e (client s)" and q: "snd e = None \<or> no_callback key (Inr (loop s))"
    using s by (simp_all add: retains_def running_other_def)
  have same: "retains key e (s\<lparr>client := t\<rparr>) \<and> runs_of key t = runs_of key (client s)" if "keeps_answer key e (client s) t" for t
    using that f q by (simp add: retains_def running_other_def keeps_answer_def)
  have moved: "retains key e (s\<lparr>client := t, loop := p\<rparr>) \<and> runs_of key t = runs_of key (client s)"
    if "keeps_answer key e (client s) t" "no_callback key (Inr p)" for t p
    using that f by (simp add: retains_def running_other_def keeps_answer_def)
  show ?thesis
  proof (cases ev)
    case (Arrives i rnd directory)
    obtain p t where pt: "settle (loop_read env rnd directory i (client s)) = (p, t)" by force
    note settle_keeps [OF loop_read_keeps pt, of key e]
    with f have "retains key e (s\<lparr>client := t, loop := p\<rparr>) \<and> runs_of key t = runs_of key (client s)" by (intro moved)
    with Arrives pt s show ?thesis by simp
  next
    case (CallbackDone rnd)
    obtain p t where pt: "settle (discarding (finish_dispatch env rnd (loop s)) (client s)) = (p, t)" by force
    have "retains key e (s\<lparr>client := t, loop := p\<rparr>) \<and> runs_of key t = runs_of key (client s)"
      if "loop s \<noteq> LoopReading" "loop s \<noteq> LoopEnded"
      using settle_keeps [OF dispatch_end_keeps pt, of e key] that f q by (intro moved) (simp_all add: running_other_def)
    with CallbackDone pt s show ?thesis by simp
  next
    case (FileArrives k io)
    with same [OF receive_next_keeps [of key e "client s" env k io]] show ?thesis by simp
  next
    case (FilesComplete k)
    with same [OF start_callback_keeps] show ?thesis by simp
  next
    case (FileCallbackDone k)
    with same [OF finish_transfer_keeps [of key e "client s" env k]] show ?thesis by simp
  next
    case (Delivers k rnd)
    with same [OF deliver_transfer_keeps [of key e "client s" env rnd k]] s show ?thesis by simp
  next
    case (Beats nonce)
    with same [OF heartbeat_keeps] show ?thesis by simp
  next
    case (Connected w)
    have "keeps_answer key e (client s) ((client s)\<lparr>ready_event := True, writer := Some w\<rparr>)"
      by (rule keeps_answer_frame) simp_all
    with Connected moved [OF this, of LoopReading] s show ?thesis by simp
  next
    case (Passes d)
    have "clock (client s) \<le> clock (client s) + max 0 d" by simp
    with Passes time f q show ?thesis
      by (auto simp: retains_def running_other_def fresh_defs runs_of_def intro: order_trans)
  next
    case (Breaks w)
    have "keeps_answer key e (client s) ((client s)\<lparr>broken := w # broken (client s)\<rparr>)"
      by (rule keeps_answer_frame) simp_all
    with Breaks same [OF this] show ?thesis by simp
  next
    case Closes
    with moved [OF close_client_keeps, of LoopEnded] show ?thesis by simp
  next
    case (Restarts ws u reset)
    with assms(2) show ?thesis by simp
  qed
qed

text \<open>Time only passes.\<close>

lemma registers_clock: "clock (fold register ws s) = clock s"
  by (induction ws arbitrary: s) (simp_all add: register_def)

lemma keeps_clock: "keeps_answer key e s t \<Longrightarrow> clock t = clock s"
  by (simp add: keeps_answer_def)

lemma settled_clock:
  "answer_stays key e s rt \<Longrightarrow> clock (snd (settle rt)) = clock s"
  using settle_keeps(1) [of key e s rt] by (cases "settle rt") (simp add: keeps_clock)

lemma step_clock: "clock (client s) \<le> clock (client (runtime_step env s ev))"
proof (cases ev)
  case (Arrives i rnd directory)
  have "clock (snd (settle (loop_read env rnd directory i (client s)))) = clock (client s)"
    by (rule settled_clock) (rule loop_read_keeps)
  with Arrives show ?thesis by (auto split: prod.split)
next
  case (CallbackDone rnd)
  have "clock (snd (settle (discarding (finish_dispatch env rnd (loop s)) (client s)))) = clock (client s)"
    if "loop s \<noteq> LoopReading" "loop s \<noteq> LoopEnded"
  proof -
    have "running_other (case loop s of LoopAction p w i r \<Rightarrow> (ident p, ''x'' @ i) | _ \<Rightarrow> (Nothing, [])) s"
      by (simp add: running_other_def no_callback_def split: loop_phase.split)
    from settled_clock [OF dispatch_end_keeps [OF disjI2 [OF this] that]] show ?thesis .
  qed
  with CallbackDone show ?thesis by (auto split: prod.split)
qed (simp_all add: receive_next_keeps [THEN keeps_clock] start_callback_keeps [THEN keeps_clock]
    finish_transfer_keeps [THEN keeps_clock] deliver_transfer_keeps [THEN keeps_clock] heartbeat_keeps [THEN keeps_clock]
    close_client_keeps [THEN keeps_clock] registers_clock AppserveClient_def runtime_start_def)

lemma run_clock: "clock (client s) \<le> clock (client (runtime_run env s es))"
  by (induction es arbitrary: s) (auto intro: order_trans [OF step_clock])

lemma run_retains:
  assumes "retains key e s" and "\<not> list_ex is_restart es"
    and "clock (client (runtime_run env s es)) \<le> fst e + COMPLETED_OPERATION_TTL_SECONDS"
  shows "retains key e (runtime_run env s es) \<and> runs_of key (client (runtime_run env s es)) = runs_of key (client s)"
  using assms
proof (induction es arbitrary: s)
  case Nil
  then show ?case by simp
next
  case (Cons ev es)
  let ?t = "runtime_step env s ev"
  have "retains key e ?t \<and> runs_of key (client ?t) = runs_of key (client s)"
    using Cons.prems order_trans [OF run_clock [of ?t env es]] by (intro step_retains) auto
  with Cons.IH [of ?t] Cons.prems show ?case by simp
qed

end
