(* ===== verification/ClientTransfers.thy ===== *)
theory ClientTransfers
  imports ClientOperations
begin

text \<open>
  The bounds on file transfers and their directories: what holds of the transfer table in every
  state a runtime reaches, whatever arrives and however the steps of the transfers' tasks, the
  event loop, the connection's losses and the restarts are interleaved.
\<close>

section \<open>The invariant\<close>

definition file_ok :: "string \<Rightarrow> incoming_file \<Rightarrow> bool" where
  "file_ok i f \<longleftrightarrow>
     file_id f = i \<and> i \<noteq> [] \<and> length i \<le> 128 \<and> file_field f \<noteq> [] \<and> length (file_field f) \<le> 128 \<and>
     file_name f \<noteq> [] \<and> length (file_name f) \<le> 512 \<and> length (file_type f) \<le> 128 \<and>
     0 \<le> file_size f \<and> file_size f \<le> MAX_FILE_ACTION_BYTES \<and>
     eq_int (jget (file_bulk f) ''ciphertext_size'') (file_size f + 16)"

definition files_ok :: "(string, incoming_file) dict \<Rightarrow> bool" where
  "files_ok fs \<longleftrightarrow>
     wf_dict fs \<and> fs \<noteq> [] \<and> length fs \<le> MAX_FILES_PER_ACTION \<and> (\<forall>(i, f) \<in> set fs. file_ok i f)"

definition transfer_ok :: "op_key \<Rightarrow> 'w transfer \<Rightarrow> bool" where
  "transfer_ok key t \<longleftrightarrow> ident (transfer_sender t) = fst key \<and> snd key \<noteq> [] \<and> files_ok (transfer_files t)"

text \<open>The directories on disk: those that were there when the process started, and one for each transfer.\<close>

definition directories_ok :: "nat set \<Rightarrow> (op_key, 'w transfer) dict \<Rightarrow> nat list \<Rightarrow> bool" where
  "directories_ok left ts ds \<longleftrightarrow>
     set ds = left \<union> transfer_directory ` set (dvalues ts) \<and>
     left \<inter> transfer_directory ` set (dvalues ts) = {} \<and> distinct (map transfer_directory (dvalues ts))"

definition transfers_ok :: "(op_key, 'w transfer) dict \<Rightarrow> bool" where
  "transfers_ok ts \<longleftrightarrow>
     wf_dict ts \<and> (\<forall>sender. active_for sender ts \<le> MAX_ACTIVE_TRANSFERS_PER_SENDER) \<and>
     reserved_bytes ts \<le> MAX_FILE_ACTION_BYTES \<and> (\<forall>(key, t) \<in> set ts. transfer_ok key t)"

definition client_ok :: "nat set \<Rightarrow> 'w client \<Rightarrow> bool" where
  "client_ok left s \<longleftrightarrow>
     transfers_ok (transfers s) \<and> directories_ok left (transfers s) (directories s) \<and> wf_dict (completed_operations s)"

section \<open>Replacing, adding and removing a transfer\<close>

lemma map_dput_same: "dget d k = Some v \<Longrightarrow> g (k, v') = g (k, v) \<Longrightarrow> map g (dput k v' d) = map g d"
  by (induction d) auto

text \<open>What the invariant says of a transfer is a function of its plan.\<close>

definition file_plan :: "incoming_file \<Rightarrow> incoming_file" where
  "file_plan f = f\<lparr>file_received := 0, file_data := []\<rparr>"

definition files_plan :: "(string, incoming_file) dict \<Rightarrow> (string, incoming_file) dict" where
  "files_plan = map (\<lambda>p. (fst p, file_plan (snd p)))"

definition transfer_plan :: "'w transfer \<Rightarrow> json \<times> nat \<times> (string, incoming_file) dict" where
  "transfer_plan t = (transfer_sender t, transfer_directory t, files_plan (transfer_files t))"

definition plan :: "(op_key, 'w transfer) dict \<Rightarrow> (op_key, json \<times> nat \<times> (string, incoming_file) dict) dict" where
  "plan = map (\<lambda>p. (fst p, transfer_plan (snd p)))"

definition files_size :: "(string, incoming_file) dict \<Rightarrow> int" where
  "files_size fs = (\<Sum>f \<leftarrow> dvalues fs. file_size f)"

lemma file_plan_simps [simp]:
  "file_size (file_plan f) = file_size f" "file_ok i (file_plan f) = file_ok i f"
  by (simp_all add: file_plan_def file_ok_def)

lemma files_plan_facts [simp]:
  "files_ok (files_plan fs) = files_ok fs" "files_size (files_plan fs) = files_size fs"
  by (auto simp: files_plan_def files_ok_def files_size_def wf_dict_def comp_def split_beta)

lemma plan_eq:
  assumes "plan ts = plan us"
  shows "dkeys ts = dkeys us" and "dvalues (plan ts) = dvalues (plan us)"
  using arg_cong [OF assms, of dkeys] assms by (simp_all add: plan_def comp_def)

lemma transfer_size_eq: "transfer_size t = files_size (transfer_files t)"
  by (simp add: transfer_size_def files_size_def)

lemma plan_views:
  "reserved_bytes ts = (\<Sum>q \<leftarrow> dvalues (plan ts). files_size (snd (snd q)))"
  "map transfer_directory (dvalues ts) = map (\<lambda>q. fst (snd q)) (dvalues (plan ts))"
  by (simp_all add: reserved_bytes_def transfer_size_eq plan_def transfer_plan_def comp_def)

lemma plan_each:
  "(\<forall>(key, t) \<in> set ts. transfer_ok key t) =
     (\<forall>(key, q) \<in> set (plan ts). ident (fst q) = fst key \<and> snd key \<noteq> [] \<and> files_ok (snd (snd q)))"
  by (auto simp: plan_def transfer_plan_def transfer_ok_def)

lemma same_plan:
  assumes "plan us = plan ts"
  shows "transfers_ok us = transfers_ok ts" and "directories_ok left us ds = directories_ok left ts ds"
proof -
  have "wf_dict us = wf_dict ts" "active_for u us = active_for u ts" for u
    using plan_eq(1) [OF assms] by (simp_all only: wf_dict_def active_for_def)
  moreover have "reserved_bytes us = reserved_bytes ts"
    using plan_eq(2) [OF assms] by (simp only: plan_views)
  moreover have "(\<forall>(key, t) \<in> set us. transfer_ok key t) = (\<forall>(key, t) \<in> set ts. transfer_ok key t)"
    by (simp only: plan_each assms)
  ultimately show "transfers_ok us = transfers_ok ts"
    by (simp only: transfers_ok_def)
  have "map transfer_directory (dvalues us) = map transfer_directory (dvalues ts)"
    using plan_eq(2) [OF assms] by (simp only: plan_views)
  then show "directories_ok left us ds = directories_ok left ts ds"
    by (simp add: directories_ok_def flip: set_map)
qed

lemma plan_dput: "dget ts key = Some t \<Longrightarrow> transfer_plan u = transfer_plan t \<Longrightarrow> plan (dput key u ts) = plan ts"
  unfolding plan_def by (rule map_dput_same) simp_all

lemma set_task_ok:
  assumes "client_ok left s" and "dget (transfers s) key = Some t" and "transfer_plan u = transfer_plan t"
  shows "client_ok left (set_task key u p s)"
proof -
  have "plan (dput key (u\<lparr>transfer_task := p\<rparr>) (transfers s)) = plan (transfers s)"
    using assms by (intro plan_dput) (simp_all add: transfer_plan_def)
  from same_plan [OF this] assms(1) show ?thesis by (simp add: client_ok_def set_task_def)
qed

text \<open>Removing a transfer.\<close>

lemma dpop_filter: "dpop k d = filter (\<lambda>p. fst p \<noteq> k) d"
  by (auto simp: AList.delete_eq intro!: filter_cong)

lemma sum_list_filter_le: "(\<And>x. x \<in> set xs \<Longrightarrow> 0 \<le> (f x :: int)) \<Longrightarrow> sum_list (map f (filter P xs)) \<le> sum_list (map f xs)"
  by (induction xs) (auto intro: add_increasing)

lemma transfer_size_nonneg: "transfer_ok key t \<Longrightarrow> 0 \<le> transfer_size t"
  unfolding transfer_size_def by (rule sum_list_nonneg) (auto simp: transfer_ok_def files_ok_def file_ok_def)

lemma reserved_filter: "(\<And>k t. (k, t) \<in> set ts \<Longrightarrow> transfer_ok k t) \<Longrightarrow> reserved_bytes (filter P ts) \<le> reserved_bytes ts"
  unfolding reserved_bytes_def map_map
  by (rule sum_list_filter_le) (metis comp_apply prod.collapse transfer_size_nonneg)

lemma active_filter: "active_for u (filter P ts) \<le> active_for u ts"
  by (induction ts) (auto simp: active_for_def)

lemma filter_ok:
  assumes "transfers_ok ts"
  shows "transfers_ok (filter P ts)"
proof -
  have ok: "\<forall>(k, t) \<in> set ts. transfer_ok k t" and wf: "wf_dict ts"
    and few: "active_for u ts \<le> MAX_ACTIVE_TRANSFERS_PER_SENDER" and size: "reserved_bytes ts \<le> MAX_FILE_ACTION_BYTES" for u
    using assms by (simp_all add: transfers_ok_def)
  have "reserved_bytes (filter P ts) \<le> MAX_FILE_ACTION_BYTES"
    using ok by (intro order_trans [OF reserved_filter size]) fast
  moreover have "active_for u (filter P ts) \<le> MAX_ACTIVE_TRANSFERS_PER_SENDER" for u
    by (rule order_trans [OF active_filter few])
  moreover have "\<forall>(k, t) \<in> set (filter P ts). transfer_ok k t"
    using ok by (simp add: Ball_def)
  ultimately show ?thesis
    using wf by (simp only: transfers_ok_def wf_dict_filter simp_thms)
qed

lemma cleanup_ok:
  assumes s: "client_ok left s"
  shows "client_ok left (cleanup_transfer key s)" and "set (directories (cleanup_transfer key s)) \<subseteq> set (directories s)"
proof -
  show "client_ok left (cleanup_transfer key s)"
  proof (cases "dget (transfers s) key")
    case None
    with s show ?thesis by (simp add: cleanup_transfer_def)
  next
    case (Some t)
    let ?us = "dpop key (transfers s)"
    have ts: "transfers_ok (transfers s)" "directories_ok left (transfers s) (directories s)"
      using s by (simp_all add: client_ok_def)
    have i: "inj_on (\<lambda>p. transfer_directory (snd p)) (set (transfers s))"
      using ts by (simp add: directories_ok_def distinct_map comp_def)
    have t: "(key, t) \<in> set (transfers s)" using Some by (rule map_of_SomeD)
    have "transfer_directory (snd p) \<noteq> transfer_directory t \<longleftrightarrow> fst p \<noteq> key" if "p \<in> set (transfers s)" for p
    proof
      assume d: "transfer_directory (snd p) \<noteq> transfer_directory t"
      show "fst p \<noteq> key"
      proof
        assume k: "fst p = key"
        from that have "(key, snd p) \<in> set (transfers s)" by (simp flip: k)
        with ts(1) Some d show False by (simp add: transfers_ok_def wf_dict_dget)
      qed
    next
      assume "fst p \<noteq> key"
      then show "transfer_directory (snd p) \<noteq> transfer_directory t"
        using inj_onD [OF i _ that t] by auto
    qed
    moreover have "transfer_directory t \<notin> left"
      using ts(2) t by (force simp: directories_ok_def)
    ultimately have "{d \<in> set (directories s). d \<noteq> transfer_directory t} = left \<union> (\<lambda>p. transfer_directory (snd p)) ` set ?us"
      using ts(2) by (auto simp: directories_ok_def dpop_filter image_image)
    moreover have "left \<inter> (\<lambda>p. transfer_directory (snd p)) ` set ?us = {}"
      using ts(2) by (auto simp: directories_ok_def dpop_filter image_image)
    moreover have "distinct (map transfer_directory (dvalues ?us))"
      using ts(2) by (simp add: directories_ok_def dpop_filter comp_def distinct_map_filter)
    ultimately have "directories_ok left ?us (filter (\<lambda>d. d \<noteq> transfer_directory t) (directories s))"
      by (simp add: directories_ok_def image_image)
    with s Some filter_ok [OF ts(1)] show ?thesis
      by (simp add: cleanup_transfer_def client_ok_def dpop_filter)
  qed
qed (auto simp: cleanup_transfer_def split: option.split)

text \<open>Adding a transfer.\<close>

lemma dput_new: "dget d k = None \<Longrightarrow> dput k v d = d @ [(k, v)]"
  by (induction d) (auto split: if_splits)

lemma files_size_nonneg: "\<forall>(i, f) \<in> set fs. file_ok i f \<Longrightarrow> 0 \<le> files_size fs"
  by (induction fs) (auto simp: files_size_def file_ok_def)

lemma add_manifests_ok:
  assumes "add_manifests reserved ms taken files = Inr fs"
    and "\<forall>(i, f) \<in> set files. file_ok i f" "wf_dict files" "taken = files_size files"
    and "0 \<le> reserved" "reserved + taken \<le> MAX_FILE_ACTION_BYTES"
  shows "(\<forall>(i, f) \<in> set fs. file_ok i f) \<and> wf_dict fs \<and> length fs = length files + length ms \<and>
         reserved + files_size fs \<le> MAX_FILE_ACTION_BYTES"
  using assms
proof (induction reserved ms taken files rule: add_manifests.induct)
  case (1 reserved taken files)
  then show ?case by simp
next
  case (2 reserved m ms taken files)
  then obtain f bulk where f: "manifest_fields files m = Inr f" and b: "manifest_bulk m (file_size f) = Inr bulk"
    and size: "reserved + (taken + file_size f) \<le> MAX_FILE_ACTION_BYTES"
    and rest: "add_manifests reserved ms (taken + file_size f) (dput (file_id f) (f\<lparr>file_bulk := bulk\<rparr>) files) = Inr fs"
    by (auto simp: bindE_eq_Inr split: if_splits)
  from f have new: "dget files (file_id f) = None" and nonneg: "0 \<le> file_size f"
    by (auto simp: manifest_fields_def Let_def split: json.splits if_splits)
  have "0 \<le> taken"
    using "2.prems"(2,4) by (simp add: files_size_nonneg)
  then have "file_size f \<le> MAX_FILE_ACTION_BYTES"
    using size "2.prems"(5) by linarith
  then have "file_ok (file_id f) (f\<lparr>file_bulk := bulk\<rparr>)"
    using f b by (auto simp: file_ok_def manifest_fields_def manifest_bulk_def Let_def split: json.splits if_splits)
  then show ?case
    using "2.IH" [OF _ rest] size new nonneg "2.prems"
    by (simp add: dput_new files_size_def wf_dict_def map_of_eq_None_iff)
qed simp_all

lemma file_action_request_ok:
  assumes "file_action_request sender body s = Inr (ms, d)"
  shows "transfer_id_of body \<noteq> []" "ms \<noteq> []" "length ms \<le> MAX_FILES_PER_ACTION"
    "dget (transfers s) (ident sender, transfer_id_of body) = None"
    "active_for sender (transfers s) < MAX_ACTIVE_TRANSFERS_PER_SENDER"
  using assms by (auto simp: file_action_request_def split: json.splits if_splits)

lemma reserved_nonneg: "\<forall>(k, t) \<in> set ts. transfer_ok k t \<Longrightarrow> 0 \<le> reserved_bytes ts"
  by (induction ts) (auto simp: reserved_bytes_def dest: transfer_size_nonneg)

lemma begin_file_action_ok:
  assumes s: "client_ok left s" and fresh: "directory \<notin> set (directories s)"
  shows "client_ok left (snd (begin_file_action directory sender w body s))"
proof (cases "file_action_request sender body s")
  case (Inl e)
  with s show ?thesis by (simp add: begin_file_action_def)
next
  case (Inr md)
  obtain ms d where req: "file_action_request sender body s = Inr (ms, d)" using Inr by (cases md) simp
  note req_ok = file_action_request_ok [OF req]
  show ?thesis
  proof (cases "add_manifests (reserved_bytes (transfers s)) ms 0 []")
    case (Inl e)
    with s req show ?thesis by (simp add: begin_file_action_def)
  next
    case (Inr fs)
    have ts: "transfers_ok (transfers s)" using s by (simp add: client_ok_def)
    have fs: "\<forall>(i, f) \<in> set fs. file_ok i f" "wf_dict fs" "length fs = length ms"
      "reserved_bytes (transfers s) + files_size fs \<le> MAX_FILE_ACTION_BYTES"
      using add_manifests_ok [OF Inr] reserved_nonneg [of "transfers s"] ts by (simp_all add: transfers_ok_def files_size_def)
    define t :: "'a transfer" where "t = \<lparr>transfer_sender = sender, transfer_wisp = w,
      transfer_data = map (\<lambda>p. (JStr (fst p), snd p)) d, transfer_directory = directory, transfer_files = fs,
      transfer_created = clock s, transfer_task = None\<rparr>"
    let ?key = "(ident sender, transfer_id_of body)"
    have us: "dput ?key t (transfers s) = transfers s @ [(?key, t)]"
      by (rule dput_new) (rule req_ok(4))
    have "files_ok fs" using fs req_ok(2,3) by (auto simp: files_ok_def)
    then have "transfer_ok ?key t" using req_ok(1) by (simp add: transfer_ok_def t_def)
    moreover have "active_for u (transfers s @ [(?key, t)]) \<le> MAX_ACTIVE_TRANSFERS_PER_SENDER" for u
      using ts req_ok(5) by (cases "ident u = ident sender") (simp_all add: transfers_ok_def active_for_def)
    ultimately have "transfers_ok (dput ?key t (transfers s))"
      using ts fs(4) wf_dict_dput [of "transfers s" ?key t]
      unfolding us by (simp add: transfers_ok_def reserved_bytes_def transfer_size_eq t_def)
    moreover have "directories_ok left (dput ?key t (transfers s)) (directory # directories s)"
      using s fresh unfolding us by (auto simp: client_ok_def directories_ok_def t_def)
    ultimately show ?thesis
      using s req Inr by (simp add: begin_file_action_def client_ok_def t_def)
  qed
qed

section \<open>Every step keeps the invariant\<close>

definition room_for :: "nat set \<Rightarrow> nat \<Rightarrow> 'w client \<Rightarrow> bool" where
  "room_for left directory s \<longleftrightarrow> client_ok left s \<and> directory \<notin> set (directories s)"

lemma ok_frame:
  "transfers t = transfers s \<Longrightarrow> directories t = directories s \<Longrightarrow> completed_operations t = completed_operations s \<Longrightarrow>
     client_ok left t = client_ok left s"
  by (simp add: client_ok_def)

lemma elsewhere_keeps_ok: "stays elsewhere m \<Longrightarrow> stays (keeping (client_ok left)) m" "stays elsewhere m \<Longrightarrow> stays (keeping (room_for left d)) m"
  by (auto simp: stays_def keeping_def elsewhere_def client_ok_def room_for_def)

lemma remember_client_ok: "client_ok left s \<Longrightarrow> client_ok left (remember_completed_operation key b s)"
  by (auto simp: client_ok_def remember_completed_operation_def)

lemma remember_directories [simp]: "directories (remember_completed_operation key b s) = directories s"
  "transfers (remember_completed_operation key b s) = transfers s"
  by (simp_all add: remember_completed_operation_def)

lemma cleanups_ok:
  "client_ok left s \<Longrightarrow> client_ok left (fold (\<lambda>p. cleanup_transfer (fst p)) ps s) \<and>
     set (directories (fold (\<lambda>p. cleanup_transfer (fst p)) ps s)) \<subseteq> set (directories s)"
proof (induction ps arbitrary: s)
  case Nil
  then show ?case by simp
next
  case (Cons p ps)
  from Cons.IH [OF cleanup_ok(1) [OF Cons.prems, of "fst p"]] cleanup_ok(2) [OF Cons.prems, of "fst p"] show ?case
    by (simp, blast)
qed

lemma remembers_ok:
  "client_ok left s \<Longrightarrow> client_ok left (fold (\<lambda>p. remember_completed_operation (fst p) (f p)) ps s) \<and>
     directories (fold (\<lambda>p. remember_completed_operation (fst p) (f p)) ps s) = directories s"
  by (induction ps arbitrary: s) (simp_all add: remember_client_ok)

lemma expire_transfers_ok: "room_for left d s \<Longrightarrow> room_for left d (expire_file_transfers s)"
proof -
  assume s: "room_for left d s"
  let ?expired = "filter (\<lambda>p. transfer_created (snd p) < clock s - FILE_TRANSFER_TIMEOUT_SECONDS) (transfers s)"
  let ?u = "fold (\<lambda>p. remember_completed_operation (fst p)
    (operation_status_body (transfer_wisp (snd p)) ''indeterminate'' (snd (fst p)) None)) ?expired s"
  have "client_ok left ?u \<and> directories ?u = directories s"
    by (rule remembers_ok) (use s in \<open>simp add: room_for_def\<close>)
  with cleanups_ok [of left ?u ?expired] s show ?thesis
    unfolding room_for_def expire_file_transfers_def Let_def by auto
qed

lemma expire_completed_ok: "room_for left d s \<Longrightarrow> room_for left d (expire_completed_operations s)"
  by (simp add: room_for_def client_ok_def expire_completed_operations_def)

lemma invoke_ok: "client_ok left (snd (invoke_action key p w vs fs s)) = client_ok left s" "client_ok left (snd (invoke_state sender w s)) = client_ok left s"
  by (simp_all add: invoke_action_def invoke_state_def client_ok_def split: prod.split)

text \<open>An operation that leads from a state with room for the new directory to one in which the invariant holds.\<close>

definition settles :: "nat set \<Rightarrow> nat \<Rightarrow> ('w client, 'a) act \<Rightarrow> bool" where
  "settles left d m \<longleftrightarrow> (\<forall>s. room_for left d s \<longrightarrow> client_ok left (snd (m s)))"

lemma settles_quiet: "stays (keeping (client_ok left)) m \<Longrightarrow> settles left d m"
  by (simp add: settles_def stays_def keeping_def room_for_def)

lemma settles_first:
  fixes m :: "('w client, 'a) act"
  assumes "stays (keeping (room_for left d)) m" and "\<And>x. settles left d (f x)"
  shows "settles left d (andthen m f)"
  unfolding settles_def
proof (intro allI impI)
  fix s :: "'w client"
  assume "room_for left d s"
  moreover obtain r t where m: "m s = (r, t)" by force
  ultimately have "room_for left d t"
    using staysD [OF assms(1) m] by (simp add: keeping_def)
  with m assms(2) show "client_ok left (snd (andthen m f s))"
    by (cases r) (auto simp: andthen_def settles_def room_for_def)
qed

lemma settles_last:
  fixes m :: "('w client, 'a) act"
  assumes "settles left d m" and "\<And>x. stays (keeping (client_ok left)) (f x)"
  shows "settles left d (andthen m f)"
  unfolding settles_def
proof (intro allI impI)
  fix s :: "'w client"
  assume s: "room_for left d s"
  obtain r t where m: "m s = (r, t)" by force
  with assms(1) s have "client_ok left t" by (auto simp: settles_def)
  with m assms(2) show "client_ok left (snd (andthen m f s))"
    by (cases r) (auto simp: andthen_def stays_def keeping_def)
qed

lemma settles_catch:
  fixes m :: "('w client, 'a) act"
  assumes "settles left d m" and "\<And>e. stays (keeping (client_ok left)) (h e)"
  shows "settles left d (catch m h)"
  unfolding settles_def
proof (intro allI impI)
  fix s :: "'w client"
  assume s: "room_for left d s"
  obtain r t where m: "m s = (r, t)" by force
  with assms(1) s have "client_ok left t" by (auto simp: settles_def)
  with m assms(2) show "client_ok left (snd (catch m h s))"
    by (cases r) (auto simp: catch_def stays_def keeping_def)
qed

lemmas ok_rules = keeping.stays_rules elsewhere_rules [THEN elsewhere_keeps_ok(1)]

lemma cleanup_stays: "stays (keeping (client_ok left)) (modify (cleanup_transfer key))"
  by (rule keeping.stays_modify) (simp add: keeping_def cleanup_ok)

lemma start_receiving_ok:
  "stays (keeping (client_ok left)) (modify (\<lambda>s. case dget (transfers s) key of
      Some t \<Rightarrow> set_task key t (p t) s | None \<Rightarrow> s))"
  by (rule keeping.stays_modify) (auto simp: keeping_def intro: set_task_ok split: option.split)

lemma file_begin_settles: "settles left d (file_begin env d sender w body)"
  unfolding file_begin_def Let_def
proof (rule settles_first)
  fix found :: "(time \<times> jdict) option \<times> 'a transfer option"
  let ?key = "(ident sender, transfer_id_of body)"
  have "settles left d (begin_file_action d sender w body)"
    by (simp add: settles_def room_for_def begin_file_action_ok)
  then have "settles left d (andthen (catch (begin_file_action d sender w body)
      (\<lambda>e. if begin_error e
           then andthen (modify (cleanup_transfer ?key)) (\<lambda>_. ret (transfer_response w
             [(''type'', JStr ''error''), (''transfer_id'', JStr (transfer_id_of body)), (''error'', JStr (exn_str env e))]))
           else throw e)) (\<lambda>response.
      andthen (send_session env sender response) (\<lambda>_.
      modify (\<lambda>s. case dget (transfers s) ?key of
          Some t \<Rightarrow> set_task ?key t (Some (Receiving (dkeys (transfer_files t)))) s | None \<Rightarrow> s))))"
    by (intro settles_last settles_catch ok_rules cleanup_stays start_receiving_ok)
  then show "settles left d (case found of
      (Some (_, retained), _) \<Rightarrow> send_session env sender retained
    | (None, Some _) \<Rightarrow> send_session env sender (operation_status_body w ''running'' (transfer_id_of body) None)
    | (None, None) \<Rightarrow>
        andthen (catch (begin_file_action d sender w body)
          (\<lambda>e. if begin_error e
               then andthen (modify (cleanup_transfer ?key)) (\<lambda>_. ret (transfer_response w
                 [(''type'', JStr ''error''), (''transfer_id'', JStr (transfer_id_of body)), (''error'', JStr (exn_str env e))]))
               else throw e)) (\<lambda>response.
        andthen (send_session env sender response) (\<lambda>_.
        modify (\<lambda>s. case dget (transfers s) ?key of
            Some t \<Rightarrow> set_task ?key t (Some (Receiving (dkeys (transfer_files t)))) s | None \<Rightarrow> s))))"
    by (auto intro!: settles_quiet ok_rules split: option.split prod.split)
qed (rule keeping.stays_basic)

lemma start_action_ok: "stays (keeping (client_ok left)) (start_action env sender w body)"
proof -
  have "stays (keeping (client_ok left)) (\<lambda>s. let (r, t) = invoke_action k p w vs fs s in (Inr (f r), t))" for k p vs fs f
    by (simp add: stays_def keeping_def case_prod_beta invoke_ok)
  moreover have "stays (keeping (client_ok left)) (modify (\<lambda>s. s\<lparr>active_operations := k # active_operations s\<rparr>))" for k
    by (rule keeping.stays_modify) (simp add: keeping_def client_ok_def)
  ultimately show ?thesis
    unfolding start_action_def Let_def
    by (auto intro!: ok_rules split: option.split prod.split bool.split sum.split)
qed

lemma resume_elsewhere: "stays elsewhere (resume_operation env sender w i)"
  unfolding stays_def resume_operation_def Let_def
  by (auto intro: stays_at [OF sending_elsewhere(2)] split: option.split)

lemma dispatch_settles: "settles left d (dispatch_session_body env d sender body :: ('w client, 'w loop_phase) act)"
proof -
  have e: "stays (keeping (room_for left d)) (modify expire_file_transfers)" "stays (keeping (room_for left d)) (modify expire_completed_operations)"
    by (rule keeping.stays_modify, simp add: keeping_def expire_transfers_ok expire_completed_ok)+
  have resume: "settles left d (andthen (resume_operation env sender w i) (\<lambda>_. ret LoopReading))" for w :: "'w wisp" and i
    by (intro settles_quiet keeping.stays_andthen keeping.stays_basic resume_elsewhere [THEN elsewhere_keeps_ok(1)])
  have state: "settles left d (\<lambda>s. let (r, t) = invoke_state sender w s in (Inr (LoopState sender w r), t))" for w :: "'w wisp"
    by (rule settles_quiet) (simp add: stays_def keeping_def case_prod_beta invoke_ok)
  have files: "settles left d (andthen (file_begin env d sender w body) (\<lambda>_. ret LoopReading))" for w :: "'w wisp"
    by (intro settles_last file_begin_settles keeping.stays_basic)
  have action: "settles left d (start_action env sender w body)" for w :: "'w wisp"
    by (intro settles_quiet start_action_ok)
  have none: "settles left d (ret x :: ('w client, 'w loop_phase) act)" for x
    by (intro settles_quiet keeping.stays_basic)
  show ?thesis
    unfolding dispatch_session_body_def
    by (intro settles_first e keeping.stays_read) (simp add: Let_def none resume state [unfolded Let_def] files action split: option.split)
qed

lemma loop_read_settles: "settles left d (loop_read env rnd d i :: ('w client, 'w loop_phase) act)"
proof -
  have frame: "settles left d (discarding (andthen (open_session_envelope env message)
      (\<lambda>(sender, body). dispatch_session_body env d sender body)) :: ('w client, 'w loop_phase) act)" for message
    unfolding discarding_def
    by (intro settles_catch settles_first elsewhere_keeps_ok(2) open_session_envelope_elsewhere keeping.stays_if keeping.stays_basic)
       (simp add: dispatch_settles split: prod.split)
  have quiet: "settles left d (andthen m (\<lambda>_. ret LoopReading))" if "stays elsewhere m" for m :: "('w client, unit) act"
    by (intro settles_quiet keeping.stays_andthen keeping.stays_basic elsewhere_keeps_ok that)
  have none: "settles left d (ret x :: ('w client, 'w loop_phase) act)" for x
    by (intro settles_quiet keeping.stays_basic)
  have "settles left d (loop_message env rnd d message :: ('w client, 'w loop_phase) act)" for message
    unfolding loop_message_def Let_def by (auto intro!: quiet frame none elsewhere_rules)
  then show ?thesis
    unfolding loop_read_def
    by (intro settles_first keeping.stays_basic) (auto intro!: none settles_first keeping.stays_basic)
qed

lemma finish_dispatch_ok: "stays (keeping (client_ok left)) (finish_dispatch env rnd p)"
proof -
  have "stays (keeping (client_ok left)) (modify (remember_completed_operation k b))" for k b
    by (rule keeping.stays_modify) (simp add: keeping_def remember_client_ok)
  moreover have "stays (keeping (client_ok left)) (modify (\<lambda>s. s\<lparr>active_operations := f s\<rparr>))" for f
    by (rule keeping.stays_modify) (simp add: keeping_def client_ok_def)
  ultimately show ?thesis
    by (cases p) (auto simp: Let_def intro!: ok_rules split: sum.split option.split)
qed

lemma settle_ok: "client_ok left (snd rt) \<Longrightarrow> client_ok left (snd (settle rt))"
  by (cases rt) (auto simp: settle_def close_connection_def client_ok_def split: sum.split loop_phase.split)

text \<open>The steps of the transfers' tasks.\<close>

lemma fail_transfer_ok:
  "client_ok left s \<Longrightarrow> dget (transfers s) key = Some t \<Longrightarrow> client_ok left (fail_transfer env key t e s)"
  by (simp add: fail_transfer_def Let_def set_task_ok remember_client_ok)

lemma elsewhere_transfers: "elsewhere s t \<Longrightarrow> transfers t = transfers s \<and> (client_ok left s \<longrightarrow> client_ok left t)"
  by (simp add: elsewhere_def client_ok_def)

lemma received_plan:
  "receive_bulk_file env io sender tid f s = (Inr f', u) \<Longrightarrow> file_plan f' = file_plan f"
  by (auto simp: receive_bulk_file_def andthen_Inr file_plan_def split: if_splits option.splits prod.splits)

lemma receive_next_ok: "client_ok left s \<Longrightarrow> client_ok left (receive_next env key io s)"
proof -
  assume s: "client_ok left s"
  have "client_ok left (case receive_bulk_file env io (transfer_sender t) (snd key) f s of
      (Inl e, s1) \<Rightarrow> fail_transfer env key t e s1
    | (Inr f', s1) \<Rightarrow> set_task key (t\<lparr>transfer_files := dput fid f' (transfer_files t)\<rparr>) (Some (Receiving rest)) s1)"
    if t: "dget (transfers s) key = Some t" and f: "dget (transfer_files t) fid = Some f" for t fid rest f
  proof -
    obtain r u where r: "receive_bulk_file env io (transfer_sender t) (snd key) f s = (r, u)" by force
    from staysD [OF receive_bulk_file_elsewhere r] s t have u: "client_ok left u" "dget (transfers u) key = Some t"
      by (simp_all add: elsewhere_transfers)
    show ?thesis
    proof (cases r)
      case (Inl e)
      with r u show ?thesis by (simp add: fail_transfer_ok)
    next
      case (Inr f')
      have "files_plan (dput fid f' (transfer_files t)) = files_plan (transfer_files t)"
        unfolding files_plan_def using f received_plan [of env io "transfer_sender t" "snd key" f s f' u] r Inr
        by (intro map_dput_same) simp_all
      then have "transfer_plan (t\<lparr>transfer_files := dput fid f' (transfer_files t)\<rparr>) = transfer_plan t"
        by (simp add: transfer_plan_def)
      with r Inr u show ?thesis by (simp add: set_task_ok)
    qed
  qed
  with s show ?thesis by (simp add: receive_next_def split: option.split task.split list.split)
qed

lemma start_callback_ok: "client_ok left s \<Longrightarrow> client_ok left (start_callback key s)"
  by (auto simp: start_callback_def invoke_action_def intro!: set_task_ok
      split: option.split task.split list.split prod.split) (simp_all add: client_ok_def)

lemma finish_transfer_ok: "client_ok left s \<Longrightarrow> client_ok left (finish_transfer env key s)"
  by (auto simp: finish_transfer_def intro!: set_task_ok fail_transfer_ok remember_client_ok
      split: option.split task.split sum.split)

lemma ending_ok: "stays elsewhere m \<Longrightarrow> client_ok left s \<Longrightarrow> client_ok left (ending key m s)"
  unfolding ending_def by (rule cleanup_ok(1)) (auto dest: stays_at elsewhere_transfers)

lemma deliver_transfer_ok: "client_ok left s \<Longrightarrow> client_ok left (deliver_transfer env rnd key s)"
  unfolding deliver_transfer_def
  by (auto intro!: ending_ok attempt_elsewhere elsewhere_rules split: option.split task.split)

lemma heartbeat_ok: "client_ok left s \<Longrightarrow> client_ok left (heartbeat nonce s)"
  using elsewhere_transfers [OF heartbeat_elsewhere] by blast

lemma close_client_ok: "client_ok left s \<Longrightarrow> client_ok left (close_client s)"
proof -
  assume s: "client_ok left s"
  let ?u = "fold (\<lambda>p. cleanup_transfer (fst p)) (transfers s) (close_connection s)"
  have gone: "dget (transfers (fold (\<lambda>p. cleanup_transfer (fst p)) ps v)) k = None"
    if "k \<in> set (dkeys ps) \<or> dget (transfers v) k = None" for k and ps :: "(op_key \<times> 'b) list" and v :: "'a client"
    using that
  proof (induction ps arbitrary: v)
    case (Cons p ps)
    then show ?case by (auto simp: cleanup_transfer_def split: option.split)
  qed simp
  have "client_ok left (close_connection s)"
    using s by (simp add: client_ok_def close_connection_def)
  from cleanups_ok [OF this, of "transfers s"] have u: "client_ok left ?u" ..
  have "dget (transfers ?u) k = None" for k
    by (rule gone) (auto simp: close_connection_def map_of_eq_None_iff)
  then have "transfers ?u = []"
    by (metis list.set_intros(1) map_of_eq_None_iff neq_Nil_conv prod.collapse map_of_Cons_code(2) option.distinct(1))
  with u show ?thesis
    by (simp add: close_client_def Let_def client_ok_def)
qed

lemma start_ok: "client_ok (set left) (client (runtime_start ws u stored left t0))"
proof -
  have "client_ok (set left) (fold register ws s) = client_ok (set left) s" for s
    by (induction ws arbitrary: s) (simp_all add: register_def client_ok_def)
  then show ?thesis
    by (simp add: runtime_start_def AppserveClient_def client_ok_def transfers_ok_def directories_ok_def active_for_def
        reserved_bytes_def MAX_FILE_ACTION_BYTES_def)
qed

lemma runtime_step_ok:
  assumes s: "client_ok left (client s)"
  shows "client_ok (if is_restart ev then set (directories (client s)) else left) (client (runtime_step env s ev))"
proof (cases ev)
  case (Arrives i rnd d)
  have "client_ok left (snd (settle (loop_read env rnd d i (client s))))" if "d \<notin> set (directories (client s))"
    using s that by (intro settle_ok loop_read_settles [unfolded settles_def, rule_format]) (simp add: room_for_def)
  with Arrives s show ?thesis by (auto split: prod.split)
next
  case (CallbackDone rnd)
  have "stays (keeping (client_ok left)) (discarding (finish_dispatch env rnd (loop s)))"
    unfolding discarding_def by (intro keeping.stays_rules finish_dispatch_ok)
  then have "client_ok left (snd (settle (discarding (finish_dispatch env rnd (loop s)) (client s))))"
    using s by (intro settle_ok) (simp add: stays_def keeping_def)
  with CallbackDone s show ?thesis by (auto split: prod.split)
qed (use s in \<open>simp_all add: receive_next_ok start_callback_ok finish_transfer_ok deliver_transfer_ok heartbeat_ok close_client_ok start_ok\<close>,
    simp_all add: client_ok_def)

text \<open>
  The directories that were on disk when the process that runs in the end was started: those given
  to the first process, or what its last restart found. Whatever is there then stays there.
\<close>

fun left_behind :: "'k client_env \<Rightarrow> nat list \<Rightarrow> 'w runtime \<Rightarrow> 'w happening list \<Rightarrow> nat list" where
  "left_behind env left s [] = left"
| "left_behind env left s (e # es) =
     left_behind env (if is_restart e then directories (client s) else left) (runtime_step env s e) es"

lemma runtime_run_ok:
  "client_ok (set left) (client s) \<Longrightarrow>
     client_ok (set (left_behind env left s es)) (client (runtime_run env s es)) \<and> set left \<subseteq> set (left_behind env left s es)"
proof (induction es arbitrary: s left)
  case Nil
  then show ?case by simp
next
  case (Cons e es)
  let ?left = "if is_restart e then directories (client s) else left"
  have "client_ok (set ?left) (client (runtime_step env s e))"
    using runtime_step_ok [OF Cons.prems, of e env] by (simp split: if_splits)
  moreover have "set left \<subseteq> set ?left"
    using Cons.prems by (simp add: client_ok_def directories_ok_def)
  ultimately show ?case using Cons.IH [of ?left "runtime_step env s e"] by auto
qed

text \<open>C4: in every state a runtime reaches, whatever arrives and however the steps and the restarts are
  interleaved, each peer has at most four active transfers, the active transfers together
  announce at most 256 MiB, each has between 1 and 32 files with valid and distinct identifiers and
  the announced sizes. The temporary directories on disk are exactly those of the active
  transfers, one for each, and those that were there when the process now running was started; a
  directory that a process finds there when it starts is never removed.\<close>

theorem transfers_stay_bounded:
  "client_ok (set (left_behind env left (runtime_start ws u stored left t0) es))
     (client (runtime_run env (runtime_start ws u stored left t0) es)) \<and>
   set left \<subseteq> set (directories (client (runtime_run env (runtime_start ws u stored left t0) es)))"
  using runtime_run_ok [OF start_ok, of env left ws u stored t0 es]
  by (auto simp: client_ok_def directories_ok_def)

end
