(* ===== verification/ClientAnswers.thy ===== *)
theory ClientAnswers
  imports ClientTransfers
begin

text \<open>
  The answers of operations: a retained answer is given to every retry and the operation is not
  executed again; an answer with assets is neither sent nor retained.
\<close>

section \<open>At most once\<close>

text \<open>C2: from a state with the invariant \<open>client_ok\<close> of all reachable states in which an answer of an
  operation is retained, recorded by then, and no file of a transfer with its id is still to be
  received, the operation is not executed again until fifteen minutes after the answer was
  recorded, whatever messages, callbacks, transfers, expiries, connection losses and
  reconnections follow, as long as the process is not restarted; and all that time some answer
  not older than this one is retained for it. It is this very answer if moreover no transfer
  with its id is open and no callback runs for it; otherwise the transfer's expiry or the end of
  that callback may put theirs in its place.\<close>

theorem answered_operation_not_repeated:
  assumes "client_ok left (client s)"
    and "dget (completed_operations (client s)) key = Some (t, reply)" and "t \<le> clock (client s)"
    and "\<And>x todo. dget (transfers (client s)) key = Some x \<Longrightarrow> transfer_task x \<noteq> Some (Receiving todo)"
    and "\<not> list_ex is_restart es"
    and "clock (client (runtime_run env s es)) \<le> t + COMPLETED_OPERATION_TTL_SECONDS"
  shows "runs_of key (client (runtime_run env s es)) = runs_of key (client s) \<and>
         (\<exists>t' reply'. dget (completed_operations (client (runtime_run env s es))) key = Some (t', reply') \<and> t \<le> t' \<and>
            (dget (transfers (client s)) key = None \<and>
             (\<forall>p w i r. loop s = LoopAction p w i r \<longrightarrow> (ident p, i) \<noteq> key) \<longrightarrow> t' = t \<and> reply' = reply))"
proof -
  have now: "clock (client s) \<le> t + COMPLETED_OPERATION_TTL_SECONDS"
    using assms(6) order_trans [OF run_clock [of s env es]] by blast
  have some: "retains key (t, None) s"
    using assms(1-4) now by (auto simp: retains_def fresh_defs receiving_def client_ok_def transfers_ok_def)
  have exact: "retains key (t, Some reply) s"
    if "dget (transfers (client s)) key = None" "\<forall>p w i r. loop s = LoopAction p w i r \<longrightarrow> (ident p, i) \<noteq> key"
    using assms(1-3) now that
    by (auto simp: retains_def fresh_defs running_other_def no_callback_def client_ok_def transfers_ok_def)
  from run_retains [OF some assms(5), of env] run_retains [OF exact assms(5), of env] assms(6) show ?thesis
    by (auto simp: retains_def fresh_answer_def)
qed

section \<open>A retry\<close>

text \<open>The request is for operation \<open>i\<close>: a file action by its transfer id, any other by its operation id.\<close>

definition names_operation :: "jdict \<Rightarrow> string \<Rightarrow> bool" where
  "names_operation body i \<longleftrightarrow>
     (if eq_str (jget body ''action'') ''file_begin'' then transfer_id_of body = i
      else operation_id_of body = Some i \<and> \<not> eq_str (jget body ''action'') ''operation_resume'' \<and>
           \<not> eq_str (jget body ''action'') ''state_request'')"

lemma eq_str_unique: "eq_str v a \<Longrightarrow> eq_str v b \<Longrightarrow> a = b"
  by (cases v) (simp_all add: eq_str_def)

definition unmoved :: "'w client \<Rightarrow> 'w client \<Rightarrow> bool" where
  "unmoved s t \<longleftrightarrow>
     world t = world s \<and> registered t = registered s \<and> peer_sessions t = peer_sessions s \<and> writer t = writer s \<and>
     broken t = broken s \<and> sent t = sent s \<and> calls t = calls s \<and> clock t = clock s"

lemma cleanup_unmoved: "unmoved s (cleanup_transfer k s)"
  by (simp add: unmoved_def cleanup_transfer_def split: option.split)

lemma remember_unmoved: "unmoved s (remember_completed_operation k b s)"
  by (simp add: unmoved_def remember_completed_operation_def)

lemma unmoved_trans: "unmoved s t \<Longrightarrow> unmoved t v \<Longrightarrow> unmoved s v"
  by (simp add: unmoved_def)

lemma fold_unmoved: "(\<And>x s. unmoved s (f x s)) \<Longrightarrow> unmoved s (fold f xs s)"
  by (induction xs arbitrary: s) (simp add: unmoved_def, auto intro: unmoved_trans)

lemma expired_unmoved: "unmoved s (expire_completed_operations (expire_file_transfers s))"
proof -
  have "unmoved s (expire_file_transfers s)"
    unfolding expire_file_transfers_def Let_def
    by (rule unmoved_trans [OF fold_unmoved fold_unmoved]) (rule remember_unmoved cleanup_unmoved)+
  then show ?thesis
    by (rule unmoved_trans) (simp add: unmoved_def expire_completed_operations_def)
qed

text \<open>C10: as long as the answer of an operation is retained, a retry of it (a repeated request, or a
  repeated announcement of its files) is answered with exactly that body in a fresh frame of the
  peer's session, and neither a callback nor a transfer is started for it.\<close>

theorem retry_gets_the_retained_answer:
  assumes "client_ok left s"
    and "jget body ''wisp_id'' = JStr wid" and "dget (registered s) wid = Some w"
    and "names_operation body i"
    and "dget (completed_operations s) (ident p, i) = Some (t, reply)"
    and "clock s \<le> t + COMPLETED_OPERATION_TTL_SECONDS"
    and "dget (transfers s) (ident p, i) = None"
    and "writer s = Some c" and "c \<notin> set (broken s)"
    and "dget (peer_sessions s) (ident p) = Some session"
    and "encrypt (lib_aead env) session reply (clock s) = (Inr f, session')"
  shows "\<exists>v. dispatch_session_body env d p body s = (Inr LoopReading, v) \<and> sent v = sent s @ [(c, f)] \<and>
             world v = world s \<and> calls v = calls s \<and> dget (transfers v) (ident p, i) = None"
proof -
  let ?u = "expire_completed_operations (expire_file_transfers s)"
  have "fresh_answer (ident p, i) (t, Some reply) s"
    using assms(1,5-7) by (simp add: fresh_defs client_ok_def transfers_ok_def)
  then have u: "fresh_answer (ident p, i) (t, Some reply) ?u"
    using kept.R_trans [OF expire_transfers_keeps expire_completed_keeps, of "(ident p, i)" "(t, Some reply)" s]
    by (simp add: keeps_answer_def)
  have m: "unmoved s ?u" by (rule expired_unmoved)
  have sends: "send_session env p reply ?u =
      (Inr (), ?u\<lparr>peer_sessions := dput (ident p) session' (peer_sessions ?u), sent := sent s @ [(c, f)]\<rparr>)"
    using m assms(8-11) by (simp add: send_session_def send_to_def unmoved_def)
  have "lookup_wisp body ?u = Inr (Some w)"
    using assms(2,3) m by (simp add: lookup_wisp_def unmoved_def)
  from dispatch_found [OF this, of env d p]
  have "dispatch_session_body env d p body s = handle_body env d p w body ?u" by simp
  also have "\<dots> = andthen (send_session env p reply) (\<lambda>_. ret LoopReading) ?u"
  proof (cases "eq_str (jget body ''action'') ''file_begin''")
    case True
    then have "\<not> eq_str (jget body ''action'') ''operation_resume''" "\<not> eq_str (jget body ''action'') ''state_request''"
      using eq_str_unique by fastforce+
    with True assms(4) u show ?thesis
      by (simp add: names_operation_def fresh_defs andthen_def file_begin_answered)
  next
    case False
    with assms(4) u show ?thesis
      by (simp add: names_operation_def fresh_defs start_action_answered)
  qed
  finally have run: "dispatch_session_body env d p body s = andthen (send_session env p reply) (\<lambda>_. ret LoopReading) ?u" .
  show ?thesis
    unfolding run using m u sends by (simp add: andthen_def unmoved_def fresh_defs)
qed

section \<open>Answers with assets\<close>

lemma asset_response_raises: "assets_of r \<noteq> [] \<Longrightarrow> \<exists>e. send_wisp_response env rnd p w r s = (Inl e, s)"
  by (auto simp: send_wisp_response_def andthen_def split: sum.split)

text \<open>The answer of an action that carries assets is never sent and never retained: the dispatch
  ends in an exception that leaves nothing of the operation but the effect of its callback, so a
  retry of the same operation executes the callback a second time.\<close>

theorem asset_answers_are_lost:
  assumes "assets_of r \<noteq> []"
    and "operation_id_of body = Some i" and "to_dict (dget_or body ''action_data'' (JObj [])) = Inr values'"
    and "dget (completed_operations s) (ident p, i) = None"
  shows "\<exists>e v. finish_dispatch env rnd (LoopAction p w i (Inr r)) s = (Inl e, v) \<and> sent v = sent s \<and>
     dget (completed_operations v) (ident p, i) = None \<and>
     runs_of (ident p, i) (snd (start_action env p w body v)) = Suc (runs_of (ident p, i) s)"
proof -
  let ?v = "s\<lparr>active_operations := removeAll (ident p, i) (active_operations s)\<rparr>"
  obtain e where "send_wisp_response env rnd p w r ?v = (Inl e, ?v)"
    using asset_response_raises [OF assms(1)] by metis
  then have "finish_dispatch env rnd (LoopAction p w i (Inr r)) s = (Inl e, ?v)"
    using assms(1) by (simp add: Let_def retained_response_body_def andthen_def [of "send_wisp_response env rnd p w r"])
  moreover have "runs_of (ident p, i) (snd (start_action env p w body ?v)) = Suc (runs_of (ident p, i) s)"
    using assms(2-4) by (simp add: start_action_def Let_def invoke_action_def runs_of_def split: prod.split)
  ultimately show ?thesis
    using assms(4) by (intro exI [of _ e] exI [of _ ?v]) simp
qed

section \<open>Witnesses\<close>

definition demo_client_env :: "bytes client_env" where
  "demo_client_env = \<lparr>lib_rsa = demo_rsa, lib_aead = demo_aead, lib_hkdf = (\<lambda>k salt label. replicate 32 0), lib_hmac = (\<lambda>k m. []),
     own_key = [9], own_id = ''wisp'', store_peers = True, exn_text = (\<lambda>e. [])\<rparr>"

definition demo_prime :: "nat wisp" where
  "demo_prime = \<lparr>wisp_id = ''prime'', wisp_name = ''Prime'', wisp_description = [],
     wisp_state = (\<lambda>sender n. (Inr (Plain []), n)), wisp_action = (\<lambda>values files sender n. (Inr (Plain []), Suc n))\<rparr>"

definition demo_answered :: "nat client" where
  "demo_answered = (AppserveClient 0 None [] 0)\<lparr>registered := [(''prime'', demo_prime)], writer := Some 3,
     peer_sessions := [(Text ''android'', demo_wisp)],
     completed_operations := [((Text ''android'', ''op''), (0, [(''wisp_id'', JStr ''prime'')]))]\<rparr>"

definition demo_retry :: jdict where
  "demo_retry = [(''wisp_id'', JStr ''prime''), (''action'', JStr ''check''), (''operation_id'', JStr ''op'')]"

lemma demo_answered_ok: "client_ok {} demo_answered"
  by (simp add: demo_answered_def client_ok_def transfers_ok_def directories_ok_def active_for_def reserved_bytes_def
      AppserveClient_def MAX_FILE_ACTION_BYTES_def wf_dict_def)

lemma answered_operation_not_repeated_witness:
  "runs_of (Text ''android'', ''op'') (client (runtime_run demo_client_env \<lparr>client = demo_answered, loop = LoopReading\<rparr>
       [Passes 60, Beats ''n'', Closes, Connected 4, Passes 600])) = 0 \<and>
   dget (completed_operations (client (runtime_run demo_client_env \<lparr>client = demo_answered, loop = LoopReading\<rparr>
       [Passes 60, Beats ''n'', Closes, Connected 4, Passes 600]))) (Text ''android'', ''op'')
     = Some (0, [(''wisp_id'', JStr ''prime'')])"
proof -
  have t: "clock (client (runtime_run demo_client_env \<lparr>client = demo_answered, loop = LoopReading\<rparr>
      [Passes 60, Beats ''n'', Closes, Connected 4, Passes 600])) \<le> 0 + COMPLETED_OPERATION_TTL_SECONDS"
    by (simp add: demo_answered_def AppserveClient_def COMPLETED_OPERATION_TTL_SECONDS_def heartbeat_def send_to_def
        close_client_def close_connection_def Let_def)
  have c: "dget (completed_operations demo_answered) (Text ''android'', ''op'') = Some (0, [(''wisp_id'', JStr ''prime'')])"
    and n: "dget (transfers demo_answered) (Text ''android'', ''op'') = None" "calls demo_answered = []" "clock demo_answered = 0"
    by (simp_all add: demo_answered_def AppserveClient_def)
  show ?thesis
    using answered_operation_not_repeated [where s = "\<lparr>client = demo_answered, loop = LoopReading\<rparr>"
        and key = "(Text ''android'', ''op'')", OF _ _ _ _ _ t] c n demo_answered_ok
    by (simp add: runs_of_def)
qed

lemma demo_reply:
  "encrypt demo_aead demo_wisp [(''wisp_id'', JStr ''prime'')] 0 =
     (Inr (frame demo_aead demo_wisp [(''wisp_id'', JStr ''prime'')] 0), demo_wisp\<lparr>send_sequence := 1\<rparr>)"
  by (simp add: encrypt_eq) (simp add: demo_sessions live_def SESSION_LIFETIME_SECONDS_def)

lemma retry_gets_the_retained_answer_witness:
  "\<exists>v. dispatch_session_body demo_client_env 0 (JStr ''android'') demo_retry demo_answered = (Inr LoopReading, v) \<and>
     sent v = sent demo_answered @ [(3, frame demo_aead demo_wisp [(''wisp_id'', JStr ''prime'')] 0)] \<and>
     world v = world demo_answered \<and> calls v = calls demo_answered \<and> dget (transfers v) (Text ''android'', ''op'') = None"
proof (rule retry_gets_the_retained_answer [where p = "JStr ''android''", unfolded ident_simps,
    OF demo_answered_ok, where w = demo_prime and t = 0])
  show "encrypt (lib_aead demo_client_env) demo_wisp [(''wisp_id'', JStr ''prime'')] (clock demo_answered) =
      (Inr (frame demo_aead demo_wisp [(''wisp_id'', JStr ''prime'')] 0), demo_wisp\<lparr>send_sequence := 1\<rparr>)"
    using demo_reply by (simp add: demo_client_env_def demo_answered_def AppserveClient_def)
qed (simp_all add: demo_answered_def demo_retry_def AppserveClient_def names_operation_def operation_id_of_def
    COMPLETED_OPERATION_TTL_SECONDS_def eq_str_def jget_def dget_or_def)

lemma asset_answers_are_lost_witness:
  "\<exists>e v. finish_dispatch demo_client_env \<lparr>draw_transfer = ''t'', draw_nonces = [replicate 12 0]\<rparr>
       (LoopAction (JStr ''android'') demo_prime ''op2''
         (Inr (WispResponse ''<p>'' [\<lparr>asset_id = ''a'', asset_name = ''a'', asset_type = ''text/plain'', asset_size = JInt 1,
            asset_content = [1]\<rparr>] ''text/html''))) demo_answered = (Inl e, v) \<and>
     sent v = sent demo_answered \<and> dget (completed_operations v) (Text ''android'', ''op2'') = None \<and>
     runs_of (Text ''android'', ''op2'') (snd (start_action demo_client_env (JStr ''android'') demo_prime
       [(''wisp_id'', JStr ''prime''), (''action'', JStr ''check''), (''operation_id'', JStr ''op2'')] v))
       = Suc (runs_of (Text ''android'', ''op2'') demo_answered)"
  by (rule asset_answers_are_lost [where p = "JStr ''android''" and values' = "[]", unfolded ident_simps])
     (simp_all add: demo_answered_def AppserveClient_def operation_id_of_def to_dict_def jget_def dget_or_def)

end
