(* ===== verification/ClientTrust.thy ===== *)
theory ClientTrust
  imports ClientAnswers
begin

text \<open>
  Trust and the handshake of the Wisp runtime: a genuine \<open>session_init\<close> envelope leaves paired
  sessions on both sides, and the key a peer was first seen with is kept for good, in memory and,
  unless a peer whose name is not text has spoilt the peer store before, on disk.
\<close>

section \<open>The handshake\<close>

text \<open>What the other side seals to open a session.\<close>

definition session_init :: "string \<Rightarrow> string \<Rightarrow> bytes \<Rightarrow> jdict" where
  "session_init sid challenge master =
     [(''type'', JStr ''session_init''), (''session_id'', JStr sid), (''challenge'', JStr challenge),
      (''master_secret'', JStr (b64u master))]"

lemma init_fields [simp]:
  "jget (session_init sid challenge master) ''type'' = JStr ''session_init''"
  "jget (session_init sid challenge master) ''session_id'' = JStr sid"
  "jget (session_init sid challenge master) ''challenge'' = JStr challenge"
  "jget (session_init sid challenge master) ''master_secret'' = JStr (b64u master)"
  "wf_json (JObj (session_init sid challenge master))"
  by (simp_all add: session_init_def jget_def dget_or_def wf_dict_def)

lemma accept_wf [simp]: "wf_json (JObj (accept_message sid challenge token))"
  by (simp add: accept_message_def wf_dict_def)

lemma b64u_nonempty: "bs \<noteq> [] \<Longrightarrow> b64u bs \<noteq> []"
  by (metis b64u_inject b64u_def list.map(1) sextets.simps(1))

lemma send_envelope_sends:
  assumes "rsa_correct (lib_rsa env) k" and "kget (peer_keys s) (JStr peer) = Some (public_key_text (lib_rsa env) k)"
    and "public_key_text (lib_rsa env) k \<noteq> []" and "writer s = Some w" and "w \<notin> set (broken s)" and "length (seal_key rnd) = 32"
  shows "\<exists>reply. send_envelope env rnd peer body s = (Inr (), s\<lparr>sent := sent s @ [(w, reply)]\<rparr>) \<and>
    genuine (lib_rsa env) (lib_aead env) (seal_key rnd) (seal_iv rnd) (seal_seed rnd) (seal_salt rnd) (own_id env) peer
      (seal_message_id rnd) body (JStr (public_key_text (lib_rsa env) k)) (own_key env) False reply"
proof -
  obtain reply where "encrypt_envelope (lib_rsa env) (lib_aead env) (seal_key rnd) (seal_iv rnd) (seal_seed rnd) (seal_salt rnd)
      (own_id env) peer (seal_message_id rnd) body (JStr (public_key_text (lib_rsa env) k)) (own_key env) False = Inr reply"
    using encrypt_envelope_total [OF assms(1,6)] by blast
  with assms(2-5) encrypt_envelope_genuine [OF this] show ?thesis
    by (auto simp: send_envelope_def send_to_def known_key_def)
qed

section \<open>The peer store\<close>

lemma dget_insert_sorted:
  assumes "\<forall>p \<in> set (x # xs). is_str (fst p)"
  shows "dget (insert_sorted (\<lambda>p. case fst p of JStr t \<Rightarrow> t | _ \<Rightarrow> []) x xs) k = dget (x # xs) k"
  using assms
proof (induction xs)
  case (Cons y ys)
  have "\<not> str_less t t" for t by (induction t) simp_all
  with Cons show ?case by (cases x; cases y) (auto elim!: is_strE)
qed (cases x, simp)

lemma sorted_names:
  assumes "\<forall>p \<in> set ks. is_str (fst p)"
  shows "\<exists>xs. py_sorted fst ks = Inr xs \<and> set xs = set ks \<and> (\<forall>k. dget xs k = dget ks k)"
proof -
  let ?f = "\<lambda>p :: json \<times> 'a. case fst p of JStr t \<Rightarrow> t | _ \<Rightarrow> []"
  have s: "set (insert_sorted f x ys) = insert x (set ys)" for f and x :: "json \<times> 'a" and ys
    by (induction ys) auto
  have "set (sort_by_key ?f ks) = set ks \<and> (\<forall>k. dget (sort_by_key ?f ks) k = dget ks k)"
    using assms
  proof (induction ks)
    case (Cons x xs)
    then have "set (sort_by_key ?f xs) = set xs" "dget (sort_by_key ?f xs) k = dget xs k" for k by auto
    with Cons.prems dget_insert_sorted [of x "sort_by_key ?f xs"] show ?case
      by (cases x) (auto simp: sort_by_key_def s)
  qed (simp add: sort_by_key_def)
  with assms show ?thesis by (auto simp: py_sorted_def)
qed

text \<open>As long as all names are text the store can be written, and is read back as it was.\<close>

lemma store_text:
  assumes "\<forall>p \<in> set ks. is_str (fst p)"
  shows "\<exists>document. store_document ks = Inr document \<and> (\<forall>k. dget (load_peers (Some document)) k = dget ks k)"
proof -
  obtain xs where xs: "py_sorted fst ks = Inr xs" "set xs = set ks" "\<And>k. dget xs k = dget ks k"
    using sorted_names [OF assms] by blast
  have "map (\<lambda>p. (JStr (key_text (fst p)), snd p)) xs = xs"
    using assms xs(2) by (intro map_idI) (auto elim!: is_strE)
  with xs show ?thesis
    by (simp add: store_document_def load_peers_def comp_def)
qed

text \<open>A store with a name that is text was written from names that are all text.\<close>

lemma stored_text:
  assumes "store_document ks = Inr document" and "(JStr p, key) \<in> set ks"
  shows "\<forall>q \<in> set ks. is_str (fst q)"
proof -
  obtain xs where "py_sorted fst ks = Inr xs" using assms(1) by (auto simp: store_document_def bindE_eq_Inr)
  moreover have "q = (JStr p, key)" if "length ks \<le> 1" "q \<in> set ks" for q
    using that assms(2) by (cases ks) auto
  ultimately show ?thesis
    using assms(2) by (force simp: py_sorted_def split: if_splits)
qed

lemma kput_names: "fst ` set t \<subseteq> fst ` set (kput k v t)" and kput_key: "\<exists>q \<in> set (kput k v t). key_eq (fst q) k"
  by (induction k v t rule: kput.induct) (auto split: if_splits)

lemma remember_known:
  "kget (peer_keys s) peer = Some key \<Longrightarrow> key \<noteq> [] \<Longrightarrow> remember_peer env peer key s = (Inr (), s)"
  by (simp add: remember_peer_def known_key_def)

lemma remember_new:
  assumes "kget (peer_keys s) (JStr peer) = None" and "\<forall>p \<in> set (peer_keys s). is_str (fst p)"
  shows "\<exists>store. remember_peer env (JStr peer) key s =
    (Inr (), s\<lparr>peer_keys := kput (JStr peer) key (peer_keys s), peer_store := store\<rparr>)"
proof -
  have "\<forall>p \<in> set (kput (JStr peer) key (peer_keys s)). is_str (fst p)"
    using assms(2) by (auto dest!: set_kput)
  from store_text [OF this] obtain document where "store_document (kput (JStr peer) key (peer_keys s)) = Inr document" by blast
  with assms(1) show ?thesis
    by (intro exI [of _ "if store_peers env then Some document else peer_store s"])
       (simp add: remember_peer_def known_key_def Let_def)
qed

section \<open>The acceptance\<close>

text \<open>C6: the handshake completes: a \<open>session_init\<close> that an endpoint seals to the Wisp, with its key
  pinned already or advertised on first use, makes the Wisp record the key, install a session that
  pairs with the one the endpoint derives from the same master secret, and send back an envelope
  that opens at the endpoint to the acceptance with the right proof. A new key has to be written
  to the peer store, which is possible while the recorded peers all have text for a name.\<close>

theorem handshake_completes:
  assumes "rsa_correct (lib_rsa env) (own_key env)" and "rsa_correct (lib_rsa env) k" and "aead_correct (lib_aead env)"
    and "length content_key = 32" and "length nonce = 12"
    and "length master = 32" and "sid \<noteq> []" and "challenge \<noteq> []"
    and "encrypt_envelope (lib_rsa env) (lib_aead env) content_key nonce seed salt peer (own_id env) mid
           (session_init sid challenge master) (JStr (public_key_text (lib_rsa env) (own_key env))) k advertise = Inr e"
    and "kget (peer_keys s) (JStr peer) = Some (public_key_text (lib_rsa env) k) \<or>
         kget (peer_keys s) (JStr peer) = None \<and> advertise \<and> (\<forall>p \<in> set (peer_keys s). is_str (fst p))"
    and "public_key_text (lib_rsa env) k \<noteq> []" and "public_key_text (lib_rsa env) (own_key env) \<noteq> []"
    and "writer s = Some w" and "w \<notin> set (broken s)"
    and "length (seal_key rnd) = 32" and "length (seal_iv rnd) = 12"
  shows "\<exists>t reply android_key wisp_key token.
     handle_envelope env rnd e s = (Inr (), t) \<and>
     kget (peer_keys t) (JStr peer) = Some (public_key_text (lib_rsa env) k) \<and>
     derive_session_keys (lib_hkdf env) master sid = Inr (android_key, wisp_key) \<and>
     peer_sessions t = dput (Text peer) (new_peer_session sid (own_id env) (JStr peer) android_key wisp_key (clock s) False)
       (peer_sessions s) \<and>
     paired (new_peer_session sid peer (JStr (own_id env)) android_key wisp_key t0 True)
            (new_peer_session sid (own_id env) (JStr peer) android_key wisp_key (clock s) False) \<and>
     session_accept_proof (lib_hkdf env) (lib_hmac env) master sid challenge peer (own_id env) = Inr token \<and>
     sent t = sent s @ [(w, reply)] \<and>
     decrypt_envelope (lib_rsa env) (lib_aead env) reply k (Some (public_key_text (lib_rsa env) (own_key env)))
       = Inr (accept_message sid challenge token, JStr (public_key_text (lib_rsa env) (own_key env)))"
proof -
  let ?r = "lib_rsa env" and ?key = "public_key_text (lib_rsa env) k"
  define ak where "ak = lib_hkdf env master (utf8 sid) ANDROID_TO_WISP"
  define wk where "wk = lib_hkdf env master (utf8 sid) WISP_TO_ANDROID"
  have keys: "derive_session_keys (lib_hkdf env) master sid = Inr (ak, wk)"
    using assms(6,7) by (simp add: derive_session_keys_def ak_def wk_def)
  obtain token where token: "session_accept_proof (lib_hkdf env) (lib_hmac env) master sid challenge peer (own_id env) = Inr token"
    by (simp add: session_accept_proof_def keys Let_def)
  have g: "genuine ?r (lib_aead env) content_key nonce seed salt peer (own_id env) mid (session_init sid challenge master)
      (JStr (public_key_text ?r (own_key env))) k advertise e"
    by (rule encrypt_envelope_genuine) (rule assms(9))
  have opened: "decrypt_envelope ?r (lib_aead env) e (own_key env) (kget (peer_keys s) (JStr peer)) = Inr (session_init sid challenge master, JStr ?key)"
    by (rule open_genuine [OF assms(1-5) init_fields(5) g _ assms(11)]) (use assms(10) in blast)
  have route: "jitem e ''sender'' = Inr (JStr peer)" "jget e ''recipient'' = JStr (own_id env)"
    using g by (auto simp: genuine_def route_fields_def jitem_eq jget_def dget_or_def)
  obtain u where u: "remember_peer env (JStr peer) ?key s = (Inr (), u)" "kget (peer_keys u) (JStr peer) = Some ?key"
    "writer u = writer s" "broken u = broken s" "sent u = sent s" "peer_sessions u = peer_sessions s" "clock u = clock s"
  proof (cases "kget (peer_keys s) (JStr peer)")
    case (Some x)
    with assms(10,11) that [of s] remember_known [of s "JStr peer" ?key env] show ?thesis by auto
  next
    case None
    with assms(10) remember_new [of s peer env ?key] obtain store where
      "remember_peer env (JStr peer) ?key s = (Inr (), s\<lparr>peer_keys := kput (JStr peer) ?key (peer_keys s), peer_store := store\<rparr>)"
      by auto
    from that [OF this] show ?thesis by (simp add: kget_kput)
  qed
  let ?own = "new_peer_session sid (own_id env) (JStr peer) ak wk (clock s) False"
  let ?v = "u\<lparr>peer_sessions := dput (Text peer) ?own (peer_sessions u)\<rparr>"
  obtain reply where reply: "send_envelope env rnd peer (accept_message sid challenge token) ?v = (Inr (), ?v\<lparr>sent := sent ?v @ [(w, reply)]\<rparr>)"
    "genuine ?r (lib_aead env) (seal_key rnd) (seal_iv rnd) (seal_seed rnd) (seal_salt rnd) (own_id env) peer
      (seal_message_id rnd) (accept_message sid challenge token) (JStr ?key) (own_key env) False reply"
    using send_envelope_sends [OF assms(2) _ assms(11), of ?v peer w rnd "accept_message sid challenge token"] u assms(13-15) by auto
  have m: "b64u master \<noteq> []" using assms(6) by (intro b64u_nonempty) auto
  have "open_session env rnd (JStr peer) (session_init sid challenge master) u = (Inr (), ?v\<lparr>sent := sent s @ [(w, reply)]\<rparr>)"
    using reply(1) u m assms(6-8) by (simp add: open_session_def keys token eq_str_def)
  then have "handle_envelope env rnd e s = (Inr (), ?v\<lparr>sent := sent s @ [(w, reply)]\<rparr>)"
    by (simp add: handle_envelope_def route opened u(1) eq_str_def andthen_def)
  moreover have "decrypt_envelope ?r (lib_aead env) reply k (Some (public_key_text ?r (own_key env)))
      = Inr (accept_message sid challenge token, JStr (public_key_text ?r (own_key env)))"
    by (rule open_genuine [OF assms(2,1,3,15,16) accept_wf reply(2) _ assms(12)]) simp
  moreover have "paired (new_peer_session sid peer (JStr (own_id env)) ak wk t0 True) ?own"
    by (simp add: paired_def new_peer_session_def)
  ultimately show ?thesis
    using keys token u by (intro exI conjI) (assumption | simp)+
qed

section \<open>Trust on first use\<close>

text \<open>Nothing else touches the keys.\<close>

definition keys_alone :: "'w client \<Rightarrow> 'w client \<Rightarrow> bool" where
  "keys_alone s t \<longleftrightarrow> peer_keys t = peer_keys s \<and> peer_store t = peer_store s"

interpretation alone: effect_relation keys_alone
  by unfold_locales (auto simp: keys_alone_def)

lemma sending_alone:
  "stays keys_alone (send_to w v)"
  "stays keys_alone (send_session env recipient body)"
  "stays keys_alone (send_session_reset env r reason)"
  "stays keys_alone (send_envelope env rnd peer_name body)"
  "stays keys_alone (answer_ping message)"
  "stays keys_alone (handle_session_reset env message)"
  by (auto simp: stays_def keys_alone_def send_to_def send_session_def send_session_reset_def send_envelope_def
      answer_ping_def handle_session_reset_def Let_def split: option.split sum.split prod.split json.split)

lemma open_session_alone: "stays keys_alone (open_session env rnd peer body)"
  unfolding open_session_def
  by (auto intro!: alone.stays_rules alone.stays_modify sending_alone simp: keys_alone_def split: json.split prod.split)

lemma open_session_envelope_alone: "stays keys_alone (open_session_envelope env message)"
proof -
  have "stays keys_alone (andthen (send_session_reset env sender ''unknown_session'') (\<lambda>_. throw (ValueError ''unknown session'')))"
    for sender by (intro alone.stays_rules sending_alone)
  then show ?thesis
    unfolding open_session_envelope_def
    by (auto simp: stays_def keys_alone_def Let_def split: option.split json.split prod.split sum.split)
qed

lemma responding_alone:
  "stays keys_alone (send_wisp_response env rnd recipient w r)"
  "stays keys_alone (receive_bulk_file env io sender tid f)"
  "stays keys_alone (resume_operation env sender w i)"
proof -
  show "stays keys_alone (send_wisp_response env rnd recipient w r)"
    unfolding send_wisp_response_def by (auto intro!: alone.stays_rules sending_alone)
  show "stays keys_alone (receive_bulk_file env io sender tid f)"
    unfolding receive_bulk_file_def
    by (auto intro!: alone.stays_rules sending_alone split: option.split prod.split)
  show "stays keys_alone (resume_operation env sender w i)"
    unfolding stays_def resume_operation_def Let_def
    by (auto intro: stays_at [OF sending_alone(2)] split: option.split)
qed

lemmas alone_rules = alone.stays_rules sending_alone open_session_envelope_alone responding_alone

lemma remember_keys [simp]:
  "peer_keys (remember_completed_operation k b s) = peer_keys s" "peer_store (remember_completed_operation k b s) = peer_store s"
  by (simp_all add: remember_completed_operation_def)

lemma cleanup_keys [simp]:
  "peer_keys (cleanup_transfer k s) = peer_keys s" "peer_store (cleanup_transfer k s) = peer_store s"
  by (simp_all add: cleanup_transfer_def split: option.split)

lemma set_task_keys [simp]:
  "peer_keys (set_task k t p s) = peer_keys s" "peer_store (set_task k t p s) = peer_store s"
  by (simp_all add: set_task_def)

lemma invoke_keys [simp]:
  "peer_keys (snd (invoke_action k p w vs fs s)) = peer_keys s" "peer_store (snd (invoke_action k p w vs fs s)) = peer_store s"
  "peer_keys (snd (invoke_state p w s)) = peer_keys s" "peer_store (snd (invoke_state p w s)) = peer_store s"
  by (simp_all add: invoke_action_def invoke_state_def split: prod.split)

lemma fold_keys:
  assumes "\<And>x s. peer_keys (f x s) = peer_keys s \<and> peer_store (f x s) = peer_store s"
  shows "peer_keys (fold f xs s) = peer_keys s \<and> peer_store (fold f xs s) = peer_store s"
  by (induction xs arbitrary: s) (simp_all add: assms)

lemma expire_keys [simp]:
  "peer_keys (expire_file_transfers s) = peer_keys s" "peer_store (expire_file_transfers s) = peer_store s"
  "peer_keys (expire_completed_operations s) = peer_keys s" "peer_store (expire_completed_operations s) = peer_store s"
  by (simp_all add: expire_file_transfers_def expire_completed_operations_def Let_def fold_keys)

lemma close_keys [simp]:
  "peer_keys (close_connection s) = peer_keys s" "peer_store (close_connection s) = peer_store s"
  "peer_keys (close_client s) = peer_keys s" "peer_store (close_client s) = peer_store s"
  by (simp_all add: close_connection_def close_client_def Let_def fold_keys)

lemma modify_alone:
  "(\<And>s. peer_keys (g s) = peer_keys s \<and> peer_store (g s) = peer_store s) \<Longrightarrow> stays keys_alone (modify g)"
  by (rule alone.stays_modify) (simp add: keys_alone_def)

lemma invoke_alone:
  "stays keys_alone (\<lambda>s. let (r, t) = invoke_action k p w vs fs s in (Inr (f r), t))"
  "stays keys_alone (\<lambda>s. let (r, t) = invoke_state p w s in (Inr (f r), t))"
  by (simp_all add: stays_def case_prod_beta keys_alone_def)

lemma file_begin_alone: "stays keys_alone (file_begin env d sender w body)"
proof -
  have "stays keys_alone (begin_file_action d sender w body)"
    by (simp add: stays_def keys_alone_def begin_file_action_def split: sum.split prod.split)
  moreover have "stays keys_alone (modify (\<lambda>s. case dget (transfers s) k of
      Some t \<Rightarrow> set_task k t (p t) s | None \<Rightarrow> s))" for k p
    by (rule modify_alone) (simp split: option.split)
  moreover have "stays keys_alone (modify (cleanup_transfer k))" for k
    by (rule modify_alone) simp
  ultimately show ?thesis
    unfolding file_begin_def Let_def by (auto intro!: alone_rules split: option.split prod.split)
qed

lemma start_action_alone: "stays keys_alone (start_action env sender w body)"
  unfolding start_action_def Let_def
  by (auto intro!: alone_rules modify_alone invoke_alone [unfolded Let_def] split: option.split prod.split bool.split sum.split)

lemma dispatch_alone: "stays keys_alone (dispatch_session_body env d sender body)"
  unfolding dispatch_session_body_def Let_def
  by (auto intro!: alone_rules modify_alone file_begin_alone start_action_alone invoke_alone [unfolded Let_def] split: option.split)

lemma finish_dispatch_alone: "stays keys_alone (finish_dispatch env rnd p)"
  by (cases p) (auto simp: Let_def intro!: alone_rules modify_alone split: sum.split option.split)

lemma task_steps_alone:
  "keys_alone s (receive_next env key io s)"
  "keys_alone s (start_callback key s)"
  "keys_alone s (finish_transfer env key s)"
  "keys_alone s (deliver_transfer env rnd key s)"
  "keys_alone s (heartbeat nonce s)"
proof -
  have e: "keys_alone s (snd (m s))" if "stays keys_alone m" for m :: "('a client, 'c) act"
    using that by (rule stays_at)
  show "keys_alone s (receive_next env key io s)"
  proof -
    have "keys_alone s u" if "receive_bulk_file env io sender tid f s = (r, u)" for sender tid f r u
      using staysD [OF responding_alone(2) that] .
    then show ?thesis
      unfolding receive_next_def fail_transfer_def
      by (auto simp: keys_alone_def Let_def split: option.split task.split list.split prod.split sum.split)
  qed
  show "keys_alone s (start_callback key s)"
    by (auto simp: start_callback_def keys_alone_def Let_def case_prod_beta split: option.split task.split list.split)
  show "keys_alone s (finish_transfer env key s)"
    by (auto simp: finish_transfer_def fail_transfer_def keys_alone_def Let_def split: option.split task.split sum.split)
  have "stays keys_alone m \<Longrightarrow> keys_alone s (ending key (attempt m) s)" for m
    using stays_at [of keys_alone "attempt m" s] by (simp add: ending_def attempt_def keys_alone_def alone.stays_rules)
  then show "keys_alone s (deliver_transfer env rnd key s)"
    by (auto simp: deliver_transfer_def alone.R_refl sending_alone responding_alone split: option.split task.split)
  show "keys_alone s (heartbeat nonce s)"
    by (auto simp: heartbeat_def alone.R_refl intro: e sending_alone split: option.split)
qed

section \<open>Keys are only recorded\<close>

text \<open>What a step of a process can do to the keys: some calls of \<open>_remember_peer\<close>, one after the other.\<close>

inductive records :: "'k client_env \<Rightarrow> 'w client \<Rightarrow> 'w client \<Rightarrow> bool" for env where
  nothing: "keys_alone s t \<Longrightarrow> records env s t"
| remember: "records env s t \<Longrightarrow> keys_alone (snd (remember_peer env peer key t)) u \<Longrightarrow> records env s u"

lemma records_trans: "records env s t \<Longrightarrow> records env t u \<Longrightarrow> records env s u"
proof (rotate_tac, induction rule: records.induct)
  case (nothing t u)
  from nothing.prems nothing.hyps show ?case
    by (cases rule: records.cases) (auto intro: records.intros alone.R_trans)
qed (auto intro: records.remember)

interpretation recording: effect_relation "records env" for env
  by unfold_locales (auto intro: records.nothing alone.R_refl records_trans)

lemma alone_records: "stays keys_alone m \<Longrightarrow> stays (records env) m"
  by (auto simp: stays_def intro: records.nothing)

lemma remember_records: "stays (records env) (remember_peer env peer key)"
  by (auto simp: stays_def intro: records.remember [OF records.nothing] alone.R_refl)

lemma handle_envelope_records: "stays (records env) (handle_envelope env rnd message)"
  unfolding handle_envelope_def
  by (auto intro!: recording.stays_rules remember_records alone_records [OF open_session_alone] recording.stays_read)

lemma loop_read_records: "stays (records env) (loop_read env rnd d i)"
proof -
  have "stays (records env) (loop_message env rnd d message)" for message
    unfolding loop_message_def Let_def discarding_def
    by (auto intro!: recording.stays_rules handle_envelope_records alone_records [OF sending_alone(5)]
        alone_records [OF sending_alone(6)] alone_records [OF open_session_envelope_alone] alone_records [OF dispatch_alone])
  then show ?thesis
    unfolding loop_read_def by (auto intro!: recording.stays_rules)
qed

lemma settle_alone: "keys_alone (snd rt) (snd (settle rt))"
  by (cases rt) (auto simp: settle_def keys_alone_def split: sum.split loop_phase.split)

lemma registers_keys [simp]:
  "peer_keys (fold register ws s) = peer_keys s" "peer_store (fold register ws s) = peer_store s"
  by (induction ws arbitrary: s) (simp_all add: register_def)

lemma runtime_step_records:
  assumes "\<not> is_restart ev"
  shows "records env (client s) (client (runtime_step env s ev))"
proof (cases ev)
  case (Arrives i rnd d)
  have "records env (client s) (snd (settle (loop_read env rnd d i (client s))))"
    by (rule records_trans [OF stays_at [OF loop_read_records] records.nothing [OF settle_alone]])
  with Arrives show ?thesis by (auto intro: recording.R_refl split: prod.split)
next
  case (CallbackDone rnd)
  have "stays keys_alone (discarding (finish_dispatch env rnd (loop s)))"
    unfolding discarding_def by (intro alone.stays_rules finish_dispatch_alone)
  from records.nothing [OF alone.R_trans [OF stays_at [OF this] settle_alone]]
  have "records env (client s) (snd (settle (discarding (finish_dispatch env rnd (loop s)) (client s))))" .
  with CallbackDone show ?thesis by (auto intro: recording.R_refl split: prod.split)
next
  case (Restarts ws u reset)
  with assms show ?thesis by simp
qed (auto intro!: records.nothing task_steps_alone alone.R_refl, auto simp: keys_alone_def)

lemma restarted_keys:
  "peer_keys (client (runtime_step env s (Restarts ws u reset))) = load_peers (if reset then None else peer_store (client s))"
  "peer_store (client (runtime_step env s (Restarts ws u reset))) = (if reset then None else peer_store (client s))"
  by (simp_all add: runtime_start_def AppserveClient_def)

section \<open>Pinning\<close>

text \<open>While a process runs, no key it has recorded changes in memory, whatever the peer's name is.\<close>

lemma kget_same: "key_eq a b \<Longrightarrow> kget t a = kget t b"
proof (induction t)
  case (Cons p t)
  have "key_eq c a = key_eq c b" for c using Cons.prems key_eq_sym key_eq_trans by blast
  with Cons show ?case by (cases p) simp
qed simp

lemma remembers_known:
  assumes "known_key s peer \<noteq> []"
  shows "known_key (snd (remember_peer env v key s)) peer = known_key s peer"
proof (cases "known_key s v = []")
  case True
  with assms have "\<not> key_eq v peer" by (auto simp: known_key_def kget_same)
  then show ?thesis
    by (auto simp: remember_peer_def known_key_def Let_def kget_kput split: sum.split)
qed (auto simp: remember_peer_def Let_def)

lemma records_known: "records env s t \<Longrightarrow> known_key s peer \<noteq> [] \<Longrightarrow> known_key t peer = known_key s peer"
  by (induction rule: records.induct) (auto simp: keys_alone_def known_key_def remembers_known [unfolded known_key_def])

lemma run_known:
  "known_key (client s) peer \<noteq> [] \<Longrightarrow> \<not> list_ex is_restart es \<Longrightarrow>
     known_key (client (runtime_run env s es)) peer = known_key (client s) peer"
  by (induction es arbitrary: s) (simp_all add: records_known [OF runtime_step_records])

text \<open>A key that is in memory and on disk under a name that is text stays in both, over restarts too.\<close>

definition pinned :: "string \<Rightarrow> string \<Rightarrow> 'w client \<Rightarrow> bool" where
  "pinned peer key s \<longleftrightarrow>
     key \<noteq> [] \<and> dget (peer_keys s) (JStr peer) = Some key \<and> dget (load_peers (peer_store s)) (JStr peer) = Some key"

lemma remembers_pinned:
  assumes "pinned peer key s"
  shows "pinned peer key (snd (remember_peer env v k s))"
proof (cases "known_key s v = []")
  case True
  let ?ks = "kput v k (peer_keys s)"
  have "v \<noteq> JStr peer" using assms True by (auto simp: pinned_def known_key_def kget_text)
  then have kept: "dget ?ks (JStr peer) = Some key"
    using assms by (simp add: pinned_def kget_kput flip: kget_text)
  have "dget (load_peers (Some document)) (JStr peer) = Some key" if "store_document ?ks = Inr document" for document
    using store_text [OF stored_text [OF that map_of_SomeD [OF kept]]] that kept by auto
  with assms True kept show ?thesis
    by (auto simp: pinned_def remember_peer_def Let_def split: sum.split)
qed (use assms in \<open>auto simp: remember_peer_def Let_def\<close>)

lemma alone_pinned: "keys_alone s t \<Longrightarrow> pinned peer key t = pinned peer key s"
  by (simp add: keys_alone_def pinned_def)

lemma records_pinned: "records env s t \<Longrightarrow> pinned peer key s \<Longrightarrow> pinned peer key t"
  by (induction rule: records.induct) (simp_all add: alone_pinned remembers_pinned)

fun resets_trust :: "'w happening \<Rightarrow> bool" where
  "resets_trust (Restarts ws u reset) = reset"
| "resets_trust _ = False"

lemma step_pinned:
  assumes "pinned peer key (client s)" and "\<not> resets_trust ev"
  shows "pinned peer key (client (runtime_step env s ev))"
proof (cases "is_restart ev")
  case True
  then obtain ws u reset where "ev = Restarts ws u reset" by (cases ev) auto
  with assms show ?thesis by (simp add: pinned_def restarted_keys del: runtime_step.simps)
next
  case False
  from records_pinned [OF runtime_step_records [OF this] assms(1)] show ?thesis .
qed

lemma run_pinned:
  "pinned peer key (client s) \<Longrightarrow> \<not> list_ex resets_trust es \<Longrightarrow> pinned peer key (client (runtime_run env s es))"
  by (induction es arbitrary: s) (simp_all add: step_pinned)

text \<open>As long as the recorded names are text, what is in memory is on disk.\<close>

definition store_ok :: "'w client \<Rightarrow> bool" where
  "store_ok s \<longleftrightarrow>
     ((\<forall>p \<in> set (peer_keys s). is_str (fst p)) \<longrightarrow> (\<forall>peer. dget (load_peers (peer_store s)) peer = dget (peer_keys s) peer))"

lemma remembers_store:
  assumes "store_peers env" and "store_ok s"
  shows "store_ok (snd (remember_peer env v k s))"
proof (cases "known_key s v = []")
  case True
  let ?ks = "kput v k (peer_keys s)"
  show ?thesis
  proof (cases "\<forall>p \<in> set ?ks. is_str (fst p)")
    case names: True
    from store_text [OF names] True assms(1) show ?thesis
      by (auto simp: store_ok_def remember_peer_def Let_def)
  next
    case False
    with True assms(1) show ?thesis
      by (auto simp: store_ok_def remember_peer_def Let_def split: sum.split)
  qed
qed (use assms in \<open>auto simp: remember_peer_def Let_def\<close>)

lemma alone_store: "keys_alone s t \<Longrightarrow> store_ok t = store_ok s"
  by (simp add: keys_alone_def store_ok_def)

lemma records_store: "records env s t \<Longrightarrow> store_peers env \<Longrightarrow> store_ok s \<Longrightarrow> store_ok t"
  by (induction rule: records.induct) (simp_all add: alone_store remembers_store)

lemma step_store:
  assumes "store_peers env" and "store_ok (client s)"
  shows "store_ok (client (runtime_step env s ev))"
proof (cases "is_restart ev")
  case True
  then obtain ws u reset where "ev = Restarts ws u reset" by (cases ev) auto
  then show ?thesis by (simp add: store_ok_def restarted_keys del: runtime_step.simps)
next
  case False
  from records_store [OF runtime_step_records [OF this] assms] show ?thesis .
qed

lemma run_store: "store_peers env \<Longrightarrow> store_ok (client s) \<Longrightarrow> store_ok (client (runtime_run env s es))"
  by (induction es arbitrary: s) (simp_all add: step_store)

text \<open>C7: a peer's key is pinned on first use. While a process runs no key it has recorded changes,
  whatever arrives and whatever the peers are named, and any other key is refused. Once a
  runtime with a peer store has recorded a key for a peer, and the names of all recorded peers are
  text by then, that key stays in memory and on disk through every message, reconnection and
  restart, except a restart with \<open>--reset-peer-trust\<close>, and any other key for that peer is refused
  all that time. Names that are not text, which nothing checks, may arrive later without harm to
  it; recorded earlier they keep the store from being written.\<close>

theorem peer_keys_are_pinned:
  assumes "s = runtime_run env (runtime_start ws u stored left t0) es"
  shows "(known_key (client s) name \<noteq> [] \<and> \<not> list_ex is_restart es' \<and> key' \<noteq> known_key (client s) name \<longrightarrow>
       known_key (client (runtime_run env s es')) name = known_key (client s) name \<and>
       remember_peer env name key' (client (runtime_run env s es'))
         = (Inl (ValueError (''peer public key changed for '' @ py_str name)), client (runtime_run env s es'))) \<and>
     (store_peers env \<and> (\<forall>p \<in> set (peer_keys (client s)). is_str (fst p)) \<and>
       kget (peer_keys (client s)) (JStr peer) = Some key \<and> key \<noteq> [] \<and> key' \<noteq> key \<and> \<not> list_ex resets_trust es' \<longrightarrow>
       kget (peer_keys (client (runtime_run env s es'))) (JStr peer) = Some key \<and>
       kget (load_peers (peer_store (client (runtime_run env s es')))) (JStr peer) = Some key \<and>
       remember_peer env (JStr peer) key' (client (runtime_run env s es'))
         = (Inl (ValueError (''peer public key changed for '' @ peer)), client (runtime_run env s es')))"
proof (intro conjI impI; elim conjE)
  let ?t = "client (runtime_run env s es')"
  assume known: "known_key (client s) name \<noteq> []" "\<not> list_ex is_restart es'" "key' \<noteq> known_key (client s) name"
  from run_known [OF known(1,2)] show same: "known_key ?t name = known_key (client s) name" .
  with known show "remember_peer env name key' ?t = (Inl (ValueError (''peer public key changed for '' @ py_str name)), ?t)"
    by (simp add: remember_peer_def Let_def)
next
  let ?t = "client (runtime_run env s es')"
  assume h: "store_peers env" "\<forall>p \<in> set (peer_keys (client s)). is_str (fst p)"
    "kget (peer_keys (client s)) (JStr peer) = Some key" "key \<noteq> []" "key' \<noteq> key" "\<not> list_ex resets_trust es'"
  have "store_ok (client (runtime_start ws u stored left t0))"
    by (simp add: store_ok_def runtime_start_def AppserveClient_def)
  from run_store [OF h(1) this, of es] assms h(2-4) have "pinned peer key (client s)"
    by (simp add: store_ok_def pinned_def kget_text)
  from run_pinned [OF this h(6)] have "pinned peer key ?t" .
  with h(5) show "kget (peer_keys ?t) (JStr peer) = Some key"
    "kget (load_peers (peer_store ?t)) (JStr peer) = Some key"
    "remember_peer env (JStr peer) key' ?t = (Inl (ValueError (''peer public key changed for '' @ peer)), ?t)"
    by (auto simp: pinned_def kget_text remember_peer_def known_key_def Let_def)
qed

text \<open>
  What a name that is not text does: its key is recorded in memory, then the store cannot be written
  any more, so that the key of every peer seen afterwards is lost with the process.
\<close>

lemma other_names_spoil_the_store:
  assumes "store_peers env" and "(JStr old, k) \<in> set (peer_keys s)" and "hashable name" and "\<not> is_str name"
    and "kget (peer_keys s) name = None"
  shows "remember_peer env name key s = (Inl TypeError, s\<lparr>peer_keys := kput name key (peer_keys s)\<rparr>)"
proof -
  let ?ks = "kput name key (peer_keys s)"
  have old: "JStr old \<in> fst ` set ?ks" using assms(2) kput_names [of "peer_keys s" name key] by force
  obtain q where q: "q \<in> set ?ks" "key_eq (fst q) name" using kput_key [of name key "peer_keys s"] by blast
  have "\<not> is_str (fst q)" using q(2) assms(4) by (cases "fst q") auto
  moreover have "1 < length ?ks"
  proof -
    have "card {JStr old, fst q} \<le> card (fst ` set ?ks)" using old q(1) by (intro card_mono) auto
    moreover have "fst q \<noteq> JStr old" using calculation \<open>\<not> is_str (fst q)\<close> by auto
    ultimately have "2 \<le> card (fst ` set ?ks)" by simp
    then show ?thesis using card_length [of "map fst ?ks"] by simp
  qed
  ultimately have "store_document ?ks = Inl TypeError"
    using old q(1) by (force simp: store_document_def py_sorted_def)
  with assms show ?thesis by (simp add: remember_peer_def known_key_def Let_def)
qed

section \<open>Witnesses\<close>

definition demo_sealing :: sealing where
  "demo_sealing = \<lparr>seal_message_id = ''m2'', seal_key = replicate 32 1, seal_iv = replicate 12 2, seal_seed = [], seal_salt = []\<rparr>"

lemma handshake_completes_witness:
  "\<exists>e t. encrypt_envelope demo_rsa demo_aead (replicate 32 1) (replicate 12 2) [] [] ''android'' ''wisp'' ''m1''
         (session_init ''s'' ''c'' (replicate 32 5)) (JStr (public_key_text demo_rsa [9])) [7] True = Inr e \<and>
     handle_envelope demo_client_env demo_sealing e demo_answered = (Inr (), t) \<and>
     kget (peer_keys t) (JStr ''android'') = Some (public_key_text demo_rsa [7])"
proof -
  have lib: "lib_rsa demo_client_env = demo_rsa" "lib_aead demo_client_env = demo_aead" "own_id demo_client_env = ''wisp''"
    "own_key demo_client_env = [9]"
    by (simp_all add: demo_client_env_def)
  obtain e where e: "encrypt_envelope demo_rsa demo_aead (replicate 32 1) (replicate 12 2) [] [] ''android'' ''wisp'' ''m1''
      (session_init ''s'' ''c'' (replicate 32 5)) (JStr (public_key_text demo_rsa [9])) [7] True = Inr e"
    using encrypt_envelope_total [OF demo_rsa_correct] by (metis length_replicate)
  have s: "peer_keys demo_answered = []" "writer demo_answered = Some 3" "broken demo_answered = []"
    by (simp_all add: demo_answered_def AppserveClient_def load_peers_def)
  have "\<exists>t reply android_key wisp_key token.
     handle_envelope demo_client_env demo_sealing e demo_answered = (Inr (), t) \<and>
     kget (peer_keys t) (JStr ''android'') = Some (public_key_text (lib_rsa demo_client_env) [7]) \<and>
     derive_session_keys (lib_hkdf demo_client_env) (replicate 32 5) ''s'' = Inr (android_key, wisp_key) \<and>
     peer_sessions t = dput (Text ''android'') (new_peer_session ''s'' (own_id demo_client_env) (JStr ''android'') android_key wisp_key
       (clock demo_answered) False) (peer_sessions demo_answered) \<and>
     paired (new_peer_session ''s'' ''android'' (JStr (own_id demo_client_env)) android_key wisp_key 0 True)
       (new_peer_session ''s'' (own_id demo_client_env) (JStr ''android'') android_key wisp_key (clock demo_answered) False) \<and>
     session_accept_proof (lib_hkdf demo_client_env) (lib_hmac demo_client_env) (replicate 32 5) ''s'' ''c'' ''android''
       (own_id demo_client_env) = Inr token \<and>
     sent t = sent demo_answered @ [(3, reply)] \<and>
     decrypt_envelope (lib_rsa demo_client_env) (lib_aead demo_client_env) reply [7]
       (Some (public_key_text (lib_rsa demo_client_env) (own_key demo_client_env)))
       = Inr (accept_message ''s'' ''c'' token, JStr (public_key_text (lib_rsa demo_client_env) (own_key demo_client_env)))"
    by (rule handshake_completes [where advertise = True and content_key = "replicate 32 1" and nonce = "replicate 12 2"
          and seed = "[]" and salt = "[]" and mid = "''m1''"])
       (simp_all add: lib demo_rsa_correct demo_correct e s demo_key_text demo_sealing_def)
  with e show ?thesis by (auto simp: lib)
qed

lemma peer_keys_are_pinned_witness:
  "kget (peer_keys (client (runtime_run demo_client_env
     (runtime_start [demo_prime] 0 (Some (JObj [(''android'', JStr ''k'')])) [] 0)
       [Connected 1, Closes, Restarts [demo_prime] 7 False]))) (JStr ''android'')
     = Some ''k''"
proof -
  have "store_peers demo_client_env" by (simp add: demo_client_env_def)
  with peer_keys_are_pinned [OF refl, of demo_client_env "[demo_prime]" 0 "Some (JObj [(''android'', JStr ''k'')])" "[]" 0 "[]"
      "JNull" "[Connected 1, Closes, Restarts [demo_prime] 7 False]" "''x''" "''android''" "''k''"]
  show ?thesis
    by (simp add: load_peers_def runtime_start_def AppserveClient_def register_def)
qed

end
