(* ===== verification/ClientBulk.thy ===== *)
theory ClientBulk
  imports ClientFiles
begin

text \<open>
  A bulk file end to end: what \<open>_send_outbound_asset\<close> streams, the relay's pipe copies and
  \<open>_receive_bulk_file\<close> reads is the file.
\<close>

section \<open>Lines\<close>

lemma json_loads_line: "wf_json j \<Longrightarrow> json_loads_str (json_dumps j @ [CHR 10]) = Inr j"
proof -
  assume wf: "wf_json j"
  have "num_end [CHR 10]" by (simp add: num_end_def is_digit_def)
  then have "pval (Suc (length (json_dumps j @ [CHR 10]))) (json_dumps j @ [CHR 10]) = Some (j, [CHR 10])"
    using dumps_parses [OF wf] unfolding parses_def by (simp del: pval.simps)
  moreover have "skip_ws [CHR 10] = []" by (simp add: is_ws_def skip_ws_def)
  ultimately show ?thesis
    using starts_dumps [OF wf, of "[CHR 10]"] by (simp add: json_loads_str_def del: pval.simps)
qed

lemma wire_text: "wire v = utf8 (json_dumps (JObj v) @ [CHR 10])"
proof -
  have "utf8_char (CHR 10) = [10]" by (simp add: utf8_char_def code_def)
  then show ?thesis by (simp add: wire_def)
qed

lemma wire_not_Nil [simp]: "wire v \<noteq> []"
  by (simp add: wire_def)

text \<open>A line that was sent is read back as it was sent, by \<open>json.loads\<close> and by \<open>_read\<close>.\<close>

lemma json_loads_wire [simp]: "wf_json (JObj v) \<Longrightarrow> json_loads (wire v) = Inr (JObj v)"
  unfolding wire_text json_loads_def utf8_roundtrip by (simp add: json_loads_line del: json_dumps.simps wf_json.simps)

lemma read_wire [simp]: "wf_json (JObj v) \<Longrightarrow> read_message (Line (wire v)) = Inr v"
  by (simp add: read_message_def wire_text utf8_roundtrip json_loads_line wire_not_Nil [unfolded wire_text]
      del: utf8_simps json_dumps.simps wf_json.simps)

section \<open>The pipe\<close>

lemma pipe_success:
  assumes "pipe_bulk a b incoming s = (Inr (), t)"
  shows "piped_to t (bulk_conn b) = piped_to s (bulk_conn b) @ take (nat (bulk_length a)) incoming"
    and "nat (bulk_length a) \<le> length incoming"
proof -
  let ?n = "nat (bulk_length a)"
  obtain u1 u2 u3 u4 where
    u1: "send_bulk (bulk_conn a) bulk_ready (s\<lparr>bulk_paired := bulk_conn a # bulk_conn b # bulk_paired s\<rparr>) = (Inr (), u1)"
    and u2: "send_bulk (bulk_conn b) bulk_ready u1 = (Inr (), u2)"
    and u3: "copy_bulk (bulk_conn b) ?n incoming u2 = (Inr (), u3)"
    and u4: "send_bulk (bulk_conn a) bulk_complete u3 = (Inr (), u4)"
    and t: "send_bulk (bulk_conn b) bulk_complete u4 = (Inr (), t)"
    using assms by (auto simp: pipe_bulk_def andthen_Inr)
  have same: "piped_to y w = piped_to x w" if "send_bulk c m x = (Inr (), y)" for c m x y w
    using that by (auto simp: send_bulk_def piped_to_def split: if_splits)
  have "bulk_conn b \<notin> set (bulk_lost u2)"
    using u2 by (auto simp: send_bulk_def split: if_splits)
  from copy_bulk_run [OF this, of ?n incoming] u3 obtain cs where
    "?n \<le> length incoming" "u3 = u2\<lparr>bulk_piped := bulk_piped u2 @ map (Pair (bulk_conn b)) cs\<rparr>"
    "concat cs = copied ?n incoming"
    by (auto split: if_splits)
  then have "piped_to u3 (bulk_conn b) = piped_to u2 (bulk_conn b) @ take ?n incoming"
    by (simp add: piped_to_def filter_map comp_def copied_def)
  then show "piped_to t (bulk_conn b) = piped_to s (bulk_conn b) @ take ?n incoming"
    using same [OF u1] same [OF u2] same [OF u4] same [OF t] by (simp add: piped_to_def)
  show "?n \<le> length incoming" by fact
qed

section \<open>Sending\<close>

definition aead_tagged :: "aead \<Rightarrow> bool" where
  "aead_tagged c \<longleftrightarrow> aead_correct c \<and> (\<forall>k n p a. length (aes_gcm_encrypt c k n p a) = length p + 16)"

text \<open>What the sending side streams over its bulk connection.\<close>

definition streamed_by :: "'w client \<Rightarrow> 'w client \<Rightarrow> bytes" where
  "streamed_by s t = concat (map snd (drop (length (streamed s)) (streamed t)))"

definition file_ciphertext :: "aead \<Rightarrow> prepared_asset \<Rightarrow> string \<Rightarrow> bytes \<Rightarrow> bytes" where
  "file_ciphertext c p peer nonce =
     aes_gcm_encrypt c (prepared_key p) nonce (asset_content (prepared p))
       (bulk_aad (prepared_session p) (prepared_sender p) peer (prepared_transfer p)
          (asset_id (prepared p)) (ciphertext_size p - 16))"

lemma send_to_streamed: "send_to w v s = (r, t) \<Longrightarrow> streamed t = streamed s"
  by (auto simp: send_to_def split: if_splits)

lemma send_outbound_streams:
  assumes "send_outbound_asset env io p s = (Inr (), t)" and "unb64 (prepared_nonce p) = Inr nonce"
    and "prepared_recipient p = JStr peer"
  shows "streamed_by s t = file_ciphertext (lib_aead env) p peer nonce"
    and "int (length (asset_content (prepared p))) = ciphertext_size p - 16"
proof -
  let ?m = "asset_content (prepared p)"
  obtain session where session: "dget (peer_sessions s) (Text peer) = Some session"
    using assms(1,3) by (auto simp: send_outbound_asset_def Let_def split: option.splits)
  obtain u key v where
    u: "send_to (io_conn io) (bulk_hello ''sender'' (session_id session) (prepared_transfer p) (own_id env)
          (JStr peer) (JInt (ciphertext_size p))) s = (Inr (), u)"
    and key: "aes_key (prepared_key p) = Inr key"
    and v: "stream_to (io_conn io) (take (length ?m) (aes_gcm_encrypt (lib_aead env) key nonce ?m
        (bulk_aad (prepared_session p) (prepared_sender p) peer (prepared_transfer p)
          (asset_id (prepared p)) (ciphertext_size p - 16)))) u = (Inr (), v)"
    and t: "stream_to (io_conn io) (drop (length ?m) (aes_gcm_encrypt (lib_aead env) key nonce ?m
        (bulk_aad (prepared_session p) (prepared_sender p) peer (prepared_transfer p)
          (asset_id (prepared p)) (ciphertext_size p - 16)))) v = (Inr (), t)"
    and n: "int (length ?m) = ciphertext_size p - 16"
    using assms session
    by (auto simp: send_outbound_asset_def Let_def andthen_Inr split: if_splits)
  have "prepared_key p = key" using key by (auto simp: aes_key_def split: if_splits)
  then show "streamed_by s t = file_ciphertext (lib_aead env) p peer nonce"
    using v t send_to_streamed [OF u]
    by (auto simp: streamed_by_def file_ciphertext_def stream_to_def split: if_splits)
  show "int (length ?m) = ciphertext_size p - 16" by fact
qed

section \<open>Receiving\<close>

lemma expect_announced:
  "expect ''bulk_ready'' e (Line (wire bulk_ready)) = Inr ()"
  "expect ''bulk_complete'' e (Line (wire bulk_complete)) = Inr ()"
proof -
  have "wf_json (JObj bulk_ready)" "wf_json (JObj bulk_complete)"
    by (simp_all add: bulk_ready_def bulk_complete_def wf_dict_def)
  then show "expect ''bulk_ready'' e (Line (wire bulk_ready)) = Inr ()"
    "expect ''bulk_complete'' e (Line (wire bulk_complete)) = Inr ()"
    by (simp_all add: expect_def) (simp_all add: bulk_ready_def bulk_complete_def jget_def dget_or_def eq_str_def)
qed

text \<open>The transfer's two ends: paired sessions under the ids the ends have.\<close>

lemma receive_file:
  assumes c: "aead_tagged (lib_aead env)"
    and k: "bulk_key (lib_hkdf env) b (JStr tid) False = Inr k" "length k = 32"
    and b: "dget (peer_sessions s) (Text sender) = Some b"
    and nonce: "jitem (file_bulk f) ''nonce'' = Inr (JStr enc)" "unb64 enc = Inr nonce" "length nonce = 12"
    and n: "jitem (file_bulk f) ''ciphertext_size'' = Inr (JInt (file_size f + 16))" "file_size f = int (length content)"
    and io: "io_failure io = None" "io_conn io \<notin> set (broken s)" "io_ready io = Line (wire bulk_ready)"
      "io_stream io = aes_gcm_encrypt (lib_aead env) k nonce content
        (bulk_aad (session_id b) sender (own_id env) tid (file_id f) (file_size f))"
  shows "fst (receive_bulk_file env io (JStr sender) tid f s) =
    Inr (f\<lparr>file_data := content, file_received := file_size f\<rparr>)"
proof -
  have g: "aes_key k = Inr k" using k(2) by (simp add: aes_key_def)
  have ready: "expect ''bulk_ready'' ''bulk relay rejected transfer'' (io_ready io) = Inr ()"
    by (simp add: io(3) expect_announced)
  have l: "length (io_stream io) = length content + 16"
    using c by (simp add: io(4) aead_tagged_def)
  have "aes_gcm_decrypt (lib_aead env) k nonce (take (nat (file_size f) + 16) (io_stream io))
      (bulk_aad (session_id b) sender (own_id env) tid (file_id f) (file_size f)) = Some content"
    using c l n(2) by (simp add: io(4) aead_tagged_def aead_correct_def)
  then have "receive_stream (lib_aead env) k nonce (bulk_aad (session_id b) sender (own_id env) tid (file_id f) (file_size f))
      (JInt (file_size f + 16)) (file_size f) (io_stream io) = Inr content"
    using l n(2) by (simp add: receive_stream_def g)
  with b nonce n(1) io(1,2) k(1) ready show ?thesis
    by (simp add: receive_bulk_file_def unb64_json_def send_to_def andthen_def)
qed

text \<open>C5: a file sent over the bulk lane arrives unchanged: if one end prepares an asset and sends it to
  a peer, and the relay's pipe that joins the two bulk connections completes, then the other end,
  whose session is paired with the first one's and which has announced the same file, reads
  exactly the file's content from what the pipe handed it. Sender, relay and receiver agree on the
  length, the key, the nonce and the associated data.\<close>

theorem bulk_file_roundtrip:
  assumes "aead_tagged (lib_aead env)" and "\<forall>k salt label. length (lib_hkdf env k salt label) = 32"
    and "lib_aead env' = lib_aead env" and "lib_hkdf env' = lib_hkdf env"
    and "dget (peer_sessions s) (Text (own_id env')) = Some a" and "dget (peer_sessions s') (Text (own_id env)) = Some b"
    and "paired a b"
    and "prepare_outbound_assets env tid [nonce] (JStr (own_id env')) [x] s = Inr [p]" and "length nonce = 12"
    and "send_outbound_asset env io p s = (Inr (), t)"
    and "pipe_bulk ca cb (streamed_by s t) u = (Inr (), v)" and "bulk_length ca = ciphertext_size p"
    and "piped_to v (bulk_conn cb) = piped_to u (bulk_conn cb) @ io_stream io'"
    and "io_failure io' = None" and "io_conn io' \<notin> set (broken s')" and "io_ready io' = Line (wire bulk_ready)"
    and "file_id f = asset_id x" and "file_size f = ciphertext_size p - 16"
    and "jitem (file_bulk f) ''nonce'' = Inr (JStr (prepared_nonce p))"
    and "jitem (file_bulk f) ''ciphertext_size'' = Inr (JInt (ciphertext_size p))"
  shows "fst (receive_bulk_file env' io' (JStr (own_id env)) tid f s') =
    Inr (f\<lparr>file_data := asset_content x, file_received := file_size f\<rparr>)"
proof -
  obtain k where k: "bulk_key (lib_hkdf env) a (JStr tid) True = Inr k"
    and p: "p = \<lparr>prepared = x, prepared_transfer = tid, prepared_sender = own_id env, prepared_recipient = JStr (own_id env'),
      prepared_session = session_id a, prepared_nonce = b64u nonce, prepared_key = k\<rparr>"
    using assms(5,8) by (auto simp: prepare_outbound_assets_def bindE_eq_Inr checked_assets_def split: if_splits)
  have k': "bulk_key (lib_hkdf env) b (JStr tid) False = Inr k" "length k = 32"
    using k assms(2,7) by (auto simp: bulk_key_def paired_def split: if_splits)
  have sent: "streamed_by s t = file_ciphertext (lib_aead env) p (own_id env') nonce" "int (length (asset_content x)) = ciphertext_size p - 16"
    using send_outbound_streams [OF assms(10), of nonce "own_id env'"] by (simp_all add: p)
  have "length (streamed_by s t) = nat (ciphertext_size p)"
    using assms(1) sent by (simp add: file_ciphertext_def aead_tagged_def p)
  with assms(12,13) pipe_success(1) [OF assms(11)] have stream: "io_stream io' = streamed_by s t"
    by simp
  show ?thesis
    using assms(1,3,4,6,7,9,14-20) sent stream k'
    by (intro receive_file [where b = b and k = k and enc = "b64u nonce" and nonce = nonce])
       (simp_all add: p file_ciphertext_def paired_def)
qed

section \<open>Witness\<close>

definition demo_tagged :: aead where
  "demo_tagged = \<lparr>aes_gcm_encrypt = (\<lambda>k n p a. p @ replicate 16 0),
     aes_gcm_decrypt = (\<lambda>k n ct a.
       if 16 \<le> length ct \<and> drop (length ct - 16) ct = replicate 16 0 then Some (take (length ct - 16) ct) else None)\<rparr>"

definition demo_bulk_env :: "string \<Rightarrow> bytes client_env" where
  "demo_bulk_env me = \<lparr>lib_rsa = demo_rsa, lib_aead = demo_tagged, lib_hkdf = (\<lambda>k salt label. replicate 32 0),
     lib_hmac = (\<lambda>k m. []), own_key = [9], own_id = me, store_peers = True, exn_text = (\<lambda>e. [])\<rparr>"

definition demo_sender :: "unit client" where
  "demo_sender = (AppserveClient () None [] 0)\<lparr>peer_sessions := [(Text ''android'', demo_wisp)]\<rparr>"

definition demo_receiver :: "unit client" where
  "demo_receiver = (AppserveClient () None [] 0)\<lparr>peer_sessions := [(Text ''wisp'', demo_android)]\<rparr>"

definition demo_asset :: asset where
  "demo_asset = \<lparr>asset_id = ''a'', asset_name = ''a.txt'', asset_type = ''text/plain'', asset_size = JInt 3,
     asset_content = [1, 2, 3]\<rparr>"

definition demo_prepared :: prepared_asset where
  "demo_prepared = \<lparr>prepared = demo_asset, prepared_transfer = ''t'', prepared_sender = ''wisp'', prepared_recipient = JStr ''android'',
     prepared_session = ''s1'', prepared_nonce = b64u (replicate 12 0), prepared_key = replicate 32 0\<rparr>"

definition demo_io :: "conn \<Rightarrow> bytes \<Rightarrow> bulk_io" where
  "demo_io w stream = \<lparr>io_conn = w, io_failure = None, io_ready = Line (wire bulk_ready), io_stream = stream,
     io_complete = Line (wire bulk_complete)\<rparr>"

definition demo_incoming :: incoming_file where
  "demo_incoming = \<lparr>file_id = ''a'', file_field = ''f'', file_name = ''a.txt'', file_type = ''text/plain'', file_size = 3,
     file_bulk = [(''nonce'', JStr (b64u (replicate 12 0))), (''ciphertext_size'', JInt 19)], file_received = 0, file_data = []\<rparr>"

definition demo_pipe :: bulk where
  "demo_pipe = \<lparr>pending_bulk = [], consumed_bulk = [], pipe_tasks = [], bulk_paired = [], bulk_ended = [], bulk_clock = 0,
     bulk_sent = [], bulk_piped = [], bulk_closed = [], bulk_lost = []\<rparr>"

lemma demo_tagged: "aead_tagged demo_tagged"
  by (simp add: aead_tagged_def aead_correct_def demo_tagged_def)

lemma demo_send:
  "\<exists>t. send_outbound_asset (demo_bulk_env ''wisp'') (demo_io 1 []) demo_prepared demo_sender = (Inr (), t) \<and>
     streamed_by demo_sender t = [1, 2, 3] @ replicate 16 0"
proof -
  have "unb64 (prepared_nonce demo_prepared) = Inr (replicate 12 0)" "aes_key (prepared_key demo_prepared) = Inr (prepared_key demo_prepared)"
    "dget (peer_sessions demo_sender) (Text ''android'') = Some demo_wisp" "prepared_recipient demo_prepared = JStr ''android''" "broken demo_sender = []"
    by (simp_all add: demo_prepared_def aes_key_def demo_sender_def AppserveClient_def)
  moreover have "asset_content (prepared demo_prepared) = [1, 2, 3]" "ciphertext_size demo_prepared = 19"
    "lib_aead (demo_bulk_env me) = demo_tagged" for me
    by (simp_all add: demo_prepared_def demo_asset_def demo_bulk_env_def ciphertext_size_def)
  ultimately show ?thesis
    by (simp add: send_outbound_asset_def Let_def demo_io_def expect_announced send_to_def stream_to_def andthen_def
        demo_tagged_def streamed_by_def)
qed

lemma demo_prepare:
  "prepare_outbound_assets (demo_bulk_env ''wisp'') ''t'' [replicate 12 0] (JStr (own_id (demo_bulk_env ''android''))) [demo_asset]
     demo_sender = Inr [demo_prepared]"
  by (simp add: prepare_outbound_assets_def checked_assets_def demo_asset_def MAX_FILES_PER_ACTION_def MAX_FILE_ACTION_BYTES_def
      asset_char_def code_def demo_sender_def AppserveClient_def bulk_key_def demo_bulk_env_def demo_prepared_def demo_sessions)

lemma bulk_file_roundtrip_witness:
  "fst (receive_bulk_file (demo_bulk_env ''android'') (demo_io 2 ([1, 2, 3] @ replicate 16 0)) (JStr ''wisp'') ''t'' demo_incoming demo_receiver)
     = Inr (demo_incoming\<lparr>file_data := [1, 2, 3], file_received := 3\<rparr>)"
proof -
  define ca where "ca = \<lparr>bulk_conn = 1, bulk_client = ''wisp'', bulk_peer = ''android'', bulk_role = ''sender'', bulk_length = 19\<rparr>"
  define cb where "cb = ca\<lparr>bulk_conn := 2, bulk_role := ''receiver''\<rparr>"
  obtain t where t: "send_outbound_asset (demo_bulk_env ''wisp'') (demo_io 1 []) demo_prepared demo_sender = (Inr (), t)"
    "streamed_by demo_sender t = [1, 2, 3] @ replicate 16 0"
    using demo_send by blast
  obtain v where v: "pipe_bulk ca cb (streamed_by demo_sender t) demo_pipe = (Inr (), v)"
    "piped_to v (bulk_conn cb) = piped_to demo_pipe (bulk_conn cb) @ ([1, 2, 3] @ replicate 16 0)"
    by (simp add: t pipe_bulk_def send_bulk_def andthen_def demo_pipe_def ca_def cb_def copy_bulk.simps CHUNK_def piped_to_def)
  have "fst (receive_bulk_file (demo_bulk_env ''android'') (demo_io 2 ([1, 2, 3] @ replicate 16 0)) (JStr (own_id (demo_bulk_env ''wisp'')))
      ''t'' demo_incoming demo_receiver) =
    Inr (demo_incoming\<lparr>file_data := asset_content demo_asset, file_received := file_size demo_incoming\<rparr>)"
    by (rule bulk_file_roundtrip [OF _ _ _ _ _ _ _ demo_prepare _ t(1) v(1), where a = demo_wisp and b = demo_android])
       (simp_all add: demo_bulk_env_def demo_tagged demo_sender_def demo_receiver_def AppserveClient_def demo_io_def demo_incoming_def
         demo_prepared_def demo_asset_def ciphertext_size_def jitem_def ca_def v(2),
        simp_all add: paired_def demo_sessions)
  then show ?thesis by (simp add: demo_bulk_env_def demo_asset_def demo_incoming_def)
qed

end
