(* ===== verification/ClientConnect.thy ===== *)
theory ClientConnect
  imports ClientBulk
begin

text \<open>
  \<open>appserve/client.py\<close>, how a runtime gets connected: the pinned certificate of the relay, the
  endpoint authentication, the join and the registration of the Wisps, and the pauses between
  attempts. TLS itself is a parameter: what a connection shows of it is the peer's certificate.
  The fields of \<open>AppserveClient\<close> that only this part uses are the record \<open>link\<close>.
\<close>

section \<open>State\<close>

record link =
  tls_anchor :: "string option"
  anchor_file :: "json option"
  link_sent :: "(conn \<times> jdict) list"
  link_broken :: "conn list"

text \<open>What is fixed here besides the environment of the runtime.\<close>

record connect_env =
  lib_sha256 :: "bytes \<Rightarrow> bytes"
  server_public_key :: bytes
  client_kind :: string
  keeps_anchor :: bool

definition hexdigest :: "bytes \<Rightarrow> string" where
  "hexdigest bs = concat (map (\<lambda>b. [hex_char (unat b div 16), hex_char (unat b mod 16)]) bs)"

text \<open>The anchor cached on disk is used if it is 64 lower-case hexadecimal digits.\<close>

definition load_anchor :: "json option \<Rightarrow> string option" where
  "load_anchor stored =
     (case stored of
        Some (JObj d) \<Rightarrow>
          let v = py_str (dget_or d ''sha256'' (JStr []))
          in if length v = 64 \<and> (\<forall>c \<in> set v. is_digit c \<or> (97 \<le> code c \<and> code c \<le> 102)) then Some v else None
      | _ \<Rightarrow> None)"

definition put_line :: "conn \<Rightarrow> jdict \<Rightarrow> (link, unit) act" where
  "put_line w v l =
     (if w \<in> set (link_broken l) then (Inl (ConnectionError ''Connection lost''), l)
      else (Inr (), l\<lparr>link_sent := link_sent l @ [(w, v)]\<rparr>))"

section \<open>The relay's certificate\<close>

text \<open>The exchange over a first connection whose certificate is not checked.\<close>

record bootstrap_io =
  boot_conn :: conn
  boot_failure :: "exn option"
  boot_reply :: input
  boot_nonce :: bytes
  boot_key :: bytes
  boot_iv :: bytes
  boot_seed :: bytes

definition failing :: "exn option \<Rightarrow> unit result" where
  "failing f = (case f of Some e \<Rightarrow> Inl e | None \<Rightarrow> Inr ())"

definition read_certificate :: "'k client_env \<Rightarrow> connect_env \<Rightarrow> bootstrap_io \<Rightarrow> string result" where
  "read_certificate env cfg io =
     bindE (read_message (boot_reply io)) (\<lambda>m.
     if \<not> truthy (jget m ''ok'') \<or> \<not> eq_str (jget m ''type'') ''bootstrap_response'' then Inl OSError
     else
       bindE (jitem m ''payload'') (\<lambda>v. bindE (ascii_field v) (\<lambda>payload.
       bindE (decrypt_bootstrap_response (lib_rsa env) (lib_aead env) (lib_sha256 cfg) (own_key env) payload (boot_nonce io))
         (\<lambda>(_, certificate, digest).
       if hexdigest (lib_sha256 cfg certificate) \<noteq> hexdigest digest then Inl OSError
       else Inr (hexdigest (lib_sha256 cfg certificate))))))"

definition bootstrap_tls :: "'k client_env \<Rightarrow> connect_env \<Rightarrow> bootstrap_io \<Rightarrow> (link, unit) act" where
  "bootstrap_tls env cfg io =
     andthen (liftE (failing (boot_failure io))) (\<lambda>_.
     andthen (liftE (load_key (lib_rsa env) (server_public_key cfg))) (\<lambda>_.
     andthen (liftE (bindE (build_bootstrap_request (lib_rsa env) (lib_aead env) (boot_key io) (boot_iv io) (boot_seed io)
         (server_public_key cfg) (own_id env) (public_der (lib_rsa env) (own_key env)) (boot_nonce io) (client_kind cfg))
         ascii_decode)) (\<lambda>payload.
     andthen (put_line (boot_conn io) [(''type'', JStr ''bootstrap_request''), (''payload'', JStr payload)]) (\<lambda>_.
     andthen (liftE (read_certificate env cfg io)) (\<lambda>actual.
     modify (\<lambda>l. l\<lparr>tls_anchor := Some actual,
       anchor_file := (if keeps_anchor cfg then Some (JObj [(''sha256'', JStr actual)]) else anchor_file l)\<rparr>))))))"

text \<open>A connection to one of the relay's ports, and what it shows and delivers.\<close>

record endpoint_io =
  end_conn :: conn
  end_failure :: "exn option"
  end_certificate :: "bytes option"
  end_challenge :: input
  end_result :: input
  end_salt :: bytes

definition open_tls :: "'k client_env \<Rightarrow> connect_env \<Rightarrow> bootstrap_io \<Rightarrow> endpoint_io \<Rightarrow> (link, unit) act" where
  "open_tls env cfg boot io =
     andthen (gets tls_anchor) (\<lambda>anchor.
     andthen (if anchor = None then bootstrap_tls env cfg boot else ret ()) (\<lambda>_.
     andthen (liftE (failing (end_failure io))) (\<lambda>_.
     case end_certificate io of
       None \<Rightarrow> throw OSError
     | Some certificate \<Rightarrow>
         andthen (gets tls_anchor) (\<lambda>anchor.
         if Some (hexdigest (lib_sha256 cfg certificate)) \<noteq> anchor then throw OSError else ret ()))))"

section \<open>Endpoint authentication\<close>

definition hello_message :: "'k client_env \<Rightarrow> connect_env \<Rightarrow> string \<Rightarrow> jdict" where
  "hello_message env cfg role =
     [(''type'', JStr ''auth_hello''), (''role'', JStr role), (''client_id'', JStr (own_id env)),
      (''client_kind'', JStr (client_kind cfg)), (''public_key'', JStr (public_key_text (lib_rsa env) (own_key env)))]"

text \<open>\<open>ticket\<close>, \<open>peer\<close> and \<open>length\<close> are left at their default, the empty text.\<close>

definition client_transcript :: "string \<Rightarrow> string \<Rightarrow> string \<Rightarrow> string" where
  "client_transcript role cid challenge =
     intercalate [CHR 0x0A] [''wisp-relay-auth-v1'', role, cid, challenge, [], [], []]"

definition proof_message :: "'k client_env \<Rightarrow> bytes \<Rightarrow> bytes \<Rightarrow> jdict" where
  "proof_message env salt signed_text =
     [(''type'', JStr ''auth_proof''), (''signature'', JStr (b64u (pss_sign (lib_rsa env) (own_key env) salt signed_text)))]"

definition refusal :: "jdict \<Rightarrow> string \<Rightarrow> (link, 'a) act" where
  "refusal m fallback = throw (ConnectionError (py_str (dget_or m ''error'' (JStr fallback))))"

definition complete_auth :: "'k client_env \<Rightarrow> string \<Rightarrow> endpoint_io \<Rightarrow> (link, unit) act" where
  "complete_auth env role io =
     andthen (liftE (read_message (end_challenge io))) (\<lambda>challenge.
     if \<not> eq_str (jget challenge ''type'') ''auth_challenge''
     then refusal challenge ''relay did not issue an endpoint challenge''
     else
       andthen (liftE (jitem challenge ''challenge'')) (\<lambda>c.
       andthen (liftE (ascii_encode (client_transcript role (own_id env) (py_str c)))) (\<lambda>signed_text.
       andthen (put_line (end_conn io) (proof_message env (end_salt io) signed_text)) (\<lambda>_.
       andthen (liftE (read_message (end_result io))) (\<lambda>result.
       if \<not> truthy (jget result ''ok'') then refusal result ''endpoint authentication rejected'' else ret ())))))"

definition authenticate_endpoint :: "'k client_env \<Rightarrow> connect_env \<Rightarrow> string \<Rightarrow> endpoint_io \<Rightarrow> (link, unit) act" where
  "authenticate_endpoint env cfg role io =
     andthen (put_line (end_conn io) (hello_message env cfg role)) (\<lambda>_. complete_auth env role io)"

section \<open>One attempt\<close>

definition join_relay :: "'k client_env \<Rightarrow> endpoint_io \<Rightarrow> input \<Rightarrow> (link, unit) act" where
  "join_relay env io joined =
     andthen (put_line (end_conn io) [(''type'', JStr ''join''), (''client_id'', JStr (own_id env))]) (\<lambda>_.
     andthen (liftE (read_message joined)) (\<lambda>m.
     if \<not> truthy (jget m ''ok'') then refusal m ''join failed'' else ret ()))"

text \<open>The log line at the end iterates over the returned items.\<close>

definition register_items :: "'k client_env \<Rightarrow> endpoint_io \<Rightarrow> input \<Rightarrow> 'w client \<Rightarrow> (link, unit) act" where
  "register_items env io listing s =
     andthen (put_line (end_conn io) (registration_message env s)) (\<lambda>_.
     andthen (liftE (read_message listing)) (\<lambda>m.
     if \<not> truthy (jget m ''ok'') \<or> \<not> eq_str (jget m ''type'') ''wisps_registered''
     then refusal m ''Wisp registration rejected''
     else andthen (liftE (iterate (dget_or m ''items'' (JList [])))) (\<lambda>_. ret ())))"

text \<open>
  \<open>_serve_once\<close> up to the event loop: when it returns, the runtime continues with
  \<open>Connected (end_conn relay)\<close>; an exception ends the attempt.
\<close>

definition serve_once ::
  "'k client_env \<Rightarrow> connect_env \<Rightarrow> bootstrap_io \<Rightarrow> endpoint_io \<Rightarrow> input \<Rightarrow> input \<Rightarrow> endpoint_io \<Rightarrow> input
     \<Rightarrow> 'w client \<Rightarrow> (link, unit) act" where
  "serve_once env cfg boot control joined listing relay ready s =
     andthen (open_tls env cfg boot control) (\<lambda>_.
     andthen (authenticate_endpoint env cfg ''control'' control) (\<lambda>_.
     andthen (join_relay env control joined) (\<lambda>_.
     andthen (register_items env control listing s) (\<lambda>_.
     andthen (open_tls env cfg boot relay) (\<lambda>_.
     andthen (authenticate_endpoint env cfg ''relay'' relay) (\<lambda>_.
     andthen (liftE (read_message ready)) (\<lambda>m.
     if \<not> truthy (jget m ''ok'') then refusal m ''session failed'' else ret ())))))))"

text \<open>\<open>serve\<close>: the pause after an attempt, given whether the attempt got as far as the event loop's
  end, and the pause that is remembered for the next one.\<close>

definition next_pause :: "bool \<Rightarrow> rat \<Rightarrow> rat \<times> rat" where
  "next_pause returned delay = (let d = (if returned then 1 else delay) in (d, min (d * 2) 30))"

primrec pauses :: "bool list \<Rightarrow> rat \<Rightarrow> rat list" where
  "pauses [] delay = []"
| "pauses (r # rs) delay = fst (next_pause r delay) # pauses rs (snd (next_pause r delay))"

section \<open>The pinned certificate\<close>

definition anchored :: "link \<Rightarrow> link \<Rightarrow> bool" where
  "anchored l m \<longleftrightarrow> (tls_anchor l \<noteq> None \<longrightarrow> tls_anchor m = tls_anchor l \<and> anchor_file m = anchor_file l)"

interpretation anchored: effect_relation anchored
  by unfold_locales (auto simp: anchored_def)

lemma put_line_anchored: "stays anchored (put_line w v)"
  by (simp add: stays_def put_line_def anchored_def)

lemma open_tls_anchored: "stays anchored (open_tls env cfg boot io)"
proof -
  have rest: "stays anchored (andthen (liftE (failing (end_failure io))) (\<lambda>_. case end_certificate io of
      None \<Rightarrow> throw OSError
    | Some certificate \<Rightarrow> andthen (gets tls_anchor) (\<lambda>anchor.
        if Some (hexdigest (lib_sha256 cfg certificate)) \<noteq> anchor then throw OSError else ret ())))"
    by (intro anchored.stays_rules)
  show ?thesis
    unfolding stays_def
  proof
    fix l
    show "anchored l (snd (open_tls env cfg boot io l))"
    proof (cases "tls_anchor l")
      case None
      then show ?thesis by (simp add: anchored_def)
    next
      case (Some a)
      with stays_at [OF rest, of l] show ?thesis by (simp add: open_tls_def)
    qed
  qed
qed

lemma complete_auth_anchored: "stays anchored (complete_auth env role io)"
  unfolding complete_auth_def refusal_def by (intro anchored.stays_rules put_line_anchored)

lemma serve_once_anchored: "stays anchored (serve_once env cfg boot control joined listing relay ready s)"
  unfolding serve_once_def authenticate_endpoint_def join_relay_def register_items_def refusal_def
  by (intro anchored.stays_rules put_line_anchored open_tls_anchored complete_auth_anchored)

lemma phases_anchored:
  "stays anchored (andthen (authenticate_endpoint env cfg role io) (\<lambda>_. andthen (join_relay env io joined) (\<lambda>_.
     register_items env io listing s)))"
  "stays anchored (andthen (authenticate_endpoint env cfg role io) (\<lambda>_. andthen (liftE r) (\<lambda>m.
     if \<not> truthy (jget m ''ok'') then refusal m e else ret ())))"
  unfolding authenticate_endpoint_def join_relay_def register_items_def refusal_def
  by (intro anchored.stays_rules put_line_anchored complete_auth_anchored)+

lemma bootstrap_anchor:
  assumes "bootstrap_tls env cfg io l = (Inr (), m)"
  shows "\<exists>payload certificate. decrypt_bootstrap_response (lib_rsa env) (lib_aead env) (lib_sha256 cfg) (own_key env) payload (boot_nonce io)
      = Inr (boot_nonce io, certificate, lib_sha256 cfg certificate) \<and> tls_anchor m = Some (hexdigest (lib_sha256 cfg certificate))"
proof -
  from assms obtain actual where actual: "read_certificate env cfg io = Inr actual" "tls_anchor m = Some actual"
    by (auto simp: bootstrap_tls_def andthen_Inr)
  then obtain payload n c d where
    dec: "decrypt_bootstrap_response (lib_rsa env) (lib_aead env) (lib_sha256 cfg) (own_key env) payload (boot_nonce io) = Inr (n, c, d)"
    and "actual = hexdigest (lib_sha256 cfg c)"
    by (auto simp: read_certificate_def bindE_eq_Inr split: if_splits)
  moreover have "n = boot_nonce io" "d = lib_sha256 cfg c"
    using dec by (auto simp: decrypt_bootstrap_response_def bindE_eq_Inr split: if_splits)
  ultimately show ?thesis using actual(2) by blast
qed

lemma open_tls_checks:
  assumes "open_tls env cfg boot io l = (Inr (), m)"
  shows "\<exists>c. end_certificate io = Some c \<and> tls_anchor m = Some (hexdigest (lib_sha256 cfg c))"
  using assms by (auto simp: open_tls_def andthen_Inr split: if_splits option.splits)

text \<open>C9: a runtime talks only to the relay it is pinned to: when an attempt to connect gets as far as
  the event loop, both connections showed a certificate with the pinned digest, which is the one
  cached before or, on first contact, that of the certificate the relay sealed to this identity
  with this attempt's nonce; and whatever the attempt meets, a pinned digest never changes.\<close>

theorem relay_certificate_is_pinned:
  assumes "serve_once env cfg boot control joined listing relay ready s l = (r, m)"
  shows "(tls_anchor l \<noteq> None \<longrightarrow> tls_anchor m = tls_anchor l) \<and>
    (r = Inr () \<longrightarrow>
       (\<exists>c d. end_certificate control = Some c \<and> end_certificate relay = Some d \<and>
          tls_anchor m = Some (hexdigest (lib_sha256 cfg c)) \<and> tls_anchor m = Some (hexdigest (lib_sha256 cfg d))) \<and>
       (tls_anchor l = None \<longrightarrow>
          (\<exists>payload c. decrypt_bootstrap_response (lib_rsa env) (lib_aead env) (lib_sha256 cfg) (own_key env) payload (boot_nonce boot)
             = Inr (boot_nonce boot, c, lib_sha256 cfg c) \<and> tls_anchor m = Some (hexdigest (lib_sha256 cfg c)))))"
proof (intro conjI impI)
  show pinned: "tls_anchor m = tls_anchor l" if "tls_anchor l \<noteq> None"
    using staysD [OF serve_once_anchored assms] that by (simp add: anchored_def)
  assume "r = Inr ()"
  with assms obtain l1 l2 l3 where
    l1: "open_tls env cfg boot control l = (Inr (), l1)"
    and l2: "andthen (authenticate_endpoint env cfg ''control'' control) (\<lambda>_. andthen (join_relay env control joined) (\<lambda>_.
        register_items env control listing s)) l1 = (Inr (), l2)"
    and l3: "open_tls env cfg boot relay l2 = (Inr (), l3)"
    and m: "andthen (authenticate_endpoint env cfg ''relay'' relay) (\<lambda>_. andthen (liftE (read_message ready)) (\<lambda>m.
        if \<not> truthy (jget m ''ok'') then refusal m ''session failed'' else ret ())) l3 = (Inr (), m)"
    by (auto simp: serve_once_def andthen_Inr)
  obtain c where c: "end_certificate control = Some c" "tls_anchor l1 = Some (hexdigest (lib_sha256 cfg c))"
    using open_tls_checks [OF l1] by blast
  obtain d where d: "end_certificate relay = Some d" "tls_anchor l3 = Some (hexdigest (lib_sha256 cfg d))"
    using open_tls_checks [OF l3] by blast
  have "anchored l1 l2"
    by (rule staysD [OF phases_anchored(1) l2])
  moreover have "anchored l2 l3" by (rule staysD [OF open_tls_anchored l3])
  moreover have "anchored l3 m"
    by (rule staysD [OF phases_anchored(2) m])
  ultimately have a: "tls_anchor m = tls_anchor l1" "tls_anchor m = tls_anchor l3"
    using c(2) d(2) by (auto simp: anchored_def)
  with c d show "\<exists>c d. end_certificate control = Some c \<and> end_certificate relay = Some d \<and>
      tls_anchor m = Some (hexdigest (lib_sha256 cfg c)) \<and> tls_anchor m = Some (hexdigest (lib_sha256 cfg d))"
    by auto
  assume "tls_anchor l = None"
  with l1 obtain l0 where "bootstrap_tls env cfg boot l = (Inr (), l0)" "tls_anchor l1 = tls_anchor l0"
    by (auto simp: open_tls_def andthen_Inr split: if_splits option.splits)
  with bootstrap_anchor a(1) show "\<exists>payload c. decrypt_bootstrap_response (lib_rsa env) (lib_aead env) (lib_sha256 cfg) (own_key env) payload
      (boot_nonce boot) = Inr (boot_nonce boot, c, lib_sha256 cfg c) \<and> tls_anchor m = Some (hexdigest (lib_sha256 cfg c))"
    by metis
qed

section \<open>Authentication goes through\<close>

lemma hello_fields [simp]:
  "jget (hello_message env cfg role) ''role'' = JStr role"
  "jget (hello_message env cfg role) ''client_id'' = JStr (own_id env)"
  "jget (hello_message env cfg role) ''public_key'' = JStr (public_key_text (lib_rsa env) (own_key env))"
  "dget_or (hello_message env cfg role) ''client_kind'' v = JStr (client_kind cfg)"
  "dget_or (hello_message env cfg role) ''ticket'' v = v"
  "dget_or (hello_message env cfg role) ''peer'' v = v"
  "dget_or (hello_message env cfg role) ''length'' v = v"
  by (simp_all add: hello_message_def jget_def dget_or_def)

lemma answer_fields [simp]:
  "jget (proof_message env salt bs) ''type'' = JStr ''auth_proof''"
  "jget (proof_message env salt bs) ''signature'' = JStr (b64u (pss_sign (lib_rsa env) (own_key env) salt bs))"
  "jget (challenge_message challenge) ''type'' = JStr ''auth_challenge''"
  "jitem (challenge_message challenge) ''challenge'' = Inr (JStr challenge)"
  "jget (authenticated_message cid) ''ok'' = JBool True"
  by (simp_all add: proof_message_def challenge_message_def authenticated_message_def jget_def dget_or_def jitem_def)

lemma answers_read:
  "read_message (Line (wire (challenge_message challenge))) = Inr (challenge_message challenge)"
  "read_message (Line (wire (authenticated_message cid))) = Inr (authenticated_message cid)"
  by (rule read_wire, simp add: challenge_message_def authenticated_message_def wf_dict_def)+

definition waiting_for :: "'k client_env \<Rightarrow> string \<Rightarrow> string \<Rightarrow> auth_wait" where
  "waiting_for env role key = \<lparr>wait_role = role, wait_client = own_id env, wait_known = True, wait_key = key,
     wait_ticket = JStr [], wait_peer = JStr [], wait_length = JStr []\<rparr>"

text \<open>The relay's side, when it knows the endpoint under this key.\<close>

definition known_endpoint :: "'k client_env \<Rightarrow> relay \<Rightarrow> bool" where
  "known_endpoint env s \<longleftrightarrow>
     client_access (state s) (own_id env) (JStr (public_key_text (lib_rsa env) (own_key env))) \<in> {''approved'', ''admin''}"

lemma known_record:
  assumes "known_endpoint env s"
  obtains rec where "dget (clients (state s)) (own_id env) = Some rec"
    and "key_eq (jget rec ''public_key'') (JStr (public_key_text (lib_rsa env) (own_key env)))"
  using assms by (auto simp: known_endpoint_def client_access_def split: option.splits if_splits)

lemma hello_accepted:
  assumes "rsa_correct (lib_rsa env) (own_key env)" and "rsa_lib renv = lib_rsa env" and "known_endpoint env s"
    and "own_id env \<noteq> []" and "length (own_id env) \<le> 128" and "role \<in> roles"
    and "w \<notin> set (lost_conns s)" and "w \<notin> set (closed_conns s)"
  shows "auth_hello renv w (JObj (hello_message env cfg role)) roles challenge key s =
    (Inr (Some (waiting_for env role key)),
     s\<lparr>auth_challenges := dput key (own_id env, public_key_text (lib_rsa env) (own_key env), challenge,
         JStr (client_kind cfg), monotonic s + 60) (auth_challenges s),
       outbox := outbox s @ [(w, challenge_message challenge)]\<rparr>)"
proof -
  obtain rec where "dget (clients (state s)) (own_id env) = Some rec"
    "key_eq (jget rec ''public_key'') (JStr (public_key_text (lib_rsa env) (own_key env)))"
    using assms(3) by (rule known_record)
  moreover have "valid_endpoint_public_key (lib_rsa env) (JStr (public_key_text (lib_rsa env) (own_key env)))"
    using rsa_correctD(1) [OF assms(1)] by (auto simp: valid_endpoint_public_key_def public_key_text_def)
  ultimately show ?thesis
    using assms(2,4-8)
    by (simp add: auth_hello_def Let_def send_json_def andthen_def waiting_for_def)
qed

lemma known_admitted:
  assumes "known_endpoint env s" and "wait_known a" and "w \<notin> set (lost_conns s)" and "w \<notin> set (closed_conns s)"
  shows "\<exists>t. admit w a allow (own_id env) (public_key_text (lib_rsa env) (own_key env)) kind s = (Inr (Some (own_id env)),
      s\<lparr>state := t, outbox := outbox s @ [(w, authenticated_message (own_id env))]\<rparr>) \<and>
    t = save (set_kind (own_id env) kind (snd (register_client (state s) (own_id env)
      (JStr (public_key_text (lib_rsa env) (own_key env))) False (wall_clock s))))"
proof -
  let ?pk = "JStr (public_key_text (lib_rsa env) (own_key env))"
  obtain access where access: "client_access (state s) (own_id env) ?pk = access" "access \<in> {''approved'', ''admin''}"
    using assms(1) by (simp add: known_endpoint_def)
  obtain r t where reg: "register_client (state s) (own_id env) ?pk False (wall_clock s) = (r, t)" by force
  have "access \<notin> {''unknown_endpoint'', ''endpoint_key_changed''}" using access(2) by auto
  from client_access_visit [OF access(1) this _ reg, of kind] have "r = Inr ()" by simp
  with access reg assms(2-4) show ?thesis
    by (intro exI conjI) (auto simp: admit_def on_state_def send_json_def andthen_def)
qed

lemma transcripts_agree: "transcript (waiting_for env role key) challenge = client_transcript role (own_id env) challenge"
  by (simp add: transcript_def client_transcript_def waiting_for_def)

lemma proof_accepted:
  assumes "rsa_correct (lib_rsa env) (own_key env)" and "rsa_lib renv = lib_rsa env" and "known_endpoint env s"
    and "w \<notin> set (lost_conns s)" and "w \<notin> set (closed_conns s)"
    and "ascii_encode (client_transcript role (own_id env) challenge) = Inr signed_text"
    and "dget (auth_challenges s) key
      = Some (own_id env, public_key_text (lib_rsa env) (own_key env), challenge, kind, expires)"
    and "monotonic s \<le> expires"
  shows "\<exists>t. auth_proof renv w (waiting_for env role key) allow (JObj (proof_message env salt signed_text)) s = (Inr (Some (own_id env)),
      s\<lparr>state := t, auth_challenges := dpop key (auth_challenges s), outbox := outbox s @ [(w, authenticated_message (own_id env))]\<rparr>) \<and>
    t = save (set_kind (own_id env) kind (snd (register_client (state s) (own_id env)
      (JStr (public_key_text (lib_rsa env) (own_key env))) False (wall_clock s))))"
proof -
  let ?a = "waiting_for env role key" and ?pk = "public_key_text (lib_rsa env) (own_key env)"
  let ?u = "s\<lparr>auth_challenges := dpop key (auth_challenges s)\<rparr>"
  have ok: "proof_ok renv ?pk (b64u (pss_sign (lib_rsa env) (own_key env) salt signed_text)) expires (monotonic s) signed_text"
    using rsa_correctD(1,3) [OF assms(1)] assms(2,8) by (auto simp: proof_ok_def public_key_text_def)
  have "known_endpoint env ?u" using assms(3) by (simp add: known_endpoint_def)
  from known_admitted [OF this, of ?a w allow kind] assms(4,5) obtain t where
    t: "admit w ?a allow (own_id env) ?pk kind ?u
      = (Inr (Some (own_id env)), ?u\<lparr>state := t, outbox := outbox s @ [(w, authenticated_message (own_id env))]\<rparr>)"
    "t = save (set_kind (own_id env) kind (snd (register_client (state s) (own_id env) (JStr ?pk) False (wall_clock s))))"
    by (auto simp: waiting_for_def)
  have "wait_key ?a = key" by (simp add: waiting_for_def)
  with assms(6,7) ok t(1) have "auth_proof renv w ?a allow (JObj (proof_message env salt signed_text)) s
      = (Inr (Some (own_id env)), ?u\<lparr>state := t, outbox := outbox s @ [(w, authenticated_message (own_id env))]\<rparr>)"
    by (simp add: auth_proof_def eq_str_def transcripts_agree)
  with t(2) show ?thesis by (intro exI [of _ t]) simp
qed

lemma client_answers_challenge:
  assumes "ascii_encode (client_transcript role (own_id env) challenge) = Inr signed_text"
    and "end_challenge io = Line (wire (challenge_message challenge))"
    and "end_result io = Line (wire (authenticated_message (own_id env)))"
    and "end_conn io \<notin> set (link_broken l)"
  shows "authenticate_endpoint env cfg role io l = (Inr (), l\<lparr>link_sent := link_sent l @
      [(end_conn io, hello_message env cfg role), (end_conn io, proof_message env (end_salt io) signed_text)]\<rparr>)"
  using assms by (simp add: authenticate_endpoint_def complete_auth_def put_line_def andthen_def answers_read eq_str_def)

text \<open>A runtime that the relay knows gets in: the relay answers its hello with a challenge, the
  runtime answers the challenge with a proof the relay accepts if it arrives within a minute, and
  the relay's last answer ends the runtime's side without an exception. Both sides sign and check
  the same transcript.\<close>

theorem known_runtime_authenticates:
  assumes "rsa_correct (lib_rsa env) (own_key env)" and "rsa_lib renv = lib_rsa env" and "known_endpoint env s"
    and "own_id env \<noteq> []" and "length (own_id env) \<le> 128" and "role \<in> roles"
    and "w \<notin> set (lost_conns s)" and "w \<notin> set (closed_conns s)"
    and "ascii_encode (client_transcript role (own_id env) challenge) = Inr signed_text"
    and "end_challenge io = Line (wire (challenge_message challenge))"
    and "end_result io = Line (wire (authenticated_message (own_id env)))"
    and "end_conn io \<notin> set (link_broken l)" and "delay \<le> 60"
  shows "\<exists>a s1 s2 proof.
     auth_hello renv w (JObj (hello_message env cfg role)) roles challenge key s = (Inr (Some a), s1) \<and>
     outbox s1 = outbox s @ [(w, challenge_message challenge)] \<and>
     authenticate_endpoint env cfg role io l =
       (Inr (), l\<lparr>link_sent := link_sent l @ [(end_conn io, hello_message env cfg role), (end_conn io, proof)]\<rparr>) \<and>
     auth_proof renv w a allow (JObj proof) (s1\<lparr>monotonic := monotonic s1 + delay\<rparr>) = (Inr (Some (own_id env)), s2) \<and>
     outbox s2 = outbox s1 @ [(w, authenticated_message (own_id env))]"
proof -
  let ?s1 = "s\<lparr>auth_challenges := dput key (own_id env, public_key_text (lib_rsa env) (own_key env), challenge,
        JStr (client_kind cfg), monotonic s + 60) (auth_challenges s), outbox := outbox s @ [(w, challenge_message challenge)]\<rparr>"
  have hello: "auth_hello renv w (JObj (hello_message env cfg role)) roles challenge key s = (Inr (Some (waiting_for env role key)), ?s1)"
    by (rule hello_accepted) (rule assms)+
  have "known_endpoint env (?s1\<lparr>monotonic := monotonic ?s1 + delay\<rparr>)" using assms(3) by (simp add: known_endpoint_def)
  from proof_accepted [OF assms(1,2) this _ _ assms(9), of w key "JStr (client_kind cfg)" "monotonic s + 60" allow "end_salt io"]
    assms(7,8,13) hello client_answers_challenge [OF assms(9-12)]
  show ?thesis by (intro exI conjI) auto
qed

section \<open>Pauses\<close>

text \<open>However many attempts fail, the next one follows after at most thirty seconds.\<close>

lemma pauses_bounded: "1 \<le> delay \<Longrightarrow> delay \<le> 30 \<Longrightarrow> p \<in> set (pauses rs delay) \<Longrightarrow> 1 \<le> p \<and> p \<le> 30"
proof (induction rs arbitrary: delay)
  case (Cons r rs)
  have "1 \<le> snd (next_pause r delay)" "snd (next_pause r delay) \<le> 30" "1 \<le> fst (next_pause r delay)" "fst (next_pause r delay) \<le> 30"
    using Cons.prems(1,2) by (auto simp: next_pause_def min_def)
  with Cons show ?case by auto
qed simp

section \<open>Witnesses\<close>

definition demo_connect_env :: connect_env where
  "demo_connect_env = \<lparr>lib_sha256 = (\<lambda>bs. [of_nat (length bs)]), server_public_key = [7], client_kind = ''python-wisp'', keeps_anchor = True\<rparr>"

definition demo_endpoint_io :: "string \<Rightarrow> endpoint_io" where
  "demo_endpoint_io challenge = \<lparr>end_conn = 4, end_failure = None, end_certificate = Some [1, 2],
     end_challenge = Line (wire (challenge_message challenge)), end_result = Line (wire (authenticated_message ''wisp'')),
     end_salt = []\<rparr>"

definition demo_link :: link where
  "demo_link = \<lparr>tls_anchor = Some ''02'', anchor_file = None, link_sent = [], link_broken = []\<rparr>"

lemma known_runtime_authenticates_witness:
  "\<exists>a s1 s2 proof.
     auth_hello demo_env 6 (JObj (hello_message (demo_bulk_env ''wisp'') demo_connect_env ''relay'')) {''relay''} ''c'' ''k'' demo_relay = (Inr (Some a), s1) \<and>
     outbox s1 = outbox demo_relay @ [(6, challenge_message ''c'')] \<and>
     authenticate_endpoint (demo_bulk_env ''wisp'') demo_connect_env ''relay'' (demo_endpoint_io ''c'') demo_link =
       (Inr (), demo_link\<lparr>link_sent := link_sent demo_link @ [(end_conn (demo_endpoint_io ''c''), hello_message (demo_bulk_env ''wisp'') demo_connect_env ''relay''),
          (end_conn (demo_endpoint_io ''c''), proof)]\<rparr>) \<and>
     auth_proof demo_env 6 a True (JObj proof) (s1\<lparr>monotonic := monotonic s1 + 5\<rparr>) = (Inr (Some (own_id (demo_bulk_env ''wisp''))), s2) \<and>
     outbox s2 = outbox s1 @ [(6, authenticated_message (own_id (demo_bulk_env ''wisp'')))]"
proof (rule known_runtime_authenticates)
  show "known_endpoint (demo_bulk_env ''wisp'') demo_relay"
    by (simp add: known_endpoint_def demo_bulk_env_def client_access_def demo_simps demo_key_def public_key_text_def
        demo_rsa_def jget_def dget_or_def)
  have "client_transcript ''relay'' ''wisp'' ''c'' = ''wisp-relay-auth-v1'' @ [CHR 10] @ ''relay'' @ [CHR 10] @ ''wisp'' @ [CHR 10] @ ''c'' @ [CHR 10, CHR 10, CHR 10]"
    by (simp add: client_transcript_def)
  then show "ascii_encode (client_transcript ''relay'' (own_id (demo_bulk_env ''wisp'')) ''c'') =
      Inr (map (\<lambda>c. of_nat (code c)) (client_transcript ''relay'' ''wisp'' ''c''))"
    by (simp add: demo_bulk_env_def ascii_encode_def code_def)
qed (simp_all add: demo_bulk_env_def demo_rsa_correct demo_endpoint_io_def demo_link_def, simp_all add: demo_simps)

definition demo_ok :: input where
  "demo_ok = Line (wire [(''ok'', JBool True), (''type'', JStr ''wisps_registered'')])"

lemma demo_serves:
  "fst (serve_once (demo_bulk_env ''wisp'') demo_connect_env boot (demo_endpoint_io ''c'') demo_ok demo_ok (demo_endpoint_io ''c'') demo_ok
     demo_sender demo_link) = Inr ()"
proof -
  let ?env = "demo_bulk_env ''wisp''" and ?io = "demo_endpoint_io ''c''"
  have ok: "read_message demo_ok = Inr [(''ok'', JBool True), (''type'', JStr ''wisps_registered'')]"
    unfolding demo_ok_def by (rule read_wire) (simp add: wf_dict_def)
  have hex: "hexdigest [2] = ''02''" by code_simp
  let ?fine = "\<lambda>l. tls_anchor l = Some ''02'' \<and> link_broken l = []"
  have tls: "open_tls ?env demo_connect_env boot ?io l = (Inr (), l)" if "?fine l" for l
    using that hex by (simp add: open_tls_def failing_def demo_endpoint_io_def demo_connect_env_def)
  have ascii: "\<exists>bs. ascii_encode (client_transcript role ''wisp'' ''c'') = Inr bs" if "role \<in> {''control'', ''relay''}" for role
    using that by (auto simp: client_transcript_def ascii_encode_def code_def)
  have auth: "\<exists>m. authenticate_endpoint ?env demo_connect_env role ?io l = (Inr (), m) \<and> ?fine m"
    if "?fine l" "role \<in> {''control'', ''relay''}" for role l
    using ascii [OF that(2)] that(1) answers_read(1) [of "''c''"] answers_read(2) [of "''wisp''"]
    by (auto simp: authenticate_endpoint_def complete_auth_def put_line_def andthen_def eq_str_def demo_endpoint_io_def demo_bulk_env_def)
  have join: "\<exists>m. join_relay ?env ?io demo_ok l = (Inr (), m) \<and> ?fine m"
    and register: "\<exists>m. register_items ?env ?io demo_ok demo_sender l = (Inr (), m) \<and> ?fine m" if "?fine l" for l
    using that ok by (simp_all add: join_relay_def register_items_def put_line_def andthen_def jget_def dget_or_def eq_str_def iterate_def)
  have "?fine demo_link" by (simp add: demo_link_def)
  from auth [OF this, of "''control''"] obtain l1 where l1: "authenticate_endpoint ?env demo_connect_env ''control'' ?io demo_link = (Inr (), l1)"
    "?fine l1" by auto
  from join [OF l1(2)] obtain l2 where l2: "join_relay ?env ?io demo_ok l1 = (Inr (), l2)" "?fine l2" by auto
  from register [OF l2(2)] obtain l3 where l3: "register_items ?env ?io demo_ok demo_sender l2 = (Inr (), l3)" "?fine l3" by auto
  from auth [OF l3(2), of "''relay''"] obtain l4 where l4: "authenticate_endpoint ?env demo_connect_env ''relay'' ?io l3 = (Inr (), l4)"
    by auto
  show ?thesis
    using tls [OF \<open>?fine demo_link\<close>] l1(1) l2(1) l3(1) tls [OF l3(2)] l4 ok
    by (simp add: serve_once_def andthen_def jget_def dget_or_def)
qed

lemma relay_certificate_is_pinned_witness:
  "\<exists>m. serve_once (demo_bulk_env ''wisp'') demo_connect_env
      \<lparr>boot_conn = 1, boot_failure = None, boot_reply = TimedOut, boot_nonce = [], boot_key = [], boot_iv = [], boot_seed = []\<rparr>
      (demo_endpoint_io ''c'') demo_ok demo_ok (demo_endpoint_io ''c'') demo_ok demo_sender demo_link = (Inr (), m) \<and>
     tls_anchor m = Some ''02''"
proof -
  obtain m where m: "serve_once (demo_bulk_env ''wisp'') demo_connect_env
      \<lparr>boot_conn = 1, boot_failure = None, boot_reply = TimedOut, boot_nonce = [], boot_key = [], boot_iv = [], boot_seed = []\<rparr>
      (demo_endpoint_io ''c'') demo_ok demo_ok (demo_endpoint_io ''c'') demo_ok demo_sender demo_link = (Inr (), m)"
    using demo_serves by (metis prod.collapse)
  from relay_certificate_is_pinned [OF m] m show ?thesis by (auto simp: demo_link_def)
qed

end
