(* ===== verification/EndToEnd.thy ===== *)
theory EndToEnd
  imports ClientAnswers ClientBulk RelaySystem
begin

text \<open>
  The whole way of an action: the endpoint's \<open>PeerSession\<close>, the relay's handler of the endpoint's
  connection, the runtime's event loop and the Wisp's callback, the handler of the runtime's
  connection, and the endpoint's session again.
\<close>

section \<open>Through the relay\<close>

definition connected :: "relay \<Rightarrow> client_id \<Rightarrow> conn \<Rightarrow> bool" where
  "connected s cid w \<longleftrightarrow> (\<exists>x. dget (sessions s) cid = Some (x, w)) \<and> writable s w"

text \<open>What the relay's checks of a frame come to, for the session a frame is sent on.\<close>

definition sendable :: "aead \<Rightarrow> peer_session \<Rightarrow> jdict \<Rightarrow> bool" where
  "sendable c s body \<longleftrightarrow> session_id s \<noteq> [] \<and> truthy (peer_id s) \<and> wf_json (peer_id s) \<and> 0 \<le> send_sequence s \<and> send_sequence s < 2 ^ 64 \<and>
     (let n = length (b64u (sealed c s body (send_sequence s))) in 0 < n \<and> n \<le> 1024 * 1024) \<and> wf_json (JObj body)"

lemma frame_dict:
  "frame c s body n = session_route (session_id s) (JStr (local_id s)) (peer_id s) n @ [(''ciphertext'', JStr (b64u (sealed c s body n)))]"
  by (simp add: frame_def session_route_def)

lemma frame_wf: "wf_json (peer_id s) \<Longrightarrow> wf_json (JObj (frame c s body n))"
  by (simp add: frame_dict session_route_def wf_dict_def)

lemma frame_route [simp]:
  "jget (frame c s body n) ''type'' = JStr ''session_envelope''"
  "jget (frame c s body n) ''sender'' = JStr (local_id s)"
  "jget (frame c s body n) ''recipient'' = peer_id s"
  by (simp_all add: frame_def)

lemma frame_acceptable:
  assumes "sendable c s body"
  shows "acceptable (local_id s) (frame c s body (send_sequence s))"
  using assms
  by (auto simp: acceptable_def valid_shape_def session_shape_def allowed_fields_def required_fields_def session_fields_def
      sendable_def frame_dict session_route_def jget_def dget_or_def Let_def)

lemma relay_passes_frame:
  assumes "connected s (local_id a) src" and "peer_id a = JStr q" and "connected s q dst" and "sendable c a body"
    and "f = frame c a body (send_sequence a)"
  shows "relay_step env src challenge key (RelayLoop (local_id a)) (Line (wire f)) s
    = (RelayLoop (local_id a), s\<lparr>relay_liveness := dput (local_id a) (monotonic s) (relay_liveness s),
         outbox := outbox s @ [(src, accepted_message f), (dst, f)]\<rparr>)"
proof -
  let ?s = "s\<lparr>relay_liveness := dput (local_id a) (monotonic s) (relay_liveness s)\<rparr>"
  have "forward env (local_id a) f ?s = (Inr (), ?s\<lparr>outbox := outbox s @ [(src, accepted_message f), (dst, f)]\<rparr>)"
    using assms(1-3) frame_acceptable [OF assms(4)] assms(5)
    by (auto simp: forward_def tell_def lookup_session_def andthen_def catch_def send_json_ok writable_def connected_def)
  moreover have "wf_json (JObj (frame c a body (send_sequence a)))" using assms(2) by (intro frame_wf) simp
  ultimately show ?thesis
    using assms(2,5)
    by (simp add: relay_step_def relay_message_def eq_str_def andthen_def del: wf_json.simps)
qed

section \<open>Through the runtime\<close>

text \<open>An operation the runtime has neither answered, nor started, nor receives files for.\<close>

definition fresh_operation :: "op_key \<Rightarrow> 'w client \<Rightarrow> bool" where
  "fresh_operation key s \<longleftrightarrow>
     dget (completed_operations s) key = None \<and> key \<notin> set (active_operations s) \<and> dget (transfers s) key = None"

lemma remember_fresh: "k \<noteq> key \<Longrightarrow> fresh_operation key s \<Longrightarrow> fresh_operation key (remember_completed_operation k b s)"
  by (simp add: fresh_operation_def remember_completed_operation_def)

lemma cleanup_fresh: "fresh_operation key s \<Longrightarrow> fresh_operation key (cleanup_transfer k s)"
  by (auto simp: fresh_operation_def cleanup_transfer_def split: option.split)

lemma fold_fresh:
  "(\<And>x s. x \<in> set xs \<Longrightarrow> fresh_operation key s \<Longrightarrow> fresh_operation key (f x s)) \<Longrightarrow>
     fresh_operation key s \<Longrightarrow> fresh_operation key (fold f xs s)"
  by (induction xs arbitrary: s) simp_all

lemma expired_fresh:
  assumes "fresh_operation key s"
  shows "fresh_operation key (expire_completed_operations (expire_file_transfers s))"
proof -
  have other: "fst x \<noteq> key" if "x \<in> set (transfers s)" for x
    using assms that by (auto simp: fresh_operation_def map_of_eq_None_iff)
  have "fresh_operation key (expire_file_transfers s)"
    unfolding expire_file_transfers_def Let_def
    by (intro fold_fresh cleanup_fresh remember_fresh assms) (auto dest: other)
  then show ?thesis
    by (simp add: fresh_operation_def expire_completed_operations_def dget_filter_None)
qed

text \<open>A request for a mutating action of a registered Wisp, with an operation id and proper data.\<close>

definition action_request :: "jdict \<Rightarrow> 'w client \<Rightarrow> 'w wisp \<Rightarrow> string \<Rightarrow> json table \<Rightarrow> bool" where
  "action_request body s w i values \<longleftrightarrow>
     (\<exists>wid. jget body ''wisp_id'' = JStr wid \<and> dget (registered s) wid = Some w) \<and>
     \<not> eq_str (jget body ''action'') ''operation_resume'' \<and> \<not> eq_str (jget body ''action'') ''state_request'' \<and>
     \<not> eq_str (jget body ''action'') ''file_begin'' \<and>
     operation_id_of body = Some i \<and> to_dict (dget_or body ''action_data'' (JObj [])) = Inr values"

lemma dispatch_action:
  assumes "action_request body s w i values" and "fresh_operation (ident p, i) s"
    and "wisp_action w values [] p (world s) = (r, u)"
  shows "\<exists>t. dispatch_session_body env directory p body s = (Inr (LoopAction p w i r), t) \<and>
    world t = u \<and> calls t = calls s @ [(ident p, i)] \<and> sent t = sent s \<and> peer_sessions t = peer_sessions s \<and>
    writer t = writer s \<and> broken t = broken s \<and> clock t = clock s"
proof -
  let ?u = "expire_completed_operations (expire_file_transfers s)"
  have m: "unmoved s ?u" by (rule expired_unmoved)
  have f: "fresh_operation (ident p, i) ?u" by (rule expired_fresh [OF assms(2)])
  have "lookup_wisp body ?u = Inr (Some w)"
    using assms(1) m by (auto simp: action_request_def lookup_wisp_def unmoved_def)
  from dispatch_found [OF this, of env directory p]
  have "dispatch_session_body env directory p body s = start_action env p w body ?u"
    using assms(1) by (simp add: action_request_def Let_def)
  then show ?thesis
    using assms(1,3) m f
    by (auto simp: start_action_def invoke_action_def action_request_def fresh_operation_def unmoved_def Let_def)
qed

lemma runtime_takes_action:
  assumes "aead_correct (lib_aead env)" and "paired a b" and "sendable (lib_aead env) a body"
    and "receive_sequence b = send_sequence a" and "live b (clock s)"
    and "dget (peer_sessions s) (Text (local_id a)) = Some b"
    and "action_request body s w i values" and "fresh_operation (Text (local_id a), i) s"
    and "wisp_action w values [] (JStr (local_id a)) (world s) = (r, u)"
    and "f = frame (lib_aead env) a body (send_sequence a)"
  shows "\<exists>t. loop_read env rnd directory (Line (wire f)) s = (Inr (LoopAction (JStr (local_id a)) w i r), t) \<and>
    world t = u \<and> calls t = calls s @ [(Text (local_id a), i)] \<and> sent t = sent s \<and>
    peer_sessions t = dput (Text (local_id a)) (b\<lparr>receive_sequence := send_sequence a + 1\<rparr>) (peer_sessions s) \<and>
    writer t = writer s \<and> broken t = broken s \<and> clock t = clock s"
proof -
  have wf: "wf_json (peer_id a)" using assms(3) by (simp add: sendable_def)
  let ?p = "local_id a"
  let ?s = "s\<lparr>peer_sessions := dput (Text ?p) (b\<lparr>receive_sequence := send_sequence a + 1\<rparr>) (peer_sessions s)\<rparr>"
  have "decrypt (lib_aead env) b f (clock s) = (Inr body, b\<lparr>receive_sequence := send_sequence a + 1\<rparr>)"
    unfolding assms(10) by (rule decrypt_own_frame) (use assms in \<open>auto simp: sendable_def\<close>)
  then have opened: "open_session_envelope env f s = (Inr (JStr ?p, body), ?s)"
    using assms(6,10) by (simp add: open_session_envelope_def)
  obtain t where t: "dispatch_session_body env directory (JStr ?p) body ?s = (Inr (LoopAction (JStr ?p) w i r), t)"
    "world t = u \<and> calls t = calls ?s @ [(Text ?p, i)] \<and> sent t = sent ?s \<and> peer_sessions t = peer_sessions ?s \<and>
     writer t = writer ?s \<and> broken t = broken ?s \<and> clock t = clock ?s"
    using dispatch_action [of body ?s w i _ "JStr ?p" r u env directory] assms(7-9)
    by (auto simp: action_request_def fresh_operation_def)
  have "loop_read env rnd directory (Line (wire f)) s = (Inr (LoopAction (JStr ?p) w i r), t)"
    using opened t(1) assms(10) frame_wf [of a "lib_aead env" body "send_sequence a", OF wf]
    by (simp add: loop_read_def loop_message_def discarding_def catch_def andthen_def eq_str_def del: wf_json.simps)
  with t(2) show ?thesis by (intro exI [of _ t]) simp
qed

lemma runtime_answers:
  assumes "assets_of r = []" and "i \<noteq> []" and "writer s = Some c" and "c \<notin> set (broken s)"
    and "dget (peer_sessions s) (ident p) = Some b" and "live b (clock s)" and "sendable (lib_aead env) b (response_body w r)"
    and "g = frame (lib_aead env) b (response_body w r) (send_sequence b)"
  shows "\<exists>t. finish_dispatch env rnd (LoopAction p w i (Inr r)) s = (Inr LoopReading, t) \<and>
    sent t = sent s @ [(c, g)] \<and> world t = world s \<and> calls t = calls s \<and>
    dget (completed_operations t) (ident p, i) = Some (clock s, response_body w r)"
proof -
  let ?s = "remember_completed_operation (ident p, i) (response_body w r)
      (s\<lparr>active_operations := removeAll (ident p, i) (active_operations s)\<rparr>)"
  have "encrypt (lib_aead env) b (response_body w r) (clock ?s) = (Inr g, b\<lparr>send_sequence := send_sequence b + 1\<rparr>)"
    using assms(6-8) by (simp add: encrypt_eq sendable_def remember_completed_operation_def)
  then have "send_session env p (response_body w r) ?s = (Inr (),
      ?s\<lparr>peer_sessions := dput (ident p) (b\<lparr>send_sequence := send_sequence b + 1\<rparr>) (peer_sessions ?s), sent := sent s @ [(c, g)]\<rparr>)"
    using assms(2-5) by (simp add: send_session_def send_to_def remember_completed_operation_def)
  then show ?thesis
    using assms(1,2)
    by (simp add: Let_def retained_response_body_def send_wisp_response_def andthen_def)
       (simp add: remember_completed_operation_def)
qed

section \<open>The whole way\<close>

text \<open>C11: an action gets through: when an endpoint and a runtime hold paired sessions and are connected to
  the relay, a frame with an action of a registered Wisp passes the relay, the runtime reads it and
  invokes the Wisp's callback exactly once, with the endpoint's identity; when the callback is done, its answer
  is retained, and the frame with it passes the relay and is opened by the endpoint's session
  to exactly the page the callback returned.\<close>

theorem action_is_answered:
  assumes crypto: "aead_correct (lib_aead env)" and pair: "paired a b" "receive_sequence b = send_sequence a"
      "receive_sequence a = send_sequence b"
    and alive: "live a t0" "live a t1" "live b (clock (client s))"
    and relay: "connected R (local_id a) src" "connected R (local_id b) dst"
    and runtime: "loop s = LoopReading" "writer (client s) = Some c" "c \<notin> set (broken (client s))"
      "dget (peer_sessions (client s)) (Text (local_id a)) = Some b" "directory \<notin> set (directories (client s))"
    and request: "action_request body (client s) w i values" "fresh_operation (Text (local_id a), i) (client s)"
      "sendable (lib_aead env) a body"
    and callback: "wisp_action w values [] (JStr (local_id a)) (world (client s)) = (Inr r, u)" "assets_of r = []"
      "sendable (lib_aead env) b (response_body w r)"
  shows "\<exists>f g a' R1 R2 s1 s2.
    encrypt (lib_aead env) a body t0 = (Inr f, a') \<and>
    relay_step renv src ch k (RelayLoop (local_id a)) (Line (wire f)) R = (RelayLoop (local_id a), R1) \<and>
    outbox R1 = outbox R @ [(src, accepted_message f), (dst, f)] \<and>
    runtime_step env s (Arrives (Line (wire f)) rnd directory) = s1 \<and>
    world (client s1) = u \<and> calls (client s1) = calls (client s) @ [(Text (local_id a), i)] \<and>
    runtime_step env s1 (CallbackDone draws) = s2 \<and> loop s2 = LoopReading \<and> world (client s2) = u \<and>
    calls (client s2) = calls (client s1) \<and>
    dget (completed_operations (client s2)) (Text (local_id a), i) = Some (clock (client s), response_body w r) \<and>
    sent (client s2) = sent (client s) @ [(c, g)] \<and>
    relay_step renv dst ch' k' (RelayLoop (local_id b)) (Line (wire g)) R1 = (RelayLoop (local_id b), R2) \<and>
    outbox R2 = outbox R1 @ [(dst, accepted_message g), (src, g)] \<and>
    fst (decrypt (lib_aead env) a' g t1) = Inr (response_body w r)"
proof -
  let ?c = "lib_aead env" and ?p = "local_id a" and ?b = "b\<lparr>receive_sequence := send_sequence a + 1\<rparr>"
  define f where "f = frame ?c a body (send_sequence a)"
  define g where "g = frame ?c ?b (response_body w r) (send_sequence ?b)"
  have ids: "peer_id a = JStr (local_id b)" "peer_id b = JStr (local_id a)" using pair(1) by (simp_all add: paired_def)
  have sealed: "encrypt ?c a body t0 = (Inr f, a\<lparr>send_sequence := send_sequence a + 1\<rparr>)"
    using alive(1) request(3) by (simp add: encrypt_eq f_def sendable_def)
  let ?R1 = "R\<lparr>relay_liveness := dput ?p (monotonic R) (relay_liveness R), outbox := outbox R @ [(src, accepted_message f), (dst, f)]\<rparr>"
  have first: "relay_step renv src ch k (RelayLoop ?p) (Line (wire f)) R = (RelayLoop ?p, ?R1)"
    by (rule relay_passes_frame [OF relay(1) ids(1) relay(2) request(3) f_def])
  obtain t where t: "loop_read env rnd directory (Line (wire f)) (client s) = (Inr (LoopAction (JStr ?p) w i (Inr r)), t)"
    "world t = u" "calls t = calls (client s) @ [(Text ?p, i)]" "sent t = sent (client s)"
    "peer_sessions t = dput (Text ?p) ?b (peer_sessions (client s))" "writer t = writer (client s)"
    "broken t = broken (client s)" "clock t = clock (client s)"
    using runtime_takes_action [OF crypto pair(1) request(3) pair(2) alive(3) runtime(4) request(1,2) callback(1) f_def] by blast
  have arrives: "runtime_step env s (Arrives (Line (wire f)) rnd directory) = s\<lparr>client := t, loop := LoopAction (JStr ?p) w i (Inr r)\<rparr>"
    using runtime(1,5) t(1) by (simp add: settle_def)
  have good: "i \<noteq> []" using request(1) by (auto simp: action_request_def operation_id_of_def split: json.splits if_splits)
  have answer: "sendable ?c ?b (response_body w r)"
    using callback(3) by (simp add: sendable_def sealed_def)
  obtain v where v: "finish_dispatch env draws (LoopAction (JStr ?p) w i (Inr r)) t = (Inr LoopReading, v)"
    "sent v = sent (client s) @ [(c, g)]" "world v = u" "calls v = calls t"
    "dget (completed_operations v) (Text ?p, i) = Some (clock (client s), response_body w r)"
    using runtime_answers [OF callback(2) good _ _ _ _ answer g_def, of t c "JStr ?p" draws] t runtime(2,3) alive(3)
    by (auto simp: live_def)
  have ends: "runtime_step env (s\<lparr>client := t, loop := LoopAction (JStr ?p) w i (Inr r)\<rparr>) (CallbackDone draws)
      = s\<lparr>client := v, loop := LoopReading\<rparr>"
    using v(1) by (simp add: discarding_def catch_def settle_def del: finish_dispatch.simps)
  have second: "\<exists>R2. relay_step renv dst ch' k' (RelayLoop (local_id b)) (Line (wire g)) ?R1 = (RelayLoop (local_id b), R2) \<and>
      outbox R2 = outbox ?R1 @ [(dst, accepted_message g), (src, g)]"
    using relay_passes_frame [of ?R1 ?b dst "local_id a" src ?c "response_body w r" g renv ch' k'] relay answer ids g_def
    by (simp add: connected_def writable_def)
  have "decrypt ?c (a\<lparr>send_sequence := send_sequence a + 1\<rparr>) g t1
      = (Inr (response_body w r), a\<lparr>send_sequence := send_sequence a + 1, receive_sequence := send_sequence ?b + 1\<rparr>)"
    unfolding g_def
    by (rule decrypt_own_frame [OF crypto, THEN trans])
       (use pair alive(2) answer in \<open>auto simp: paired_def sendable_def live_def\<close>)
  moreover obtain R2 where "relay_step renv dst ch' k' (RelayLoop (local_id b)) (Line (wire g)) ?R1 = (RelayLoop (local_id b), R2)"
    "outbox R2 = outbox ?R1 @ [(dst, accepted_message g), (src, g)]"
    using second by blast
  ultimately show ?thesis
    using sealed first arrives ends t(2,3) v
    by (intro exI [of _ f] exI [of _ g] exI [of _ "a\<lparr>send_sequence := send_sequence a + 1\<rparr>"] exI [of _ ?R1] exI [of _ R2]
        exI [of _ "s\<lparr>client := t, loop := LoopAction (JStr ?p) w i (Inr r)\<rparr>"] exI [of _ "s\<lparr>client := v, loop := LoopReading\<rparr>"])
       (simp del: runtime_step.simps)
qed

section \<open>Witness\<close>

definition demo_runtime_reading :: "nat runtime" where
  "demo_runtime_reading = \<lparr>client = (AppserveClient 0 None [] 0)\<lparr>registered := [(''prime'', demo_prime)], writer := Some 3,
     peer_sessions := [(Text ''android'', demo_wisp)]\<rparr>, loop = LoopReading\<rparr>"

definition demo_switchboard :: relay where
  "demo_switchboard = demo_relay\<lparr>sessions := [(''android'', ''android'', 7), (''wisp'', ''wisp'', 1)]\<rparr>"

lemma length_sextets: "length xs \<le> length (sextets xs) \<and> length (sextets xs) \<le> 2 * length xs"
  by (induction xs rule: sextets.induct) auto

lemma demo_frame_length:
  assumes "length (utf8 (json_dumps (JObj body))) \<le> 1000" and "length (session_aad (session_id s) (JStr (local_id s)) (peer_id s) n) \<le> 1000"
  shows "let l = length (b64u (sealed demo_aead s body n)) in 0 < l \<and> l \<le> 1024 * 1024"
proof -
  have "length (SESSION_NONCE_PREFIX @ be_bytes 8 n) \<le> 100" by (simp add: SESSION_NONCE_PREFIX_def)
  then have "0 < length (sealed demo_aead s body n) \<and> length (sealed demo_aead s body n) \<le> 4000"
    using assms by (simp add: sealed_def demo_aead_def demo_header_def del: utf8_simps json_dumps.simps length_greater_0_conv)
  then show ?thesis
    using length_sextets [of "map unat (sealed demo_aead s body n)"] by (simp add: b64u_def Let_def del: length_greater_0_conv)
qed

lemma demo_sendable:
  "sendable demo_aead demo_android demo_retry"
  "sendable demo_aead demo_wisp (response_body demo_prime (Plain []))"
proof -
  have "length (utf8 (json_dumps (JObj demo_retry))) \<le> 1000"
    "length (utf8 (json_dumps (JObj (response_body demo_prime (Plain []))))) \<le> 1000"
    "length (session_aad (session_id demo_android) (JStr (local_id demo_android)) (peer_id demo_android) 0) \<le> 1000"
    "length (session_aad (session_id demo_wisp) (JStr (local_id demo_wisp)) (peer_id demo_wisp) 0) \<le> 1000"
    by code_simp+
  from demo_frame_length [OF this(1,3)] demo_frame_length [OF this(2,4)]
  show "sendable demo_aead demo_android demo_retry" "sendable demo_aead demo_wisp (response_body demo_prime (Plain []))"
    by (simp_all add: sendable_def demo_retry_def response_body_def wf_dict_def, simp_all add: demo_sessions demo_prime_def)
qed

definition demo_unused :: sealing where
  "demo_unused = \<lparr>seal_message_id = [], seal_key = [], seal_iv = [], seal_seed = [], seal_salt = []\<rparr>"

lemma action_is_answered_witness:
  "\<exists>f g a' s1. encrypt demo_aead demo_android demo_retry 0 = (Inr f, a') \<and>
    runtime_step demo_client_env demo_runtime_reading (Arrives (Line (wire f)) demo_unused 0) = s1 \<and>
    calls (client s1) = [(Text ''android'', ''op'')] \<and>
    fst (decrypt demo_aead a' g 5) = Inr (response_body demo_prime (Plain []))"
proof -
  let ?s = "client demo_runtime_reading"
  have env: "lib_aead demo_client_env = demo_aead" by (simp add: demo_client_env_def)
  have sessions: "receive_sequence demo_wisp = send_sequence demo_android" "receive_sequence demo_android = send_sequence demo_wisp"
    "live demo_android 0" "live demo_wisp (clock ?s)"
    by (simp_all add: demo_runtime_reading_def AppserveClient_def demo_sessions live_def SESSION_LIFETIME_SECONDS_def)
  have relay: "connected demo_switchboard (local_id demo_android) 7" "connected demo_switchboard (local_id demo_wisp) 1"
    by (simp_all add: connected_def writable_def demo_switchboard_def demo_relay_def demo_sessions)
  have runtime: "loop demo_runtime_reading = LoopReading" "writer ?s = Some 3" "3 \<notin> set (broken ?s)"
    "dget (peer_sessions ?s) (Text (local_id demo_android)) = Some demo_wisp" "0 \<notin> set (directories ?s)"
    by (simp_all add: demo_runtime_reading_def AppserveClient_def) (simp add: demo_sessions)
  have request: "action_request demo_retry ?s demo_prime ''op'' []" "fresh_operation (Text (local_id demo_android), ''op'') ?s"
    by (simp_all add: demo_runtime_reading_def AppserveClient_def action_request_def fresh_operation_def demo_retry_def
        operation_id_of_def jget_def dget_or_def eq_str_def to_dict_def)
  have callback: "wisp_action demo_prime [] [] (JStr (local_id demo_android)) (world ?s) = (Inr (Plain []), 1)" "assets_of (Plain []) = []"
    by (simp_all add: demo_prime_def demo_runtime_reading_def AppserveClient_def)
  have shown: "local_id demo_android = ''android''" "calls ?s = []"
    by (simp_all add: demo_sessions demo_runtime_reading_def AppserveClient_def)
  from action_is_answered [of demo_client_env, where draws = "\<lparr>draw_transfer = [], draw_nonces = []\<rparr>" and ch' = "[]" and k' = "[]",
      unfolded env, OF demo_correct demo_paired sessions(1-3) demo_live(1) sessions(4)
      relay runtime request demo_sendable(1) callback demo_sendable(2), of demo_env "[]" "[]" demo_unused]
  show ?thesis unfolding shown append_Nil by (elim exE conjE) (intro exI conjI, assumption+)
qed

end
