(* ===== verification/ComesOnline.thy ===== *)
theory ComesOnline
  imports ClientConnect EndToEnd
begin

text \<open>
  A runtime comes online: one whole \<open>_serve_once\<close> against the relay's handlers of its control and its
  relay connection, until the catalogs of the approved endpoints list its Wisps.
\<close>

section \<open>The relay's tables\<close>

text \<open>Registrations under text ids and of text owners: the catalog and the sorted log can be made.\<close>

definition tidy :: "relay_state \<Rightarrow> bool" where
  "tidy st \<longleftrightarrow> (\<forall>w \<in> set (wisps st). is_str (fst w) \<and> is_str (jget (snd w) ''owner'') \<and> wf_json (JObj (snd w)))"

text \<open>An endpoint whose record has this key and the status of an approved one.\<close>

definition approved :: "'k client_env \<Rightarrow> relay_state \<Rightarrow> bool" where
  "approved env st \<longleftrightarrow>
     (\<exists>rec. dget (clients st) (own_id env) = Some rec \<and>
        jget rec ''public_key'' = JStr (public_key_text (lib_rsa env) (own_key env)) \<and>
        dget_or rec ''status'' (JStr ''approved'') = JStr ''approved'')"

lemma approved_known: "approved env (state s) \<Longrightarrow> known_endpoint env s"
  by (auto simp: approved_def known_endpoint_def client_access_def)

lemma approved_usable: "approved env (state s) \<Longrightarrow> endpoint_usable s (own_id env) b"
  by (auto simp: approved_def endpoint_usable_def endpoint_record_def eq_str_def dget_or_def)

text \<open>What noting a visit, a registration and the start of a session do to the two tables.\<close>

definition same_tables :: "'k client_env \<Rightarrow> relay_state \<Rightarrow> relay_state \<Rightarrow> bool" where
  "same_tables env s t \<longleftrightarrow> wisps t = wisps s \<and> (approved env s \<longrightarrow> approved env t)"

lemma same_tables_trans: "same_tables env s t \<Longrightarrow> same_tables env t u \<Longrightarrow> same_tables env s u"
  by (simp add: same_tables_def)

lemma same_tables_save: "same_tables env s (save s)"
  by (simp add: same_tables_def save_def approved_def)

lemma visit_tables:
  "same_tables env s (save (set_kind (own_id env) kind (snd (register_client s (own_id env)
     (JStr (public_key_text (lib_rsa env) (own_key env))) replace wall))))"
  by (auto simp: same_tables_def approved_def save_def set_kind_def register_client_def Let_def dget_or_def)

lemma register_client_tables:
  assumes "approved env s"
  shows "fst (register_client s (own_id env) (JStr (public_key_text (lib_rsa env) (own_key env))) True wall) = Inr () \<and>
    same_tables env s (snd (register_client s (own_id env) (JStr (public_key_text (lib_rsa env) (own_key env))) True wall))"
  using assms by (auto simp: same_tables_def approved_def register_client_def Let_def dget_or_def)

lemma seen_tables:
  "same_tables env s (s\<lparr>clients := dput (own_id env) (dput ''last_seen'' v (dget_or (clients s) (own_id env) [])) (clients s)\<rparr>)"
  by (auto simp: same_tables_def approved_def dget_or_def)

lemma drain_tables: "same_tables env s (snd (drain s cid))"
  by (simp add: same_tables_def drain_def approved_def)

section \<open>Catalogs\<close>

lemma wf_dput: "wf_json (JObj d) \<Longrightarrow> wf_json v \<Longrightarrow> wf_json (JObj (dput k v d))"
  using set_dput [of k v d] by (auto simp: wf_dict_dput)

lemma tidy_entry:
  assumes "tidy (state s)" and "w \<in> set (wisps (state s))"
  shows "\<exists>found. catalog_entry env s cid (snd w) = Inr found \<and> (\<forall>item. found = Some item \<longrightarrow> wf_json (JObj item))"
proof -
  obtain own where own: "jget (snd w) ''owner'' = JStr own" and wf: "wf_json (JObj (snd w))"
    using assms by (auto simp: tidy_def elim!: is_strE simp del: wf_json.simps)
  have "relay_online s (JStr own) = Inr (online s own)" by (simp add: relay_online_eq)
  moreover have "wf_json (JObj (dput k (JStr v) (snd w)))" for k v
    by (rule wf_dput [OF wf]) simp
  ultimately show ?thesis
    using own by (auto simp: catalog_entry_def Let_def valid_endpoint_public_key_def split: json.splits)
qed

lemma tidy_catalog:
  assumes "tidy (state s)"
  shows "\<exists>items. catalog_items env s cid = Inr items \<and> (\<forall>item \<in> set items. wf_json (JObj item))"
proof -
  let ?entry = "\<lambda>w. catalog_entry env s cid (snd w)"
  have "\<exists>found. map ?entry ws = map Inr found \<and> (\<forall>item. Some item \<in> set found \<longrightarrow> wf_json (JObj item))"
    if "set ws \<subseteq> set (wisps (state s))" for ws
    using that
  proof (induction ws)
    case (Cons w ws)
    then obtain found where "map ?entry ws = map Inr found" "\<forall>item. Some item \<in> set found \<longrightarrow> wf_json (JObj item)" by auto
    moreover obtain f where "?entry w = Inr f" "\<forall>item. f = Some item \<longrightarrow> wf_json (JObj item)"
      using tidy_entry [OF assms, of w env cid] Cons.prems by auto
    ultimately show ?case by (intro exI [of _ "f # found"]) auto
  qed simp
  from this [OF subset_refl] obtain found where
    found: "map ?entry (wisps (state s)) = map Inr found" "\<forall>item. Some item \<in> set found \<longrightarrow> wf_json (JObj item)" by blast
  then have "all_results (map ?entry (wisps (state s))) = Inr found" by (simp add: all_results_Inr)
  moreover have "wf_json (JObj (management_item env))" by (simp add: management_item_def wf_dict_def)
  ultimately show ?thesis
    using found(2) by (auto simp: catalog_items_def set_map_filter_id simp del: wf_json.simps)
qed

lemma tidy_log: "tidy (state s) \<Longrightarrow> log_wisp_keys s = (Inr (), s)"
  by (auto simp: log_wisp_keys_def py_sorted_def tidy_def)

lemma tidy_push:
  "tidy (state s) \<Longrightarrow> \<exists>stale t. push_catalogs env cs s = (Inr stale, t)"
proof (induction cs arbitrary: s)
  case (Cons c cs)
  let ?send = "catch (andthen (\<lambda>s. (catalog_items env s (fst c), s)) (\<lambda>items.
          andthen (send_json (snd (snd c))
            [(''ok'', JBool True), (''type'', JStr ''catalog_update''), (''items'', JList (map JObj items))]) (\<lambda>_. ret [])))
       (\<lambda>e. if is_os_error e then ret [fst c] else throw e)"
  obtain items where "catalog_items env s (fst c) = Inr items" using tidy_catalog [OF Cons.prems] by blast
  then have "\<exists>x t. ?send s = (Inr x, t) \<and> state t = state s"
    by (simp add: catch_def andthen_def send_json_def)
  then obtain x t where t: "?send s = (Inr x, t)" "state t = state s" by blast
  obtain y u where "push_catalogs env cs t = (Inr y, u)"
    using Cons.IH [of t] Cons.prems t(2) by auto
  with t(1) show ?case by (simp add: andthen_def)
qed (simp add: ret_def)

lemma tidy_broadcast:
  assumes "tidy (state s)"
  shows "\<exists>more subscribers. broadcast_catalog env s = (Inr (), s\<lparr>outbox := outbox s @ more, control_sessions := subscribers\<rparr>)"
proof -
  obtain items where "catalog_items env s [] = Inr items" using tidy_catalog [OF assms] by blast
  moreover obtain stale t where "push_catalogs env (control_sessions s) s = (Inr stale, t)" using tidy_push [OF assms] by blast
  ultimately obtain u where u: "broadcast_catalog env s = (Inr (), u)" by (simp add: broadcast_catalog_def andthen_def)
  from staysD [OF broadcast_catalog_only u] obtain more where
    "u = s\<lparr>outbox := outbox u, control_sessions := control_sessions u\<rparr>" "outbox u = outbox s @ more"
    unfolding only_catalogs_def by blast
  with u show ?thesis by metis
qed

section \<open>Registrations\<close>

definition stored :: "client_id \<Rightarrow> 'w wisp \<Rightarrow> jdict" where
  "stored cid w = [(''id'', JStr (wisp_id w)), (''name'', JStr (wisp_name w)), (''description'', JStr (wisp_description w)),
     (''owner'', JStr cid)]"

text \<open>The Wisps of a runtime, in the dictionary that \<open>register\<close> fills.\<close>

definition proper_wisps :: "'w client \<Rightarrow> bool" where
  "proper_wisps c \<longleftrightarrow> wf_dict (registered c) \<and> (\<forall>p \<in> set (registered c). fst p = wisp_id (snd p) \<and> fst p \<noteq> [])"

lemma register_proper: "proper_wisps c \<Longrightarrow> wisp_id w \<noteq> [] \<Longrightarrow> proper_wisps (register w c)"
  using set_dput [of "wisp_id w" w "registered c"] by (auto simp: proper_wisps_def register_def)

lemma kget_in: "kget t k = Some v \<Longrightarrow> \<exists>k'. (k', v) \<in> set t"
  by (induction t k rule: kget.induct) (auto split: if_splits)

lemma stored_tidy:
  assumes "tidy st"
  shows "tidy (st\<lparr>wisps := kput (JStr (wisp_id w)) (stored cid w) (wisps st)\<rparr>)"
proof -
  have "wf_json (JObj (stored cid w))" "jget (stored cid w) ''owner'' = JStr cid"
    by (simp_all add: stored_def wf_dict_def jget_def dget_or_def)
  with assms show ?thesis
    by (auto simp: tidy_def simp del: wf_json.simps dest!: set_kput)
qed

lemma register_item_manifest:
  assumes "wisp_id w \<noteq> []"
  shows "register_item cid (JObj (manifest w)) s
    = (Inr (), s\<lparr>state := (state s)\<lparr>wisps := kput (JStr (wisp_id w)) (stored cid w) (wisps (state s))\<rparr>\<rparr>)"
  using assms by (simp add: register_item_def manifest_def stored_def jget_def dget_or_def Let_def)

lemma each_registered:
  assumes "\<forall>w \<in> set ws. wisp_id w \<noteq> []"
  shows "each (register_item cid) (map (JObj \<circ> manifest) ws) s
    = (Inr (), s\<lparr>state := (state s)\<lparr>wisps := fold (\<lambda>w. kput (JStr (wisp_id w)) (stored cid w)) ws (wisps (state s))\<rparr>\<rparr>)"
  using assms by (induction ws arbitrary: s) (simp_all add: register_item_manifest andthen_def)

lemma fold_tidy: "tidy st \<Longrightarrow> tidy (st\<lparr>wisps := fold (\<lambda>w. kput (JStr (wisp_id w)) (stored cid w)) ws (wisps st)\<rparr>)"
proof (induction ws arbitrary: st)
  case (Cons w ws)
  from Cons.IH [OF stored_tidy [OF Cons.prems, of w cid]] show ?case by simp
qed simp

lemma fold_stored:
  assumes "distinct (map wisp_id ws)" and "w \<in> set ws"
  shows "kget (fold (\<lambda>w. kput (JStr (wisp_id w)) (stored cid w)) ws t) (JStr (wisp_id w)) = Some (stored cid w)"
  using assms
proof (induction ws rule: rev_induct)
  case (snoc x ws)
  show ?case
  proof (cases "w = x")
    case False
    with snoc show ?thesis by (auto simp: kget_kput)
  qed (simp add: kget_kput)
qed simp

lemma proper_distinct: "proper_wisps c \<Longrightarrow> distinct (map wisp_id (dvalues (registered c))) \<and> (\<forall>w \<in> set (dvalues (registered c)). wisp_id w \<noteq> [])"
proof -
  assume p: "proper_wisps c"
  then have "map wisp_id (dvalues (registered c)) = dkeys (registered c)"
    by (auto simp: proper_wisps_def)
  with p show ?thesis by (auto simp: proper_wisps_def wf_dict_def simp del: map_map)
qed

section \<open>The handlers, one line at a time\<close>

text \<open>The relay and the runtime use one RSA library, the id fits the relay's bound and the key has an encoding.\<close>

definition endpoint_ok :: "'k client_env \<Rightarrow> 'k relay_env \<Rightarrow> bool" where
  "endpoint_ok env renv \<longleftrightarrow> rsa_correct (lib_rsa env) (own_key env) \<and> rsa_lib renv = lib_rsa env \<and>
     own_id env \<noteq> [] \<and> length (own_id env) \<le> 128 \<and> public_key_text (lib_rsa env) (own_key env) \<noteq> []"

text \<open>What the rest of the exchange needs of the relay, and every line of it keeps.\<close>

definition hosting :: "'k client_env \<Rightarrow> relay \<Rightarrow> conn list \<Rightarrow> bool" where
  "hosting env s ws \<longleftrightarrow> approved env (state s) \<and> tidy (state s) \<and> (\<forall>w \<in> set ws. writable s w)"

definition later :: "time \<Rightarrow> relay \<Rightarrow> relay" where
  "later d s = s\<lparr>monotonic := monotonic s + d\<rparr>"

lemma later_simps [simp]:
  "hosting env (later d s) ws = hosting env s ws" "state (later d s) = state s" "outbox (later d s) = outbox s"
  by (simp_all add: hosting_def later_def writable_def)

definition carried :: "'k client_env \<Rightarrow> relay \<Rightarrow> relay \<Rightarrow> bool" where
  "carried env s t \<longleftrightarrow> same_tables env (state s) (state t) \<and> lost_conns t = lost_conns s \<and> closed_conns t = closed_conns s"

lemma hosting_carried: "carried env s t \<Longrightarrow> hosting env s ws \<Longrightarrow> hosting env t ws"
  by (simp add: hosting_def carried_def same_tables_def tidy_def writable_def)

lemma hello_wf: "wf_json (JObj (hello_message env cfg role))" "wf_json (JObj (proof_message env salt bs))"
  by (simp_all add: hello_message_def proof_message_def wf_dict_def)

lemma read_json_wire [simp]: "wf_json (JObj v) \<Longrightarrow> read_json (Line (wire v)) = Inr (JObj v)"
  by (simp add: read_json_def del: wf_json.simps)

definition challenged :: "'k client_env \<Rightarrow> connect_env \<Rightarrow> conn \<Rightarrow> string \<Rightarrow> string \<Rightarrow> relay \<Rightarrow> relay" where
  "challenged env cfg w challenge key s =
     s\<lparr>auth_challenges := dput key (own_id env, public_key_text (lib_rsa env) (own_key env), challenge,
         JStr (client_kind cfg), monotonic s + 60) (auth_challenges s),
       outbox := outbox s @ [(w, challenge_message challenge)]\<rparr>"

lemma challenged_simps [simp]:
  "hosting env' (challenged env cfg w challenge key s) ws = hosting env' s ws"
  "state (challenged env cfg w challenge key s) = state s"
  "outbox (challenged env cfg w challenge key s) = outbox s @ [(w, challenge_message challenge)]"
  by (simp_all add: challenged_def hosting_def writable_def)

lemma hello_challenged:
  assumes "endpoint_ok env renv" and "hosting env s [w]" and "role \<in> roles"
  shows "auth_hello renv w (JObj (hello_message env cfg role)) roles challenge key s
    = (Inr (Some (waiting_for env role key)), challenged env cfg w challenge key s)"
  unfolding challenged_def
  by (rule hello_accepted) (use assms approved_known in \<open>auto simp: endpoint_ok_def hosting_def writable_def\<close>)

lemma control_hello:
  assumes "endpoint_ok env renv" and "hosting env s [w]"
  shows "control_step renv w rnd AwaitAuth (Line (wire (hello_message env cfg ''control''))) s
    = (AwaitProof (waiting_for env ''control'' (r_key rnd)), challenged env cfg w (r_challenge rnd) (r_key rnd) s)"
proof -
  have "jget (hello_message env cfg ''control'') ''type'' = JStr ''auth_hello''"
    by (simp add: hello_message_def jget_def dget_or_def)
  then show ?thesis
    using hello_wf(1) [of env cfg "''control''"] hello_challenged [OF assms, of "''control''" "{''control''}" cfg]
    by (simp add: control_step_def hello_step_def andthen_def catch_def eq_str_def del: wf_json.simps)
qed

lemma relay_hello:
  assumes "endpoint_ok env renv" and "hosting env s [w]"
  shows "relay_step renv w challenge key RelayHello (Line (wire (hello_message env cfg ''relay''))) s
    = (RelayProof (waiting_for env ''relay'' key), challenged env cfg w challenge key s)"
  using hello_wf(1) [of env cfg "''relay''"] hello_challenged [OF assms, of "''relay''" "{''relay''}" cfg]
  by (simp add: relay_step_def andthen_def del: wf_json.simps)

text \<open>The challenge is open when the proof arrives.\<close>

definition awaited :: "'k client_env \<Rightarrow> connect_env \<Rightarrow> string \<Rightarrow> string \<Rightarrow> relay \<Rightarrow> bool" where
  "awaited env cfg challenge key s \<longleftrightarrow>
     (\<exists>expires. dget (auth_challenges s) key = Some (own_id env, public_key_text (lib_rsa env) (own_key env), challenge,
        JStr (client_kind cfg), expires) \<and> monotonic s \<le> expires)"

lemma challenged_awaited: "d \<le> 60 \<Longrightarrow> awaited env cfg challenge key (later d (challenged env cfg w challenge key s))"
  by (simp add: awaited_def later_def challenged_def)

lemma proof_passes:
  assumes "endpoint_ok env renv" and "hosting env s [w]" and "awaited env cfg challenge key s"
    and "ascii_encode (client_transcript role (own_id env) challenge) = Inr bs"
  shows "\<exists>st. auth_proof renv w (waiting_for env role key) allow (JObj (proof_message env salt bs)) s = (Inr (Some (own_id env)),
      s\<lparr>state := st, auth_challenges := dpop key (auth_challenges s), outbox := outbox s @ [(w, authenticated_message (own_id env))]\<rparr>) \<and>
    same_tables env (state s) st"
proof -
  obtain expires where e: "dget (auth_challenges s) key = Some (own_id env, public_key_text (lib_rsa env) (own_key env), challenge,
      JStr (client_kind cfg), expires)" "monotonic s \<le> expires"
    using assms(3) by (auto simp: awaited_def)
  have "rsa_correct (lib_rsa env) (own_key env)" "rsa_lib renv = lib_rsa env" "known_endpoint env s"
    "w \<notin> set (lost_conns s)" "w \<notin> set (closed_conns s)"
    using assms(1,2) approved_known by (auto simp: endpoint_ok_def hosting_def writable_def)
  from proof_accepted [OF this assms(4) e, of allow salt] visit_tables show ?thesis by blast
qed

lemma control_proof:
  assumes "endpoint_ok env renv" and "hosting env s [w]" and "awaited env cfg challenge key s"
    and "ascii_encode (client_transcript ''control'' (own_id env) challenge) = Inr bs"
  shows "\<exists>t. control_step renv w rnd (AwaitProof (waiting_for env ''control'' key)) (Line (wire (proof_message env salt bs))) s
      = (AwaitJoin (own_id env), t) \<and> outbox t = outbox s @ [(w, authenticated_message (own_id env))] \<and> carried env s t"
  using proof_passes [OF assms, of True salt] hello_wf(2) [of env salt bs]
  by (force simp: control_step_def andthen_def catch_def carried_def simp del: wf_json.simps)

definition join_message :: "'k client_env \<Rightarrow> jdict" where
  "join_message env = [(''type'', JStr ''join''), (''client_id'', JStr (own_id env))]"

lemma control_join:
  assumes "hosting env s [w]"
  shows "\<exists>t v. control_step renv w rnd (AwaitJoin (own_id env)) (Line (wire (join_message env))) s = (AwaitRegistration (own_id env), t) \<and>
    outbox t = outbox s @ [(w, v)] \<and> carried env s t \<and> wf_json (JObj v) \<and> jget v ''ok'' = JBool True"
proof -
  have join: "wf_json (JObj (join_message env))" "jget (join_message env) ''type'' = JStr ''join''"
    "jget (join_message env) ''payload'' = JNull" "jget (join_message env) ''client_id'' = JStr (own_id env)"
    by (simp_all add: join_message_def wf_dict_def jget_def dget_or_def)
  have "tidy (state (s\<lparr>state := save (state s)\<rparr>))"
    using assms by (simp add: hosting_def tidy_def save_def)
  from tidy_catalog [OF this, of renv "own_id env"] obtain items where
    items: "catalog_items renv (s\<lparr>state := save (state s)\<rparr>) (own_id env) = Inr items" "\<forall>item \<in> set items. wf_json (JObj item)"
    by blast
  let ?v = "[(''ok'', JBool True), (''type'', JStr ''joined''), (''client_id'', JStr (own_id env)),
      (''queued'', JInt (int (length (dget_or (queues (save (state s))) (own_id env) [])))), (''wisps'', JList (map JObj items))]"
  have "control_step renv w rnd (AwaitJoin (own_id env)) (Line (wire (join_message env))) s
      = (AwaitRegistration (own_id env), s\<lparr>state := save (state s), outbox := outbox s @ [(w, ?v)]\<rparr>)"
    using assms join items(1)
    by (simp add: control_step_def join_step_def check_join_def eq_str_def andthen_def catch_def send_json_def hosting_def writable_def
        del: wf_json.simps)
  moreover have "wf_json (JObj ?v)" "jget ?v ''ok'' = JBool True"
    using items(2) by (auto simp: wf_dict_def jget_def dget_or_def)
  ultimately show ?thesis
    by (intro exI [of _ "s\<lparr>state := save (state s), outbox := outbox s @ [(w, ?v)]\<rparr>"] exI [of _ ?v]) (simp add: carried_def same_tables_save)
qed

lemma registration_fields:
  "jget (registration_message env c) ''type'' = JStr ''wisps''"
  "jget (registration_message env c) ''client_public_key'' = JStr (public_key_text (lib_rsa env) (own_key env))"
  "dget_or (registration_message env c) ''items'' v = JList (map (JObj \<circ> manifest) (dvalues (registered c)))"
  "wf_json (JObj (registration_message env c))"
  by (auto simp: registration_message_def manifest_def wf_dict_def jget_def dget_or_def)

text \<open>The tables after a registration.\<close>

definition registered_at :: "'k client_env \<Rightarrow> 'w client \<Rightarrow> relay_state \<Rightarrow> bool" where
  "registered_at env c st \<longleftrightarrow> (\<forall>w \<in> set (dvalues (registered c)). kget (wisps st) (JStr (wisp_id w)) = Some (stored (own_id env) w))"

lemma tidy_subset: "tidy s \<Longrightarrow> set (wisps t) \<subseteq> set (wisps s) \<Longrightarrow> tidy t"
  by (auto simp: tidy_def subset_iff simp del: wf_json.simps)

lemma registration_tables:
  fixes env :: "'k client_env"
  assumes "approved env st" and "tidy st" and "proper_wisps c" and "same_tables env st st0"
    and "st' = remove_wisps_for_owner st0 (own_id env)"
    and "u = save (st'\<lparr>wisps := fold (\<lambda>w. kput (JStr (wisp_id w)) (stored (own_id env) w)) (dvalues (registered c)) (wisps st')\<rparr>)"
  shows "approved env u \<and> tidy u \<and> registered_at env c u"
proof -
  have "tidy st'"
    by (rule tidy_subset [OF assms(2)]) (use assms(4) in \<open>auto simp: assms(5) same_tables_def remove_wisps_for_owner_def\<close>)
  then have "tidy u"
    using fold_tidy [of st' "own_id env" "dvalues (registered c)"] by (simp add: assms(6) tidy_def save_def)
  moreover have "approved env u"
    using assms(1,4) by (simp add: assms(5,6) approved_def save_def same_tables_def remove_wisps_for_owner_def)
  moreover have "registered_at env c u"
    using proper_distinct [OF assms(3)] by (auto simp: registered_at_def assms(6) save_def simp del: set_map intro!: fold_stored)
  ultimately show ?thesis by blast
qed

lemma note_registration:
  assumes "approved env (state s)"
  shows "\<exists>st. whenA (truthy (JStr (public_key_text (lib_rsa env) (own_key env))))
      (\<lambda>s. on_state (\<lambda>st. register_client st (own_id env) (JStr (public_key_text (lib_rsa env) (own_key env))) True (wall_clock s)) s) s
      = (Inr (), s\<lparr>state := st\<rparr>) \<and> same_tables env (state s) st"
proof (cases "truthy (JStr (public_key_text (lib_rsa env) (own_key env)))")
  case True
  with register_client_tables [OF assms, of "wall_clock s"] show ?thesis
    by (intro exI [of _ "snd (register_client (state s) (own_id env) (JStr (public_key_text (lib_rsa env) (own_key env))) True (wall_clock s))"])
       (simp add: whenA_def on_state_def)
next
  case False
  then show ?thesis by (intro exI [of _ "state s"]) (simp add: whenA_def same_tables_def)
qed

text \<open>A registration answers with the catalog, subscribes the connection and is broadcast.\<close>

lemma control_registers:
  fixes env :: "'k client_env"
  assumes "hosting env s [w]" and "proper_wisps c"
  shows "\<exists>t v more. control_step renv w rnd (AwaitRegistration (own_id env)) (Line (wire (registration_message env c))) s
      = (Subscribed (own_id env), t) \<and> outbox t = outbox s @ (w, v) # more \<and>
    (\<forall>ws. hosting env s ws \<longrightarrow> hosting env t ws) \<and> registered_at env c (state t) \<and>
    wf_json (JObj v) \<and> jget v ''ok'' = JBool True \<and> jget v ''type'' = JStr ''wisps_registered'' \<and> (\<exists>items. dget v ''items'' = Some (JList items))"
proof -
  let ?id = "own_id env" and ?m = "registration_message env c"
  have ok: "approved env (state s)" "tidy (state s)" "writable s w" using assms(1) by (simp_all add: hosting_def)
  obtain st0 where st0: "whenA (truthy (JStr (public_key_text (lib_rsa env) (own_key env))))
      (\<lambda>s. on_state (\<lambda>st. register_client st (own_id env) (JStr (public_key_text (lib_rsa env) (own_key env))) True (wall_clock s)) s) s
      = (Inr (), s\<lparr>state := st0\<rparr>)" "same_tables env (state s) st0"
    using note_registration [OF ok(1)] by blast
  define st' where "st' = remove_wisps_for_owner st0 ?id"
  define u where "u = save (st'\<lparr>wisps := fold (\<lambda>w. kput (JStr (wisp_id w)) (stored ?id w)) (dvalues (registered c)) (wisps st')\<rparr>)"
  have u: "approved env u \<and> tidy u \<and> registered_at env c u"
    by (rule registration_tables [OF ok(1,2) assms(2) st0(2) st'_def u_def])
  obtain items where items: "catalog_items renv (s\<lparr>state := u\<rparr>) ?id = Inr items" "\<forall>item \<in> set items. wf_json (JObj item)"
    using tidy_catalog [of "s\<lparr>state := u\<rparr>" renv ?id] u by auto
  let ?v = "[(''ok'', JBool True), (''type'', JStr ''wisps_registered''), (''items'', JList (map JObj items))]"
  let ?t = "s\<lparr>state := u, outbox := outbox s @ [(w, ?v)], control_sessions := dput ?id (?id, w) (control_sessions s)\<rparr>"
  obtain more subscribers where b: "broadcast_catalog renv ?t
      = (Inr (), ?t\<lparr>outbox := outbox ?t @ more, control_sessions := subscribers\<rparr>)"
    using tidy_broadcast [of ?t renv] u by auto
  have logs: "log_wisp_keys s = (Inr (), s)" "log_wisp_keys (s\<lparr>state := u\<rparr>) = (Inr (), s\<lparr>state := u\<rparr>)"
    using tidy_log ok(2) u by simp_all
  have each: "each (register_item ?id) (map (JObj \<circ> manifest) (dvalues (registered c))) (s\<lparr>state := st'\<rparr>)
      = (Inr (), s\<lparr>state := st'\<lparr>wisps := fold (\<lambda>w. kput (JStr (wisp_id w)) (stored ?id w)) (dvalues (registered c)) (wisps st')\<rparr>\<rparr>)"
    using each_registered [of "dvalues (registered c)" ?id "s\<lparr>state := st'\<rparr>"] proper_distinct [OF assms(2)] by simp
  have "register_wisps renv w ?id ?m s = (Inr (), ?t\<lparr>outbox := outbox ?t @ more, control_sessions := subscribers\<rparr>)"
    unfolding register_wisps_def registration_fields iterate_def json.case
    using logs(1) st0(1) each logs(2) items(1) b ok(3) st'_def u_def
    by (simp add: andthen_def send_json_def writable_def del: truthy.simps)
  then have "control_step renv w rnd (AwaitRegistration ?id) (Line (wire ?m)) s
      = (Subscribed ?id, ?t\<lparr>outbox := outbox ?t @ more, control_sessions := subscribers\<rparr>)"
    using registration_fields [of env c] by (simp add: control_step_def eq_str_def andthen_def catch_def del: wf_json.simps)
  moreover have "wf_json (JObj ?v)" "jget ?v ''ok'' = JBool True" "jget ?v ''type'' = JStr ''wisps_registered''"
    "dget ?v ''items'' = Some (JList (map JObj items))"
    using items(2) by (auto simp: wf_dict_def jget_def dget_or_def)
  ultimately show ?thesis using u
    by (intro exI [of _ "?t\<lparr>outbox := outbox ?t @ more, control_sessions := subscribers\<rparr>"] exI [of _ ?v] exI [of _ more])
       (simp add: hosting_def writable_def)
qed

text \<open>The proof that starts a session: the answer, \<open>ready\<close>, what was queued, the broadcast.\<close>

lemma each_sent:
  "writable s w \<Longrightarrow> each (send_json w) vs s = (Inr (), s\<lparr>outbox := outbox s @ map (Pair w) vs\<rparr>)"
  by (induction vs arbitrary: s) (simp_all add: writable_def send_json_def andthen_def)

lemma relay_ready_run:
  assumes "writable s w"
    and "st = (state s)\<lparr>clients := dput cid (dput ''last_seen'' (JInt (trunc (monotonic s))) (endpoint_record s cid)) (clients (state s))\<rparr>"
  shows "relay_ready env w cid s = broadcast_catalog env (s\<lparr>state := save (snd (drain st cid)), sessions := dput cid (cid, w) (sessions s),
      relay_liveness := dput cid (monotonic s) (relay_liveness s),
      outbox := outbox s @ (w, [(''ok'', JBool True), (''type'', JStr ''ready''), (''client_id'', JStr cid)]) # map (Pair w) (fst (drain st cid))\<rparr>)"
  using assms(1) unfolding assms(2)
  by (simp add: relay_ready_def andthen_def send_json_ok each_sent writable_def, intro arg_cong [where f = "broadcast_catalog env"]) simp

lemma relay_starts:
  assumes "endpoint_ok env renv" and "hosting env s [w]" and "awaited env cfg challenge key s"
    and "ascii_encode (client_transcript ''relay'' (own_id env) challenge) = Inr bs"
  shows "\<exists>t v more. relay_step renv w ch k (RelayProof (waiting_for env ''relay'' key)) (Line (wire (proof_message env salt bs))) s
      = (RelayLoop (own_id env), t) \<and> outbox t = outbox s @ (w, authenticated_message (own_id env)) # (w, v) # more \<and>
    carried env s t \<and> connected t (own_id env) w \<and> online t (own_id env) \<and> wf_json (JObj v) \<and> jget v ''ok'' = JBool True"
proof -
  obtain st where st: "auth_proof renv w (waiting_for env ''relay'' key) False (JObj (proof_message env salt bs)) s = (Inr (Some (own_id env)),
      s\<lparr>state := st, auth_challenges := dpop key (auth_challenges s), outbox := outbox s @ [(w, authenticated_message (own_id env))]\<rparr>)"
    "same_tables env (state s) st"
    using proof_passes [OF assms, of False salt] by blast
  let ?id = "own_id env" and ?ready = "[(''ok'', JBool True), (''type'', JStr ''ready''), (''client_id'', JStr (own_id env))]"
  let ?s1 = "s\<lparr>state := st, auth_challenges := dpop key (auth_challenges s), outbox := outbox s @ [(w, authenticated_message ?id)]\<rparr>"
  let ?st1 = "st\<lparr>clients := dput ?id (dput ''last_seen'' (JInt (trunc (monotonic s))) (dget_or (clients st) ?id [])) (clients st)\<rparr>"
  let ?st2 = "save (snd (drain ?st1 ?id))"
  let ?t = "?s1\<lparr>state := ?st2, sessions := dput ?id (?id, w) (sessions s), relay_liveness := dput ?id (monotonic s) (relay_liveness s),
      outbox := outbox s @ (w, authenticated_message ?id) # (w, ?ready) # map (Pair w) (fst (drain ?st1 ?id))\<rparr>"
  have same: "same_tables env (state s) ?st2"
    by (rule same_tables_trans [OF st(2) same_tables_trans [OF seen_tables same_tables_trans [OF drain_tables same_tables_save]]])
  then have "tidy (state ?t)" using assms(2) by (simp add: hosting_def same_tables_def tidy_def)
  from tidy_broadcast [OF this, of renv] obtain more subscribers where b: "broadcast_catalog renv ?t
      = (Inr (), ?t\<lparr>outbox := outbox ?t @ more, control_sessions := subscribers\<rparr>)" by auto
  have w: "writable s w" using assms(2) by (simp add: hosting_def)
  then have "relay_ready renv w ?id ?s1 = (Inr (), ?t\<lparr>outbox := outbox ?t @ more, control_sessions := subscribers\<rparr>)"
    using b relay_ready_run [of ?s1 w ?st1 ?id renv] by (simp add: writable_def endpoint_record_def)
  then have "relay_step renv w ch k (RelayProof (waiting_for env ''relay'' key)) (Line (wire (proof_message env salt bs))) s
      = (RelayLoop ?id, ?t\<lparr>outbox := outbox ?t @ more, control_sessions := subscribers\<rparr>)"
    using st(1) hello_wf(2) [of env salt bs] by (simp add: relay_step_def andthen_def del: wf_json.simps)
  moreover have "wf_json (JObj ?ready)" "jget ?ready ''ok'' = JBool True"
    by (simp_all add: wf_dict_def jget_def dget_or_def)
  ultimately show ?thesis using same w
    by (intro exI [of _ "?t\<lparr>outbox := outbox ?t @ more, control_sessions := subscribers\<rparr>"] exI [of _ ?ready]
        exI [of _ "map (Pair w) (fst (drain ?st1 ?id)) @ more"])
       (simp add: carried_def connected_def online_def writable_def HEARTBEAT_TIMEOUT_SECONDS_def)
qed

section \<open>The runtime's side\<close>

text \<open>A connection that shows a certificate and gets these answers.\<close>

definition answering :: "'k client_env \<Rightarrow> conn \<Rightarrow> bytes \<Rightarrow> string \<Rightarrow> bytes \<Rightarrow> endpoint_io" where
  "answering env w certificate challenge salt = \<lparr>end_conn = w, end_failure = None, end_certificate = Some certificate,
     end_challenge = Line (wire (challenge_message challenge)), end_result = Line (wire (authenticated_message (own_id env))),
     end_salt = salt\<rparr>"

definition said :: "link \<Rightarrow> (conn \<times> jdict) list \<Rightarrow> link" where
  "said l ms = l\<lparr>link_sent := link_sent l @ ms\<rparr>"

lemma said_simps [simp]:
  "said (said l ms) ns = said l (ms @ ns)" "tls_anchor (said l ms) = tls_anchor l" "link_broken (said l ms) = link_broken l"
  by (simp_all add: said_def)

lemma put_line_said: "w \<notin> set (link_broken l) \<Longrightarrow> put_line w v l = (Inr (), said l [(w, v)])"
  by (simp add: put_line_def said_def)

lemma serve_once_through:
  assumes "tls_anchor l = Some (hexdigest (lib_sha256 cfg certificate))"
    and "cc \<notin> set (link_broken l)" and "rc \<notin> set (link_broken l)"
    and "ascii_encode (client_transcript ''control'' (own_id env) ch1) = Inr bs1"
    and "ascii_encode (client_transcript ''relay'' (own_id env) ch2) = Inr bs2"
    and "wf_json (JObj joined)" and "jget joined ''ok'' = JBool True"
    and "wf_json (JObj listing)" and "jget listing ''ok'' = JBool True" and "jget listing ''type'' = JStr ''wisps_registered''"
    and "dget listing ''items'' = Some (JList items)"
    and "wf_json (JObj ready)" and "jget ready ''ok'' = JBool True"
  shows "serve_once env cfg boot (answering env cc certificate ch1 salt1) (Line (wire joined)) (Line (wire listing))
      (answering env rc certificate ch2 salt2) (Line (wire ready)) c l
    = (Inr (), said l [(cc, hello_message env cfg ''control''), (cc, proof_message env salt1 bs1), (cc, join_message env),
        (cc, registration_message env c), (rc, hello_message env cfg ''relay''), (rc, proof_message env salt2 bs2)])"
proof -
  have tls: "open_tls env cfg boot (answering env w certificate ch salt) (said l ms) = (Inr (), said l ms)" for w ch salt ms
    using assms(1) by (simp add: open_tls_def failing_def answering_def)
  have auth: "authenticate_endpoint env cfg role (answering env w certificate ch salt) (said l ms)
      = (Inr (), said l (ms @ [(w, hello_message env cfg role), (w, proof_message env salt bs)]))"
    if "ascii_encode (client_transcript role (own_id env) ch) = Inr bs" and "w \<notin> set (link_broken l)" for role w ch salt bs ms
    using client_answers_challenge [OF that(1), of "answering env w certificate ch salt" "said l ms"] that(2)
    by (simp add: answering_def) (simp add: said_def)
  have join: "join_relay env (answering env cc certificate ch1 salt1) (Line (wire joined)) (said l ms)
      = (Inr (), said l (ms @ [(cc, join_message env)]))" for ms
    using assms(2,6,7) by (simp add: join_relay_def put_line_said andthen_def answering_def join_message_def del: wf_json.simps)
  have items: "dget_or listing ''items'' v = JList items" for v using assms(11) by (simp add: dget_or_def)
  have register: "register_items env (answering env cc certificate ch1 salt1) (Line (wire listing)) c (said l ms)
      = (Inr (), said l (ms @ [(cc, registration_message env c)]))" for ms
    using assms(2,8-10) items by (simp add: register_items_def put_line_said andthen_def answering_def eq_str_def iterate_def del: wf_json.simps)
  have start: "l = said l []" by (simp add: said_def)
  show ?thesis
    by (subst start, unfold serve_once_def) (use assms(2-5,12,13) in \<open>simp add: tls auth join register andthen_def del: wf_json.simps\<close>)
qed

section \<open>Online\<close>

lemma registered_listed:
  assumes "endpoint_ok env renv" and "approved env (state s)" and "registered_at env c (state s)" and "tidy (state s)"
    and "online s (own_id env)" and "endpoint_usable s cid False"
  shows "\<exists>items. catalog_items renv s cid = Inr items \<and>
    (\<forall>w \<in> set (dvalues (registered c)).
       dput ''public_key'' (JStr (public_key_text (lib_rsa env) (own_key env))) (stored (own_id env) w) \<in> set items)"
proof -
  let ?pk = "JStr (public_key_text (lib_rsa env) (own_key env))"
  obtain items where items: "catalog_items renv s cid = Inr items" using tidy_catalog [OF assms(4)] by blast
  have key: "jget (endpoint_record s (own_id env)) ''public_key'' = ?pk"
    using assms(2) by (auto simp: approved_def endpoint_record_def dget_or_def)
  have correct: "rsa_correct (lib_rsa env) (own_key env)" "rsa_lib renv = lib_rsa env" using assms(1) by (simp_all add: endpoint_ok_def)
  have valid: "valid_endpoint_public_key (rsa_lib renv) ?pk"
    using rsa_correctD(1) [OF correct(1)] correct(2) by (auto simp: valid_endpoint_public_key_def public_key_text_def)
  have "dput ''public_key'' ?pk (stored (own_id env) w) \<in> set items" if w: "w \<in> set (dvalues (registered c))" for w
  proof -
    obtain k where "(k, stored (own_id env) w) \<in> set (wisps (state s))"
      using kget_in [OF assms(3) [unfolded registered_at_def, rule_format, OF w]] by blast
    moreover have "jget (stored (own_id env) w) ''owner'' = JStr (own_id env)" by (simp add: stored_def jget_def dget_or_def)
    then have "listed renv s cid (stored (own_id env) w) (dput ''public_key'' ?pk (stored (own_id env) w))"
      using assms(1,5,6) approved_usable [OF assms(2)] key valid by (simp add: listed_def endpoint_ok_def)
    ultimately show ?thesis by (rule listed_in_catalog [OF items])
  qed
  with items show ?thesis by blast
qed

text \<open>C8: a runtime the relay knows comes online: when the relay has approved its endpoint and the pinned
  certificate is shown, the exchange of one attempt goes through on both sides. The control handler takes the runtime's
  hello, proof, join and registration in turn and the relay handler its hello and its proof, each
  proof within a minute; the runtime, given exactly the relay's answers, gets to its event loop
  and has sent exactly these messages; then its session is the connected one, and the catalog of
  every approved endpoint lists each of its Wisps with its name, description and key.\<close>

theorem known_runtime_comes_online:
  assumes parties: "endpoint_ok env renv" "proper_wisps c"
    and relay: "approved env (state s0)" "tidy (state s0)" "writable s0 wc" "writable s0 wr"
    and texts: "ascii_encode (client_transcript ''control'' (own_id env) (r_challenge rnd)) = Inr bs1"
      "ascii_encode (client_transcript ''relay'' (own_id env) challenge) = Inr bs2"
    and delays: "d1 \<le> 60" "d2 \<le> 60"
    and link: "tls_anchor l = Some (hexdigest (lib_sha256 cfg certificate))" "cc \<notin> set (link_broken l)" "rc \<notin> set (link_broken l)"
  shows "\<exists>s1 s2 s3 s4 s5 s6 joined listing ready more1 more2.
    control_step renv wc rnd AwaitAuth (Line (wire (hello_message env cfg ''control''))) s0
      = (AwaitProof (waiting_for env ''control'' (r_key rnd)), s1) \<and>
    control_step renv wc rnd' (AwaitProof (waiting_for env ''control'' (r_key rnd))) (Line (wire (proof_message env salt bs1))) (later d1 s1)
      = (AwaitJoin (own_id env), s2) \<and>
    control_step renv wc rnd'' (AwaitJoin (own_id env)) (Line (wire (join_message env))) s2 = (AwaitRegistration (own_id env), s3) \<and>
    control_step renv wc rnd''' (AwaitRegistration (own_id env)) (Line (wire (registration_message env c))) s3
      = (Subscribed (own_id env), s4) \<and>
    relay_step renv wr challenge key RelayHello (Line (wire (hello_message env cfg ''relay''))) s4
      = (RelayProof (waiting_for env ''relay'' key), s5) \<and>
    relay_step renv wr challenge' key' (RelayProof (waiting_for env ''relay'' key)) (Line (wire (proof_message env salt' bs2))) (later d2 s5)
      = (RelayLoop (own_id env), s6) \<and>
    outbox s6 = outbox s0 @ [(wc, challenge_message (r_challenge rnd)), (wc, authenticated_message (own_id env)), (wc, joined), (wc, listing)]
      @ more1 @ [(wr, challenge_message challenge), (wr, authenticated_message (own_id env)), (wr, ready)] @ more2 \<and>
    serve_once env cfg boot (answering env cc certificate (r_challenge rnd) salt) (Line (wire joined)) (Line (wire listing))
        (answering env rc certificate challenge salt') (Line (wire ready)) c l
      = (Inr (), said l [(cc, hello_message env cfg ''control''), (cc, proof_message env salt bs1), (cc, join_message env),
          (cc, registration_message env c), (rc, hello_message env cfg ''relay''), (rc, proof_message env salt' bs2)]) \<and>
    connected s6 (own_id env) wr \<and>
    (\<forall>cid. endpoint_usable s6 cid False \<longrightarrow> (\<exists>items. catalog_items renv s6 cid = Inr items \<and>
       (\<forall>w \<in> set (dvalues (registered c)).
          dput ''public_key'' (JStr (public_key_text (lib_rsa env) (own_key env))) (stored (own_id env) w) \<in> set items)))"
proof -
  let ?id = "own_id env" and ?a1 = "waiting_for env ''control'' (r_key rnd)" and ?a2 = "waiting_for env ''relay'' key"
  let ?s1 = "challenged env cfg wc (r_challenge rnd) (r_key rnd) s0"
  have sub: "hosting env s [wc]" "hosting env s [wr]" if "hosting env s [wc, wr]" for s using that by (simp_all add: hosting_def)
  have "hosting env s0 [wc, wr]" using relay by (simp add: hosting_def)
  then have h1: "hosting env (later d1 ?s1) [wc, wr]" by simp
  then have c1: "control_step renv wc rnd AwaitAuth (Line (wire (hello_message env cfg ''control''))) s0 = (AwaitProof ?a1, ?s1)"
    by (intro control_hello parties sub) simp
  obtain s2 where c2: "control_step renv wc rnd' (AwaitProof ?a1) (Line (wire (proof_message env salt bs1))) (later d1 ?s1) = (AwaitJoin ?id, s2)"
    "outbox s2 = outbox (later d1 ?s1) @ [(wc, authenticated_message ?id)]" "carried env (later d1 ?s1) s2"
    using control_proof [OF parties(1) sub(1) [OF h1] challenged_awaited [OF delays(1)] texts(1)] by blast
  note h2 = hosting_carried [OF c2(3) h1]
  obtain s3 joined where c3: "control_step renv wc rnd'' (AwaitJoin ?id) (Line (wire (join_message env))) s2 = (AwaitRegistration ?id, s3)"
    "outbox s3 = outbox s2 @ [(wc, joined)]" "carried env s2 s3" "wf_json (JObj joined)" "jget joined ''ok'' = JBool True"
    using control_join [OF sub(1) [OF h2]] by blast
  note h3 = hosting_carried [OF c3(3) h2]
  obtain s4 listing more1 items where
    c4: "control_step renv wc rnd''' (AwaitRegistration ?id) (Line (wire (registration_message env c))) s3 = (Subscribed ?id, s4)"
    "outbox s4 = outbox s3 @ (wc, listing) # more1" "wf_json (JObj listing)" "jget listing ''ok'' = JBool True"
    "jget listing ''type'' = JStr ''wisps_registered''" "dget listing ''items'' = Some (JList items)"
    and h4: "hosting env s4 [wc, wr]" and r4: "registered_at env c (state s4)"
    using control_registers [OF sub(1) [OF h3] parties(2), of renv rnd'''] h3 by blast
  let ?s5 = "challenged env cfg wr challenge key s4"
  have c5: "relay_step renv wr challenge key RelayHello (Line (wire (hello_message env cfg ''relay''))) s4 = (RelayProof ?a2, ?s5)"
    and h5: "hosting env (later d2 ?s5) [wr]"
    using relay_hello [OF parties(1) sub(2) [OF h4]] sub(2) [OF h4] by simp_all
  obtain s6 ready more2 where
    c6: "relay_step renv wr challenge' key' (RelayProof ?a2) (Line (wire (proof_message env salt' bs2))) (later d2 ?s5) = (RelayLoop ?id, s6)"
    "outbox s6 = outbox (later d2 ?s5) @ (wr, authenticated_message ?id) # (wr, ready) # more2" "carried env (later d2 ?s5) s6"
    "wf_json (JObj ready)" "jget ready ''ok'' = JBool True"
    and on: "connected s6 ?id wr" "online s6 ?id"
    using relay_starts [OF parties(1) h5 challenged_awaited [OF delays(2)] texts(2)] by blast
  have h6: "approved env (state s6)" "tidy (state s6)" using hosting_carried [OF c6(3) h5] by (simp_all add: hosting_def)
  have r6: "registered_at env c (state s6)" using r4 c6(3) by (simp add: registered_at_def carried_def same_tables_def)
  have out: "outbox s6 = outbox s0 @ [(wc, challenge_message (r_challenge rnd)), (wc, authenticated_message ?id), (wc, joined), (wc, listing)]
      @ more1 @ [(wr, challenge_message challenge), (wr, authenticated_message ?id), (wr, ready)] @ more2"
    using c2(2) c3(2) c4(2) c6(2) by simp
  note through = serve_once_through [OF link texts c3(4,5) c4(3-6) c6(4,5), of boot salt salt' c]
  note lists = registered_listed [OF parties(1) h6(1) r6 h6(2) on(2)]
  show ?thesis
    using c1 c2(1) c3(1) c4(1) c5 c6(1) out through on(1) lists by blast
qed

section \<open>Witness\<close>

definition demo_rnd :: randomness where
  "demo_rnd = \<lparr>r_challenge = ''c'', r_key = ''k'', r_content_key = [], r_seal_nonce = [], r_seed = []\<rparr>"

definition demo_offline :: "nat client" where
  "demo_offline = register demo_prime (AppserveClient 0 None [] 0)"

definition demo_signed :: "string \<Rightarrow> bytes" where
  "demo_signed role = map (\<lambda>c. of_nat (code c)) (client_transcript role ''wisp'' ''c'')"

definition demo_boot :: bootstrap_io where
  "demo_boot = \<lparr>boot_conn = 3, boot_failure = None, boot_reply = TimedOut, boot_nonce = [], boot_key = [], boot_iv = [], boot_seed = []\<rparr>"

lemma known_runtime_comes_online_witness:
  "\<exists>s1 s5 s6 joined listing ready l.
    control_step demo_env 8 demo_rnd AwaitAuth (Line (wire (hello_message (demo_bulk_env ''wisp'') demo_connect_env ''control''))) demo_relay
      = (AwaitProof (waiting_for (demo_bulk_env ''wisp'') ''control'' ''k''), s1) \<and>
    relay_step demo_env 9 [] [] (RelayProof (waiting_for (demo_bulk_env ''wisp'') ''relay'' ''k''))
      (Line (wire (proof_message (demo_bulk_env ''wisp'') [] (demo_signed ''relay'')))) (later 60 s5) = (RelayLoop ''wisp'', s6) \<and>
    serve_once (demo_bulk_env ''wisp'') demo_connect_env demo_boot (answering (demo_bulk_env ''wisp'') 4 [1, 2] ''c'' []) (Line (wire joined))
      (Line (wire listing)) (answering (demo_bulk_env ''wisp'') 5 [1, 2] ''c'' []) (Line (wire ready)) demo_offline demo_link = (Inr (), l) \<and>
    connected s6 ''wisp'' 9"
proof -
  let ?env = "demo_bulk_env ''wisp''"
  have id: "own_id ?env = ''wisp''" "r_challenge demo_rnd = ''c''" "r_key demo_rnd = ''k''"
    by (simp_all add: demo_bulk_env_def demo_rnd_def)
  have "b64u (public_der demo_rsa [9]) \<noteq> []" by code_simp
  then have parties: "endpoint_ok ?env demo_env" "proper_wisps demo_offline"
    by (simp_all add: endpoint_ok_def demo_bulk_env_def demo_rsa_correct demo_env_def public_key_text_def)
       (simp_all add: demo_offline_def register_def AppserveClient_def proper_wisps_def demo_prime_def wf_dict_def)
  have relay: "approved ?env (state demo_relay)" "tidy (state demo_relay)" "writable demo_relay 8" "writable demo_relay 9"
    by (simp_all add: approved_def demo_bulk_env_def demo_simps demo_key_def public_key_text_def demo_rsa_def jget_def dget_or_def tidy_def
        writable_def wf_dict_def)
  have texts: "ascii_encode (client_transcript ''control'' (own_id ?env) (r_challenge demo_rnd)) = Inr (demo_signed ''control'')"
    "ascii_encode (client_transcript ''relay'' (own_id ?env) ''c'') = Inr (demo_signed ''relay'')"
    unfolding id by (simp_all add: demo_signed_def client_transcript_def ascii_encode_def code_def)
  have link: "tls_anchor demo_link = Some (hexdigest (lib_sha256 demo_connect_env [1, 2]))" "4 \<notin> set (link_broken demo_link)"
    "5 \<notin> set (link_broken demo_link)"
    by (simp_all add: demo_link_def demo_connect_env_def) code_simp
  note online = known_runtime_comes_online [where cfg = demo_connect_env and certificate = "[1, 2]" and rnd' = demo_rnd and rnd'' = demo_rnd
      and rnd''' = demo_rnd and key = "''k''" and challenge' = "[]" and key' = "[]" and salt = "[]" and salt' = "[]" and boot = demo_boot,
      OF parties relay texts order_refl order_refl link]
  then show ?thesis unfolding id by (elim exE conjE) (intro exI conjI, assumption+)
qed

end
