(* ===== verification/Deployment.thy ===== *)
theory Deployment
  imports RelaySystem
begin

text \<open>
  The start of the relay: the command line and \<open>main\<close> of \<open>__main__.py\<close>, \<open>serve\<close> of \<open>service.py\<close>
  and \<open>generate_server_keypair\<close> of \<open>core.py\<close>, and a deployment that is stopped and started again
  on the same state file any number of times.
\<close>

section \<open>The command line\<close>

record arguments =
  private_key_path :: string
  tls_cert :: string
  tls_key :: string
  state_path :: string
  arg_deployment_id :: string
  allow_enrollment :: bool
  control_host :: string
  control_port :: int
  relay_host :: string
  relay_port :: int
  bulk_host :: string
  bulk_port :: int
  log_level :: string
  update_script :: "string option"

text \<open>The four required options; the others have their defaults and are updated by the command line.\<close>

definition parser :: "string \<Rightarrow> string \<Rightarrow> string \<Rightarrow> string \<Rightarrow> arguments" where
  "parser key_file cert_file tls_key_file state_file =
     \<lparr>private_key_path = key_file, tls_cert = cert_file, tls_key = tls_key_file, state_path = state_file,
      arg_deployment_id = ''private'', allow_enrollment = False,
      control_host = ''0.0.0.0'', control_port = 443, relay_host = ''0.0.0.0'', relay_port = 4443,
      bulk_host = ''0.0.0.0'', bulk_port = 4444, log_level = ''INFO'', update_script = None\<rparr>"

section \<open>The machine\<close>

text \<open>
  What the relay finds on its machine: private keys by path (the PEM text and its loader belong
  to the library), the certificate a pair of TLS files gives, the state file as the document it
  holds, and the output of \<open>git rev-parse\<close>.
\<close>

record 'k machine =
  key_files :: "(string, 'k) dict"
  tls_chain :: "string \<Rightarrow> string \<Rightarrow> bytes result"
  state_files :: "(string, json) dict"
  git_head :: "string result"

record 'k libraries =
  rsa_of :: "'k rsa"
  aes_of :: aead
  sha_of :: "bytes \<Rightarrow> bytes"

text \<open>\<open>generate_server_keypair\<close>: the new key replaces whatever the file held; the text is the public key.\<close>

definition generate_server_keypair :: "'k libraries \<Rightarrow> string \<Rightarrow> 'k \<Rightarrow> 'k machine \<Rightarrow> string \<times> 'k machine" where
  "generate_server_keypair lib path fresh m =
     (b64 (public_der (rsa_of lib) fresh), m\<lparr>key_files := dput path fresh (key_files m)\<rparr>)"

section \<open>Listening\<close>

datatype handler = HandleControl | HandleRelay | HandleBulk

record listener =
  serves :: handler
  at_host :: string
  at_port :: int
  line_limit :: nat

definition RELAY_LINE_LIMIT_BYTES :: nat where
  "RELAY_LINE_LIMIT_BYTES = 1024 * 1024 + 16 * 1024"

text \<open>The limit of \<open>start_server\<close> where none is given is 64 KiB.\<close>

definition serve ::
  "'k machine \<Rightarrow> 'k relay_env \<Rightarrow> string \<times> int \<Rightarrow> string \<times> int \<Rightarrow> string \<times> int \<Rightarrow> string option \<Rightarrow> string option \<Rightarrow>
     ('k relay_env \<times> listener list) result" where
  "serve m env control relay bulk tls_cert_path tls_key_path =
     (case (tls_cert_path, tls_key_path) of
        (Some cert_path, Some key_path) \<Rightarrow>
          bindE (tls_chain m cert_path key_path) (\<lambda>certificate.
          Inr (env\<lparr>certificate_der := Some certificate\<rparr>,
            [\<lparr>serves = HandleControl, at_host = fst control, at_port = snd control, line_limit = 64 * 1024\<rparr>,
             \<lparr>serves = HandleRelay, at_host = fst relay, at_port = snd relay, line_limit = RELAY_LINE_LIMIT_BYTES\<rparr>,
             \<lparr>serves = HandleBulk, at_host = fst bulk, at_port = snd bulk, line_limit = 64 * 1024\<rparr>]))
      | _ \<Rightarrow> Inl (ValueError ''production relay listeners require TLS certificate and key''))"

section \<open>Starting\<close>

definition blank_stripped :: "string \<Rightarrow> string" where
  "blank_stripped s =
     (let strip = dropWhile (\<lambda>c. code c \<in> {9, 10, 11, 12, 13, 28, 29, 30, 31, 32, 133, 160})
      in rev (strip (rev (strip s))))"

text \<open>\<open>main\<close>; a state object has room for 100 envelopes per client.\<close>

definition main ::
  "'k libraries \<Rightarrow> arguments \<Rightarrow> host \<Rightarrow> 'k machine \<Rightarrow> ('k relay_env \<times> listener list \<times> system) result" where
  "main lib args h m =
     (case dget (key_files m) (private_key_path args) of
        None \<Rightarrow> Inl OSError
      | Some key \<Rightarrow>
          bindE (load (RelayState (dget (state_files m) (state_path args)) 100)) (\<lambda>st.
          let env = \<lparr>rsa_lib = rsa_of lib, aes_lib = aes_of lib, sha256_lib = sha_of lib,
                config = (RelayConfig key)\<lparr>deployment_id := arg_deployment_id args, enrollment_enabled := allow_enrollment args\<rparr>,
                update_command = map_option (\<lambda>script. [''/usr/bin/sudo'', ''-n'', script]) (update_script args),
                server_version = (case git_head m of Inr out \<Rightarrow> blank_stripped out | Inl _ \<Rightarrow> ''unknown''),
                certificate_der = None\<rparr>
          in bindE (serve m env (control_host args, control_port args) (relay_host args, relay_port args)
               (bulk_host args, bulk_port args) (Some (tls_cert args)) (Some (tls_key args))) (\<lambda>(env', listeners).
             Inr (env', listeners, start st h))))"

text \<open>
  One life of the relay after another: each starts from the file the one before left behind.
\<close>

definition left_behind :: "arguments \<Rightarrow> system \<Rightarrow> 'k machine \<Rightarrow> 'k machine" where
  "left_behind args s m =
     m\<lparr>state_files := (case disk (state (runtime s)) of
          Some document \<Rightarrow> dput (state_path args) document (state_files m)
        | None \<Rightarrow> dpop (state_path args) (state_files m))\<rparr>"

fun deployment :: "'k libraries \<Rightarrow> arguments \<Rightarrow> host \<Rightarrow> 'k machine \<Rightarrow> event list list \<Rightarrow> 'k machine" where
  "deployment lib args h m [] = m"
| "deployment lib args h m (es # lives) =
     (case main lib args h m of
        Inl _ \<Rightarrow> deployment lib args h m lives
      | Inr (env, _, s) \<Rightarrow> deployment lib args h (left_behind args (system_run env s es) m) lives)"

section \<open>What survives a restart\<close>

lemma main_result:
  assumes "main lib args h m = Inr (env, ls, s)"
  shows "\<exists>st. load (RelayState (dget (state_files m) (state_path args)) 100) = Inr st \<and> s = start st h"
  using assms by (auto simp: main_def Let_def bindE_eq_Inr split: option.splits prod.splits)

lemma start_state [simp]: "state (runtime (start st h)) = st"
  by (simp add: start_def)

lemma main_left_behind:
  assumes "main lib args h (left_behind args s m) = Inr (env, ls, u)"
    and "max_queue_per_client (state (runtime s)) = 100"
  shows "restart (state (runtime s)) = Inr (state (runtime u))"
  using main_result [OF assms(1)] assms(2)
  by (cases "disk (state (runtime s))") (auto simp: restart_def left_behind_def)

interpretation queue_limit: durable_invariant "\<lambda>s. max_queue_per_client s = n" for n
  by unfold_locales
     (auto simp: register_client_def enroll_client_def claim_admin_def set_client_status_def save_def Let_def
       split: option.splits if_splits)

lemma main_queue_limit: "main lib args h m = Inr (env, ls, s) \<Longrightarrow> max_queue_per_client (state (runtime s)) = 100"
  by (drule main_result) (auto simp: load_def RelayState_def bindE_eq_Inr split: option.splits)

locale restart_invariant = durable_invariant +
  assumes restarted: "P s \<Longrightarrow> restart s = Inr t \<Longrightarrow> P t"
begin

lemma next_life:
  assumes "main lib args h m = Inr (env, ls, s)" and "P (state (runtime s))"
    and "main lib args h (left_behind args (system_run env s es) m) = Inr (env', ls', u)"
  shows "P (state (runtime u))"
  using main_left_behind [OF assms(3) queue_limit.system_run_durably [OF main_queue_limit [OF assms(1)]]]
    restarted system_run_durably [OF assms(2)] by blast

lemma deployment_durably:
  assumes "\<And>env ls s. main lib args h m = Inr (env, ls, s) \<Longrightarrow> P (state (runtime s))"
    and "main lib args h (deployment lib args h m lives) = Inr (env, ls, s)"
  shows "P (state (runtime (system_run env s es)))"
proof -
  from assms have "P (state (runtime s))"
  proof (induction lives arbitrary: m)
    case (Cons es' lives)
    show ?case
    proof (cases "main lib args h m")
      case (Inl e)
      with Cons.prems show ?thesis by (intro Cons.IH [of m]) auto
    next
      case (Inr r)
      obtain env1 ls1 s1 where r: "r = (env1, ls1, s1)" by (cases r)
      show ?thesis
      proof (rule Cons.IH)
        show "main lib args h (deployment lib args h (left_behind args (system_run env1 s1 es') m) lives) = Inr (env, ls, s)"
          using Cons.prems(2) Inr r by simp
      qed (use Cons.prems(1) Inr r in \<open>auto intro: next_life\<close>)
    qed
  qed simp
  then show ?thesis by (rule system_run_durably)
qed

end

interpretation admin_restart: restart_invariant admin_inv
  by unfold_locales (rule admin_inv_restart)

interpretation pin_restart: restart_invariant "pinned_to cid pk" for cid pk
  by unfold_locales (auto simp: pinned_to_def intro: pin_inv_restart)

definition loadable :: "relay_state \<Rightarrow> bool" where
  "loadable s \<longleftrightarrow> (\<exists>t. restart s = Inr t)"

lemma loadable_save: "loadable (save s)"
  by (simp add: loadable_def restart_save)

lemma loadable_frame:
  "loadable s \<Longrightarrow> disk t = disk s \<Longrightarrow> max_queue_per_client t = max_queue_per_client s \<Longrightarrow> loadable t"
  by (simp add: loadable_def restart_def)

lemma loadable_fields [simp]:
  "loadable (s\<lparr>clients := c\<rparr>) = loadable s"
  "loadable (s\<lparr>queues := q\<rparr>) = loadable s"
  "loadable (s\<lparr>wisps := w\<rparr>) = loadable s"
  by (simp_all add: loadable_def restart_def)

interpretation loading: restart_invariant loadable
proof
  fix s t assume l: "loadable s"
  show "loadable (snd (register_client s cid pk replace wall))" for cid pk replace wall
    using l by (auto simp: register_client_def Let_def loadable_save split: option.splits)
  show "loadable (snd (enroll_client s cid pk kind wall))" for cid pk kind wall
    using l by (auto simp: enroll_client_def Let_def loadable_save split: option.splits)
  show "loadable (snd (claim_admin s cid))" for cid
    using l by (auto simp: claim_admin_def Let_def loadable_save split: option.splits)
  show "loadable (snd (set_client_status s cid st))" for cid st
    using l by (auto simp: set_client_status_def Let_def loadable_save split: option.splits)
  show "loadable (s\<lparr>clients := c\<rparr>)" "loadable (s\<lparr>queues := q\<rparr>)" "loadable (s\<lparr>wisps := w\<rparr>)" for c q w
    using l by simp_all
  show "loadable t" if "restart s = Inr t"
  proof (rule loadable_frame [OF l])
    show "disk t = disk s" "max_queue_per_client t = max_queue_per_client s"
      using that by (auto simp: restart_def load_def RelayState_def bindE_eq_Inr split: option.splits)
  qed
qed (rule loadable_save)

text \<open>The state that \<open>main\<close> comes up with when it comes up.\<close>

lemma main_starts:
  assumes "dget (key_files m) (private_key_path args) = Some key"
    and "tls_chain m (tls_cert args) (tls_key args) = Inr certificate"
    and "load (RelayState (dget (state_files m) (state_path args)) 100) = Inr st"
  shows "\<exists>env ls. main lib args h m = Inr (env, ls, start st h)"
  using assms by (simp add: main_def serve_def Let_def)

lemma left_behind_simps [simp]:
  "key_files (left_behind args s m) = key_files m"
  "tls_chain (left_behind args s m) = tls_chain m"
  by (simp_all add: left_behind_def)

lemma deployment_starts:
  assumes key: "dget (key_files m) (private_key_path args) = Some key"
    and tls: "tls_chain m (tls_cert args) (tls_key args) = Inr certificate"
    and "load (RelayState (dget (state_files m) (state_path args)) 100) = Inr st" and "loadable st"
  shows "\<exists>env ls s. main lib args h (deployment lib args h m lives) = Inr (env, ls, s)"
proof -
  have "\<exists>env ls s. main lib args h (deployment lib args h n lives) = Inr (env, ls, s)"
    if "key_files n = key_files m" "tls_chain n = tls_chain m"
      "load (RelayState (dget (state_files n) (state_path args)) 100) = Inr st" "loadable st" for n st
    using that
  proof (induction lives arbitrary: n st)
    case Nil
    with main_starts [of n args key certificate st lib h] key tls show ?case by auto
  next
    case (Cons es lives)
    with main_starts [of n args key certificate st lib h] key tls obtain env ls where
      s: "main lib args h n = Inr (env, ls, start st h)" by auto
    let ?u = "system_run env (start st h) es"
    have up: "loadable (state (runtime ?u))"
      by (rule loading.system_run_durably) (simp add: Cons.prems(4))
    then obtain v where v: "restart (state (runtime ?u)) = Inr v" by (auto simp: loadable_def)
    have "max_queue_per_client (state (runtime ?u)) = 100"
      by (rule queue_limit.system_run_durably [OF main_queue_limit [OF s]])
    with v have "load (RelayState (dget (state_files (left_behind args ?u n)) (state_path args)) 100) = Inr v"
      by (auto simp: restart_def left_behind_def split: option.split)
    with Cons.IH [of "left_behind args ?u n" v] Cons.prems(1,2) s loading.restarted [OF up v] show ?case by simp
  qed
  from this [of m] assms(3,4) show ?thesis by simp
qed

lemma fresh_loadable: "load (RelayState None n) = Inr (RelayState None n) \<and> loadable (RelayState None n)"
  by (simp add: load_def RelayState_def loadable_def restart_def)

text \<open>C21: the relay always comes up again: on a machine that has the key, the TLS files and no
  state file, whatever connections sent in any number of lives, and wherever each of them was
  cut off, the next start succeeds.\<close>

theorem relay_always_restarts:
  assumes "dget (key_files m) (private_key_path args) = Some key"
    and "tls_chain m (tls_cert args) (tls_key args) = Inr certificate"
    and "dget (state_files m) (state_path args) = None"
  shows "\<exists>env ls s. main lib args h (deployment lib args h m lives) = Inr (env, ls, s)"
  using deployment_starts [OF assms(1,2)] fresh_loadable assms(3) by metis

text \<open>C20: there is one administrator for good: whatever connections send in any number of lives of the
  relay, each ended at any moment and continued from the file, no state of any life has more than
  one administrator, and the administrator is approved, in memory and on disk.\<close>

theorem one_administrator_across_restarts:
  assumes "dget (state_files m) (state_path args) = None"
    and "main lib args h (deployment lib args h m lives) = Inr (env, ls, s)"
  shows "admin_inv (state (runtime (system_run env s es)))"
proof (rule admin_restart.deployment_durably [OF _ assms(2)])
  show "admin_inv (state (runtime u))" if "main lib args h m = Inr (env', ls', u)" for env' ls' u
    using main_result [OF that] assms(1) by (auto simp: load_def RelayState_def admin_inv_init [unfolded RelayState_def])
qed

text \<open>C23: a recorded key survives every restart: once an endpoint's key is on record, in memory and on
  disk, it is so in every state of every later life of the relay, whatever any connection sends.\<close>

theorem recorded_key_survives_restarts:
  assumes "main lib args h m = Inr (env, ls, s)" and "pinned_to cid pk (state (runtime (system_run env s es)))"
    and "main lib args h (deployment lib args h (left_behind args (system_run env s es) m) lives) = Inr (env', ls', s')"
  shows "pinned_to cid pk (state (runtime (system_run env' s' es')))"
proof (rule pin_restart.deployment_durably [OF _ assms(3)])
  fix env'' ls'' u
  assume "main lib args h (left_behind args (system_run env s es) m) = Inr (env'', ls'', u)"
  from main_left_behind [OF this queue_limit.system_run_durably [OF main_queue_limit [OF assms(1)]]]
  show "pinned_to cid pk (state (runtime u))" by (rule pin_restart.restarted [OF assms(2)])
qed

section \<open>Witnesses\<close>

definition demo_host :: host where
  "demo_host = \<lparr>update_log = Inl ''-'', journal = Inl ''-'', popen_ok = True\<rparr>"

definition demo_libraries :: "bytes libraries" where
  "demo_libraries = \<lparr>rsa_of = demo_rsa, aes_of = demo_aead, sha_of = (\<lambda>b. [of_nat (length b)])\<rparr>"

definition demo_arguments :: arguments where
  "demo_arguments = parser ''relay.pem'' ''tls.crt'' ''tls.key'' ''state.json''"

definition demo_machine :: "json option \<Rightarrow> bytes machine" where
  "demo_machine document = snd (generate_server_keypair demo_libraries ''relay.pem'' [7]
     \<lparr>key_files = [], tls_chain = (\<lambda>c k. if c = ''tls.crt'' \<and> k = ''tls.key'' then Inr [1, 2, 3] else Inl OSError),
      state_files = (case document of Some d \<Rightarrow> [(''state.json'', d)] | None \<Rightarrow> []), git_head = Inl OSError\<rparr>)"

lemma demo_machine_simps [simp]:
  "dget (key_files (demo_machine d)) (private_key_path demo_arguments) = Some [7]"
  "tls_chain (demo_machine d) (tls_cert demo_arguments) (tls_key demo_arguments) = Inr [1, 2, 3]"
  "dget (state_files (demo_machine d)) (state_path demo_arguments) = d"
  by (simp_all add: demo_machine_def demo_arguments_def parser_def generate_server_keypair_def split: option.split)

lemma relay_always_restarts_witness:
  "\<exists>env ls s. main demo_libraries demo_arguments demo_host (deployment demo_libraries demo_arguments demo_host (demo_machine None)
     [[AcceptControl 1, AcceptRelay 2], [AcceptRelay 3]]) = Inr (env, ls, s)"
  by (rule relay_always_restarts [of _ _ "[7]" "[1, 2, 3]"]) simp_all

lemma one_administrator_across_restarts_witness:
  "\<exists>env ls s. main demo_libraries demo_arguments demo_host (deployment demo_libraries demo_arguments demo_host (demo_machine None)
       [[AcceptControl 1], [AcceptRelay 3]]) = Inr (env, ls, s)
     \<and> admin_inv (state (runtime (system_run env s [AcceptRelay 2])))"
proof -
  obtain env ls s where "main demo_libraries demo_arguments demo_host (deployment demo_libraries demo_arguments demo_host
      (demo_machine None) [[AcceptControl 1], [AcceptRelay 3]]) = Inr (env, ls, s)"
    using deployment_starts [OF demo_machine_simps(1,2)] fresh_loadable demo_machine_simps(3) by metis
  with one_administrator_across_restarts [OF demo_machine_simps(3) this] show ?thesis by blast
qed

definition demo_document :: json where
  "demo_document = JObj [(''clients'', JObj [(''wisp'', JObj [(''public_key'', demo_key)])]), (''queues'', JObj []), (''wisps'', JObj [])]"

definition demo_loaded :: relay_state where
  "demo_loaded = (RelayState (Some demo_document) 100)\<lparr>clients := [(''wisp'',
     [(''public_key'', demo_key), (''status'', JStr ''approved''), (''admin'', JBool False)])]\<rparr>"

lemma demo_loading: "load (RelayState (Some demo_document) 100) = Inr demo_loaded" "loadable demo_loaded"
  "pinned_to ''wisp'' demo_key demo_loaded"
  by (simp_all add: load_def RelayState_def demo_document_def demo_loaded_def loadable_def restart_def dget_or_def
      dict_of_dicts_def dict_of_lists_def dsetdefault_def pinned_to_def pin_inv_def pinned_def demo_key_def)

lemma recorded_key_survives_restarts_witness:
  "\<exists>env ls s. main demo_libraries demo_arguments demo_host (deployment demo_libraries demo_arguments demo_host
       (demo_machine (Some demo_document)) [[AcceptRelay 3]]) = Inr (env, ls, s)
     \<and> pinned_to ''wisp'' demo_key (state (runtime (system_run env s [AcceptRelay 2])))"
proof -
  let ?m = "demo_machine (Some demo_document)"
  obtain env1 ls1 where first: "main demo_libraries demo_arguments demo_host ?m = Inr (env1, ls1, start demo_loaded demo_host)"
    using main_starts [OF demo_machine_simps(1,2)] demo_loading(1) demo_machine_simps(3) by metis
  have pin: "pinned_to ''wisp'' demo_key (state (runtime (system_run env1 (start demo_loaded demo_host) [])))"
    using demo_loading(3) by simp
  have same: "left_behind demo_arguments (system_run env1 (start demo_loaded demo_host) []) ?m = ?m"
    by (simp add: left_behind_def demo_loaded_def RelayState_def demo_machine_def generate_server_keypair_def
        demo_arguments_def parser_def)
  obtain env ls s where "main demo_libraries demo_arguments demo_host (deployment demo_libraries demo_arguments demo_host ?m [[AcceptRelay 3]])
      = Inr (env, ls, s)"
    using deployment_starts [OF demo_machine_simps(1,2)] demo_loading(1,2) demo_machine_simps(3) by metis
  with recorded_key_survives_restarts [OF first pin] show ?thesis unfolding same by blast
qed

end
