(* ===== verification/Configuration.thy ===== *)
theory Configuration
  imports ClientConnect Deployment
begin

text \<open>
  The start of a Wisp runtime: \<open>load\<close> of \<open>appserve/client.py\<close>, which reads the configuration file
  and the files beside it, \<open>load_or_create_identity\<close> of \<open>e2e.py\<close>, and \<open>_bootstrap_payload\<close>. How
  the key that the relay's operator generates reaches the runtime through that file.
\<close>

section \<open>Files\<close>

text \<open>A path is its directory and its last component.\<close>

type_synonym path = "string \<times> string"

text \<open>What the PEM loader makes of a file: an RSA key, a key of another kind, an error.\<close>

datatype 'k key_file = RSAKey 'k | OtherKey | NoKey

text \<open>
  Configuration files by their bytes, identity files by the key they hold, with those that only the owner may read,
  and the peer stores and cached certificate digests by their documents.
\<close>

record 'k disk_files =
  configurations :: "(path, bytes) dict"
  identities :: "(path, 'k key_file) dict"
  owner_only :: "path list"
  documents :: "(path, json) dict"

definition load_or_create_identity :: "'k \<Rightarrow> path \<Rightarrow> ('k disk_files, 'k) act" where
  "load_or_create_identity fresh key_path =
     andthen (gets (\<lambda>m. dget (identities m) key_path)) (\<lambda>found.
     case found of
       Some (RSAKey key) \<Rightarrow> ret key
     | Some OtherKey \<Rightarrow> throw (ValueError ''WispGate identity key must be RSA'')
     | Some NoKey \<Rightarrow> throw (ValueError ''Could not deserialize key data'')
     | None \<Rightarrow>
         andthen (modify (\<lambda>m. m\<lparr>identities := dput key_path (RSAKey fresh) (identities m)\<rparr>)) (\<lambda>_.
         andthen (modify (\<lambda>m. m\<lparr>owner_only := key_path # owner_only m\<rparr>)) (\<lambda>_.
         ret fresh)))"

text \<open>\<open>Path.stem\<close>: the last component without its suffix; a leading or final dot does not start one.\<close>

definition path_stem :: "string \<Rightarrow> string" where
  "path_stem name =
     (let suffix = takeWhile (\<lambda>c. c \<noteq> CHR ''.'') (rev name);
          base = drop (Suc (length suffix)) (rev name)
      in if suffix = [] \<or> base = [] then name else rev base)"

text \<open>\<open>with_name\<close> refuses a name with a separator; the names built here are never empty or a dot.\<close>

definition with_name :: "path \<Rightarrow> string \<Rightarrow> path result" where
  "with_name p name = (if CHR ''/'' \<in> set name then Inl (ValueError ''Invalid name'') else Inr (fst p, name))"

definition side_file :: "path \<Rightarrow> json \<Rightarrow> string \<Rightarrow> path result" where
  "side_file config_path client_id kind =
     with_name config_path (''.'' @ path_stem (snd config_path) @ ''-'' @ py_str client_id @ ''-'' @ kind)"

section \<open>Loading\<close>

record server_info =
  info_host :: json
  info_control_port :: int
  info_relay_port :: int
  info_server_public_key :: bytes
  info_deployment_id :: json
  info_bulk_port :: int

record 'k loaded =
  loaded_info :: server_info
  loaded_id :: json
  loaded_key :: 'k
  loaded_anchor :: "json option"
  loaded_peers :: "json option"

text \<open>\<open>data[key]\<close> on what the file holds: only a dictionary takes a text as index.\<close>

definition config_item :: "json \<Rightarrow> string \<Rightarrow> json result" where
  "config_item data k = (case data of JObj d \<Rightarrow> jitem d k | _ \<Rightarrow> Inl TypeError)"

definition decode_key :: "json \<Rightarrow> bytes result" where
  "decode_key v = (case v of JStr s \<Rightarrow> b64_decode s | _ \<Rightarrow> Inl TypeError)"

definition server_info_of :: "json \<Rightarrow> jdict \<Rightarrow> server_info result" where
  "server_info_of key d =
     bindE (jitem d ''server'') (\<lambda>h.
     bindE (py_int (dget_or d ''control_port'' (dget_or d ''port'' (JInt 443)))) (\<lambda>control.
     bindE (py_int (dget_or d ''relay_port'' (JInt 4443))) (\<lambda>relay.
     bindE (decode_key key) (\<lambda>der.
     bindE (py_int (dget_or d ''bulk_port'' (JInt 4444))) (\<lambda>bulk.
     Inr \<lparr>info_host = h, info_control_port = control, info_relay_port = relay, info_server_public_key = der,
          info_deployment_id = dget_or d ''deployment_id'' (JStr ''private''), info_bulk_port = bulk\<rparr>)))))"

text \<open>
  \<open>load\<close>, down to the two documents the constructor of the client reads; \<open>load_anchor\<close> and
  \<open>AppserveClient\<close> take them from there.
\<close>

definition load_runtime :: "'k \<Rightarrow> path \<Rightarrow> bool \<Rightarrow> ('k disk_files, 'k loaded) act" where
  "load_runtime fresh config_path reset_peer_trust =
     andthen (gets (\<lambda>m. dget (configurations m) config_path)) (\<lambda>file.
     andthen (liftE (case file of None \<Rightarrow> Inl OSError | Some content \<Rightarrow> json_loads content)) (\<lambda>data.
     andthen (liftE (config_item data ''server_public_key'')) (\<lambda>key.
     andthen (liftE (as_dict data)) (\<lambda>d.
     let client_id = dget_or d ''client_id'' (JStr ''python-wisp'') in
     andthen (liftE (side_file config_path client_id ''identity.pem'')) (\<lambda>identity_path.
     andthen (liftE (side_file config_path client_id ''peers.json'')) (\<lambda>peers_path.
     andthen (whenA reset_peer_trust (modify (\<lambda>m. m\<lparr>documents := dpop peers_path (documents m)\<rparr>))) (\<lambda>_.
     andthen (liftE (server_info_of key d)) (\<lambda>info.
     andthen (load_or_create_identity fresh identity_path) (\<lambda>identity_key.
     andthen (liftE (side_file config_path client_id ''tls-anchor.json'')) (\<lambda>anchor_path.
     andthen (gets (\<lambda>m. (dget (documents m) anchor_path, dget (documents m) peers_path))) (\<lambda>(anchor, peers).
     ret \<lparr>loaded_info = info, loaded_id = client_id, loaded_key = identity_key,
          loaded_anchor = anchor, loaded_peers = peers\<rparr>)))))))))))"

section \<open>The join payload of the client\<close>

text \<open>\<open>_bootstrap_payload\<close>, which nothing calls: \<open>token\<close> is the random nonce.\<close>

definition bootstrap_payload ::
  "'k client_env \<Rightarrow> server_info \<Rightarrow> string \<Rightarrow> bytes \<Rightarrow> string \<Rightarrow> int \<Rightarrow> string result" where
  "bootstrap_payload env info kind seed token wall =
     (case load_der (lib_rsa env) (info_server_public_key info) of
        None \<Rightarrow> Inl (ValueError ''Could not deserialize key data'')
      | Some _ \<Rightarrow>
          let payload = utf8 (json_dumps (JObj [(''deployment_id'', info_deployment_id info),
                (''client_id'', JStr (own_id env)), (''client_kind'', JStr kind),
                (''client_public_key'', JStr (public_key_text (lib_rsa env) (own_key env))),
                (''nonce'', JStr token), (''timestamp'', JInt wall)]))
          in bindE (oaep_seal (lib_rsa env) MGF1_SHA1 (info_server_public_key info) seed payload) (\<lambda>encrypted.
             Inr (b64 encrypted)))"

section \<open>Loading again\<close>

lemma load_or_create_identity_cases:
  "load_or_create_identity fresh q m = (Inr k, t) \<Longrightarrow>
     dget (identities t) q = Some (RSAKey k) \<and> configurations t = configurations m \<and> documents t = documents m"
  by (auto simp: load_or_create_identity_def split: option.splits key_file.splits)

lemma load_existing_identity: "dget (identities m) q = Some (RSAKey k) \<Longrightarrow> load_or_create_identity fresh q m = (Inr k, m)"
  by (simp add: load_or_create_identity_def)

text \<open>The files of a runtime: from them \<open>load\<close> gets this runtime.\<close>

definition files_of :: "path \<Rightarrow> 'k loaded \<Rightarrow> 'k disk_files \<Rightarrow> bool" where
  "files_of p r t \<longleftrightarrow>
     (\<exists>content d key q1 q2 q3. dget (configurations t) p = Some content \<and> json_loads content = Inr (JObj d) \<and>
        jitem d ''server_public_key'' = Inr key \<and> loaded_id r = dget_or d ''client_id'' (JStr ''python-wisp'') \<and>
        side_file p (loaded_id r) ''identity.pem'' = Inr q1 \<and> side_file p (loaded_id r) ''peers.json'' = Inr q2 \<and>
        side_file p (loaded_id r) ''tls-anchor.json'' = Inr q3 \<and> server_info_of key d = Inr (loaded_info r) \<and>
        dget (identities t) q1 = Some (RSAKey (loaded_key r)) \<and>
        loaded_anchor r = dget (documents t) q3 \<and> loaded_peers r = dget (documents t) q2)"

lemma load_leaves_files:
  assumes "load_runtime fresh p reset_peer_trust m = (Inr r, t)"
  shows "files_of p r t"
proof -
  from assms obtain content d key q1 q2 q3 u where
    content: "dget (configurations m) p = Some content" "json_loads content = Inr (JObj d)"
      "jitem d ''server_public_key'' = Inr key"
    and sides: "side_file p (dget_or d ''client_id'' (JStr ''python-wisp'')) ''identity.pem'' = Inr q1"
      "side_file p (dget_or d ''client_id'' (JStr ''python-wisp'')) ''peers.json'' = Inr q2"
      "side_file p (dget_or d ''client_id'' (JStr ''python-wisp'')) ''tls-anchor.json'' = Inr q3"
    and info: "server_info_of key d = Inr (loaded_info r)"
    and u: "u = (if reset_peer_trust then m\<lparr>documents := dpop q2 (documents m)\<rparr> else m)"
    and identity: "load_or_create_identity fresh q1 u = (Inr (loaded_key r), t)"
    and r: "loaded_id r = dget_or d ''client_id'' (JStr ''python-wisp'')"
      "loaded_anchor r = dget (documents t) q3" "loaded_peers r = dget (documents t) q2"
    by (cases reset_peer_trust) (auto simp: load_runtime_def andthen_Inr config_item_def Let_def split: option.splits)
  have "configurations t = configurations m"
    using load_or_create_identity_cases [OF identity] u by simp
  with content sides info r load_or_create_identity_cases [OF identity] show ?thesis
    unfolding files_of_def by auto
qed

lemma load_finds_files: "files_of p r t \<Longrightarrow> load_runtime fresh p False t = (Inr r, t)"
  by (cases r) (auto simp: files_of_def load_runtime_def config_item_def load_existing_identity
      andthen_def [of "load_or_create_identity fresh q" for q])

text \<open>C24: a runtime that was loaded is loaded again as the same one: the second load finds the
  configuration, the identity, the cached certificate digest and the peer store the first one
  returned, whatever key it would create, and changes no file.\<close>

theorem load_is_stable:
  assumes "load_runtime fresh p reset_peer_trust m = (Inr r, t)"
  shows "load_runtime fresh' p False t = (Inr r, t)"
  by (intro load_finds_files load_leaves_files) (rule assms)

section \<open>Whose files are whose\<close>

lemma side_file_Inr:
  "side_file p c kind = Inr q \<longleftrightarrow> q = (fst p, ''.'' @ path_stem (snd p) @ ''-'' @ py_str c @ ''-'' @ kind)
     \<and> CHR ''/'' \<notin> set (''.'' @ path_stem (snd p) @ ''-'' @ py_str c @ ''-'' @ kind)"
  by (auto simp: side_file_def with_name_def)

lemma side_file_inject:
  assumes "side_file p c kind = Inr q" and "side_file p c' kind' = Inr q"
    and "kind \<in> {''identity.pem'', ''peers.json'', ''tls-anchor.json''}" and "kind' \<in> {''identity.pem'', ''peers.json'', ''tls-anchor.json''}"
  shows "py_str c = py_str c' \<and> kind = kind'"
proof -
  have eq: "py_str c @ ''-'' @ kind = py_str c' @ ''-'' @ kind'"
    using assms(1,2) by (auto simp: side_file_Inr)
  have "length kind \<ge> 6" "length kind' \<ge> 6" using assms(3,4) by auto
  with arg_cong [OF eq, of "\<lambda>s. take 6 (rev s)"] have tail: "take 6 (rev kind) = take 6 (rev kind')" by simp
  from assms(3,4) consider "kind = ''identity.pem''" | "kind = ''peers.json''" | "kind = ''tls-anchor.json''" by blast
  then have "kind = kind'" using tail assms(4) by cases auto
  with eq show ?thesis by simp
qed

text \<open>What a load may do: forget the peers of its own runtime, and create an identity that is not there.\<close>

lemma load_runtime_effect:
  assumes "load_runtime fresh p reset_peer_trust m = (res, t)"
    and "dget (configurations m) p = Some content" and "json_loads content = Inr (JObj d)"
    and "c = dget_or d ''client_id'' (JStr ''python-wisp'')"
  shows "configurations t = configurations m
    \<and> (documents t = documents m \<or> (\<exists>q. side_file p c ''peers.json'' = Inr q \<and> documents t = dpop q (documents m)))
    \<and> (identities t = identities m \<or> (\<exists>q. side_file p c ''identity.pem'' = Inr q \<and> dget (identities m) q = None
          \<and> identities t = dput q (RSAKey fresh) (identities m)))"
  using assms
  by (auto simp: load_runtime_def config_item_def load_or_create_identity_def andthen_def whenA_def Let_def jitem_def
      split: sum.splits option.splits key_file.splits prod.splits if_splits)

text \<open>C25: a load never overwrites an identity key, and it leaves every file of the runtimes with other
  client ids of the same configuration as it is, whether it succeeds or raises, also when it
  resets the trust in peers.\<close>

theorem load_keeps_other_runtimes:
  assumes "load_runtime fresh p reset_peer_trust m = (res, t)"
    and "dget (configurations m) p = Some content" and "json_loads content = Inr (JObj d)"
    and "py_str c \<noteq> py_str (dget_or d ''client_id'' (JStr ''python-wisp''))"
    and "side_file p c kind = Inr q" and "kind \<in> {''identity.pem'', ''peers.json'', ''tls-anchor.json''}"
  shows "dget (identities t) q = dget (identities m) q \<and> dget (documents t) q = dget (documents m) q
    \<and> (dget (identities m) q' = Some k \<longrightarrow> dget (identities t) q' = Some k)"
proof -
  have other: "q \<noteq> q2" if "side_file p (dget_or d ''client_id'' (JStr ''python-wisp'')) kind2 = Inr q2"
      "kind2 \<in> {''identity.pem'', ''peers.json''}" for q2 kind2
    using side_file_inject [OF assms(5) _ assms(6), of "dget_or d ''client_id'' (JStr ''python-wisp'')" kind2] that assms(4) by auto
  from load_runtime_effect [OF assms(1-3) refl] show ?thesis
    using other [of "''peers.json''"] other [of "''identity.pem''"] by auto
qed

text \<open>
  The two parts of a file's name are not kept apart: two configurations in one directory can
  share the files of their runtimes.
\<close>

lemma configurations_share_files:
  "side_file (dir, ''home-lab.json'') (JStr ''wisp'') kind = side_file (dir, ''home.json'') (JStr ''lab-wisp'') kind"
  by (simp add: side_file_def with_name_def path_stem_def)

section \<open>From the operator's key to the runtime\<close>

lemma b64_decode_b64: "b64_decode (b64 bs) = Inr bs"
  using unb64_b64 [of bs] by (simp add: unb64_def)

lemma load_runtime_key:
  assumes "load_runtime fresh p reset_peer_trust m = (Inr r, t)"
    and "dget (configurations m) p = Some content" and "json_loads content = Inr (JObj d)"
    and "dget d ''server_public_key'' = Some (JStr (b64 der))"
  shows "info_server_public_key (loaded_info r) = der"
  using assms
  by (auto simp: load_runtime_def config_item_def andthen_Inr Let_def jitem_def whenA_def server_info_of_def decode_key_def
      b64_decode_b64 bindE_eq_Inr split: option.splits if_splits)

lemma main_environment:
  assumes "main lib args h m = Inr (env, ls, s)"
  shows "dget (key_files m) (private_key_path args) = Some (server_private_key (config env))
    \<and> rsa_lib env = rsa_of lib \<and> aes_lib env = aes_of lib"
  using assms
  by (auto simp: main_def serve_def Let_def bindE_eq_Inr RelayConfig_def split: option.splits prod.splits)

text \<open>C22: the key the operator generates is the key the runtime encrypts to: when the text that
  \<open>generate_server_keypair\<close> returns stands in a configuration file, a runtime loaded from the file
  can always build its bootstrap request, and the relay started with the key file reads exactly the runtime's
  id, kind, key and nonce from it.\<close>

theorem provisioning_reaches_the_relay:
  assumes "generate_server_keypair lib (private_key_path args) relay_key machine = (text, machine')"
    and "main lib args h machine' = Inr (env, ls, s)"
    and "dget (configurations m) p = Some content" and "json_loads content = Inr (JObj d)"
    and "dget d ''server_public_key'' = Some (JStr text)" and "load_runtime fresh p reset_peer_trust m = (Inr r, t)"
    and "rsa_correct (rsa_of lib) relay_key" and "rsa_correct (rsa_of lib) (loaded_key r)" and "aead_correct (aes_of lib)"
    and "length k = 32" and "length n = 12" and "16 \<le> length nonce"
  shows "\<exists>request.
    build_bootstrap_request (rsa_of lib) (aes_of lib) k n seed (info_server_public_key (loaded_info r)) client_id
      (public_der (rsa_of lib) (loaded_key r)) nonce kind = Inr request \<and>
    decrypt_bootstrap_request (rsa_lib env) (aes_lib env) (server_private_key (config env)) request
      = Inr \<lparr>request_client_id = client_id, request_client_kind = kind,
             request_client_key = public_der (rsa_of lib) (loaded_key r), request_nonce = nonce\<rparr>"
proof -
  have written: "text = b64 (public_der (rsa_of lib) relay_key)" and key: "dget (key_files machine') (private_key_path args) = Some relay_key"
    using assms(1) by (auto simp: generate_server_keypair_def)
  have info: "info_server_public_key (loaded_info r) = public_der (rsa_of lib) relay_key"
    using load_runtime_key [OF assms(6,3,4)] assms(5) written by simp
  obtain request where request: "build_bootstrap_request (rsa_of lib) (aes_of lib) k n seed (public_der (rsa_of lib) relay_key)
      client_id (public_der (rsa_of lib) (loaded_key r)) nonce kind = Inr request"
    using request_total [OF assms(7,10)] by blast
  have "decrypt_bootstrap_request (rsa_of lib) (aes_of lib) relay_key request
      = Inr \<lparr>request_client_id = client_id, request_client_kind = kind,
             request_client_key = public_der (rsa_of lib) (loaded_key r), request_nonce = nonce\<rparr>"
    using rsa_correctD(1,4) [OF assms(8)] by (intro request_roundtrip [OF assms(7,9-11) _ _ assms(12) request]) auto
  with request info main_environment [OF assms(2)] key show ?thesis by auto
qed

section \<open>Witnesses\<close>

definition demo_configuration :: jdict where
  "demo_configuration = [(''server_public_key'', JStr (b64 (public_der demo_rsa [7]))), (''server'', JStr ''relay'')]"

definition demo_disk :: "bytes disk_files" where
  "demo_disk = \<lparr>configurations = [((''/etc'', ''wisp.json''), utf8 (json_dumps (JObj demo_configuration)))],
     identities = [((''/etc'', ''.wisp-other-identity.pem''), RSAKey [8])], owner_only = [],
     documents = [((''/etc'', ''.wisp-other-peers.json''), JObj []), ((''/etc'', ''.wisp-python-wisp-peers.json''), JObj [])]\<rparr>"

lemma demo_configuration_read:
  "dget (configurations demo_disk) (''/etc'', ''wisp.json'') = Some (utf8 (json_dumps (JObj demo_configuration)))"
  "json_loads (utf8 (json_dumps (JObj demo_configuration))) = Inr (JObj demo_configuration)"
  "dget demo_configuration ''server_public_key'' = Some (JStr (b64 (public_der demo_rsa [7])))"
  "dget_or demo_configuration ''client_id'' (JStr ''python-wisp'') = JStr ''python-wisp''"
  by (simp add: demo_disk_def)
     (rule json_loads_dumps, simp_all add: demo_configuration_def wf_dict_def dget_or_def)

definition demo_runtime :: "bytes loaded" where
  "demo_runtime = \<lparr>loaded_info = \<lparr>info_host = JStr ''relay'', info_control_port = 443, info_relay_port = 4443,
     info_server_public_key = [7], info_deployment_id = JStr ''private'', info_bulk_port = 4444\<rparr>,
     loaded_id = JStr ''python-wisp'', loaded_key = [9], loaded_anchor = None, loaded_peers = None\<rparr>"

lemma demo_load: "\<exists>t. load_runtime [9] (''/etc'', ''wisp.json'') True demo_disk = (Inr demo_runtime, t)"
  using demo_configuration_read
  by (simp add: load_runtime_def config_item_def jitem_def Let_def side_file_def with_name_def path_stem_def demo_disk_def
      del: utf8_simps json_dumps.simps)
     (simp add: server_info_of_def demo_configuration_def decode_key_def b64_decode_b64 dget_or_def demo_rsa_def
       load_or_create_identity_def andthen_def demo_runtime_def)

lemma load_is_stable_witness:
  "\<exists>t. load_runtime [9] (''/etc'', ''wisp.json'') True demo_disk = (Inr demo_runtime, t)
     \<and> load_runtime [1] (''/etc'', ''wisp.json'') False t = (Inr demo_runtime, t)"
proof -
  obtain t where run: "load_runtime [9] (''/etc'', ''wisp.json'') True demo_disk = (Inr demo_runtime, t)" using demo_load by blast
  with load_is_stable [OF run, of "[1]"] show ?thesis by blast
qed

lemma load_keeps_other_runtimes_witness:
  "dget (identities (snd (load_runtime [9] (''/etc'', ''wisp.json'') True demo_disk))) (''/etc'', ''.wisp-other-identity.pem'')
     = Some (RSAKey [8])"
proof -
  let ?run = "load_runtime [9] (''/etc'', ''wisp.json'') True demo_disk"
  have "side_file (''/etc'', ''wisp.json'') (JStr ''other'') ''identity.pem'' = Inr (''/etc'', ''.wisp-other-identity.pem'')"
    by (simp add: side_file_def with_name_def path_stem_def)
  from load_keeps_other_runtimes [OF surjective_pairing [of ?run] demo_configuration_read(1,2) _ this]
  show ?thesis by (simp add: demo_configuration_read(4)) (simp add: demo_disk_def)
qed

lemma provisioning_reaches_the_relay_witness:
  "\<exists>request. decrypt_bootstrap_request demo_rsa demo_aead [7] request
     = Inr \<lparr>request_client_id = ''python-wisp'', request_client_kind = ''python-wisp'',
            request_client_key = public_der demo_rsa [9], request_nonce = replicate 16 5\<rparr>"
proof -
  let ?m = "\<lparr>key_files = [], tls_chain = (\<lambda>c k. Inr [1, 2, 3]), state_files = [], git_head = Inl OSError\<rparr>"
  obtain key_text m' where gen: "generate_server_keypair demo_libraries (private_key_path demo_arguments) [7] ?m = (key_text, m')" by force
  then have written: "key_text = b64 (public_der demo_rsa [7])" and key: "dget (key_files m') (private_key_path demo_arguments) = Some [7]"
    and "tls_chain m' (tls_cert demo_arguments) (tls_key demo_arguments) = Inr [1, 2, 3]"
    and "dget (state_files m') (state_path demo_arguments) = None"
    by (auto simp: generate_server_keypair_def demo_libraries_def)
  with main_starts [of m' demo_arguments "[7]" "[1, 2, 3]" _ demo_libraries demo_host] fresh_loadable
  obtain env ls s where main: "main demo_libraries demo_arguments demo_host m' = Inr (env, ls, s)" by metis
  obtain t where load: "load_runtime [9] (''/etc'', ''wisp.json'') True demo_disk = (Inr demo_runtime, t)" using demo_load by blast
  have lib: "rsa_lib env = demo_rsa" "aes_lib env = demo_aead" "server_private_key (config env) = [7]"
    using main_environment [OF main] key by (simp_all add: demo_libraries_def)
  from provisioning_reaches_the_relay [OF gen main demo_configuration_read(1,2) _ load, of "replicate 32 1" "replicate 12 2"
      "replicate 16 5" "[]" "''python-wisp''" "''python-wisp''"]
  show ?thesis
    by (auto simp: written lib demo_configuration_read(3) demo_libraries_def demo_rsa_correct demo_correct demo_runtime_def)
qed

end
