(* ===== verification/Examples.thy ===== *)
theory Examples
  imports ClientFiles
begin

text \<open>
  \<open>examples/prime_wisp.py\<close>, the example whose answer is a computation: the trial division, the
  page, and the two callbacks over the Wisp's one field \<open>current\<close>. Its action takes the plain
  dictionary of the older callback signature.
\<close>

section \<open>Trial division\<close>

lemma le_square: "(d :: int) \<le> d * d"
  by (cases "d \<le> 0") (auto intro: order_trans [of _ 0] simp: mult_le_cancel_left1)

text \<open>The \<open>while\<close> loop over the odd divisors, and the tests before it.\<close>

function trial :: "int \<Rightarrow> int \<Rightarrow> bool" where
  "trial n d = (if d * d \<le> n then if n mod d = 0 then False else trial n (d + 2) else True)"
  by pat_completeness auto
termination
proof (relation "measure (\<lambda>(n, d). nat (n + 2 - d))")
  fix n d :: int
  assume "d * d \<le> n"
  with le_square [of d] show "((n, d + 2), n, d) \<in> measure (\<lambda>(n, d). nat (n + 2 - d))" by simp
qed simp

declare trial.simps [simp del]

definition is_prime :: "int \<Rightarrow> bool" where
  "is_prime n = (if n < 2 then False else if n mod 2 = 0 then n = 2 else trial n 3)"

section \<open>The Wisp\<close>

definition prime_render :: "string \<Rightarrow> jdict" where
  "prime_render result =
     [(''content_type'', JStr ''text/html''),
      (''html'', JStr (intercalate [CHR 0x0A] [
        ''<main style='min-height:100vh;display:flex;align-items:center;justify-content:center'>'',
        ''              <form id='prime-form' onsubmit='event.preventDefault(); window.WispGate.submit(JSON.stringify({type:\"submit\", number:this.number.value}))' style='display:flex;flex-direction:column;gap:12px;align-items:center'>'',
        ''                <input name='number' type='number' placeholder='Enter a number' autofocus />'',
        ''                <button type='submit'>Is it prime?</button>'',
        ''                <output>'' @ html_escape result @ ''</output>'',
        ''              </form>'',
        ''            </main>'']))]"

text \<open>\<open>int(raw)\<close>; text of more than 4300 digits is refused.\<close>

definition int_of :: "json \<Rightarrow> int result" where
  "int_of raw =
     (case raw of
        JStr s \<Rightarrow> if length (filter is_digit s) > 4300 then Inl (ValueError ''Exceeds the limit'') else py_int_str s
      | _ \<Rightarrow> py_int raw)"

definition prime_answer :: "int \<Rightarrow> string" where
  "prime_answer n = int_str n @ '' is '' @ (if is_prime n then ''prime'' else ''not prime'') @ ''.''"

definition prime_action :: "jdict action_callback" where
  "prime_action values files sender current =
     (let kind = (case kget values (JStr ''type'') of Some v \<Rightarrow> v | None \<Rightarrow> JNull);
          raw = (case kget values (JStr ''number'') of Some v \<Rightarrow> v | None \<Rightarrow> JStr [])
      in if \<not> eq_str kind ''submit'' then (Inr (Plain current), current)
         else case int_of raw of
           Inr n \<Rightarrow> let page = prime_render (prime_answer n) in (Inr (Plain page), page)
         | Inl e \<Rightarrow>
             if is_value_error e
             then let page = prime_render ''Please enter a whole number.'' in (Inr (Plain page), page)
             else (Inl e, current))"

definition prime_state :: "jdict state_callback" where
  "prime_state sender current = (Inr (Plain current), current)"

definition prime_wisp :: "jdict wisp" where
  "prime_wisp = \<lparr>wisp_id = ''prime'', wisp_name = ''Prime tester'', wisp_description = ''Tests whether a number is prime'',
     wisp_state = prime_state, wisp_action = prime_action\<rparr>"

section \<open>Correctness\<close>

lemma trial_iff:
  assumes "odd n" and "odd d" and "3 \<le> d" and "\<And>k. 1 < k \<Longrightarrow> k < d \<Longrightarrow> \<not> k dvd n" and "1 < n"
  shows "trial n d = (\<nexists>k. 1 < k \<and> k < n \<and> k dvd n)"
  using assms
proof (induction n d rule: trial.induct)
  case (1 n d)
  show ?case
  proof (cases "d * d \<le> n")
    case False
    have "\<not> k dvd n" if k: "1 < k" "k < n" for k
    proof
      assume "k dvd n"
      then obtain m where m: "n = k * m" by (elim dvdE)
      have "1 < m"
      proof (rule ccontr)
        assume "\<not> 1 < m"
        then have "k * m \<le> k * 1" using k by (intro mult_left_mono) auto
        with k m show False by simp
      qed
      have "d \<le> k" "d \<le> m"
        using "1.prems"(4) [of k] "1.prems"(4) [of m] \<open>1 < m\<close> k(1) by (simp_all add: m) (meson not_less)+
      then have "d * d \<le> k * m" using "1.prems"(3) by (intro mult_mono) auto
      with False m show False by simp
    qed
    with False show ?thesis by (auto simp: trial.simps [of n d])
  next
    case True
    show ?thesis
    proof (cases "n mod d = 0")
      case divides: True
      have "d < d * d" using "1.prems"(3) mult_strict_left_mono [of 1 d d] by simp
      with True have "1 < d \<and> d < n \<and> d dvd n" using divides "1.prems"(3) by auto
      with True divides show ?thesis by (auto simp: trial.simps [of n d])
    next
      case no: False
      have "\<not> k dvd n" if k: "1 < k" "k < d + 2" for k
      proof -
        consider "k < d" | "k = d" | "k = d + 1" using k by linarith
        then show ?thesis
        proof cases
          case 3
          then have "even k" using "1.prems"(2) by simp
          with "1.prems"(1) show ?thesis by (meson dvd_trans)
        qed (use k no "1.prems"(4) in auto)
      qed
      with "1.IH" [OF True no] "1.prems" have "trial n (d + 2) = (\<nexists>k. 1 < k \<and> k < n \<and> k dvd n)" by simp
      with True no show ?thesis by (simp add: trial.simps [of n d])
    qed
  qed
qed

text \<open>C15: the trial division of the prime tester ends on every integer and is right: it answers
  \<open>True\<close> exactly for the integers above 1 without a proper divisor, the negative ones, 0, 1, 2 and the
  even ones included.\<close>

theorem is_prime_correct: "is_prime n = (1 < n \<and> (\<nexists>d. 1 < d \<and> d < n \<and> d dvd n))"
proof (cases "n < 2 \<or> even n")
  case True
  then consider "n < 2" | "n = 2" | "even n" "2 < n" by linarith
  then show ?thesis
  proof cases
    case 3
    then have "1 < (2 :: int) \<and> 2 < n \<and> 2 dvd n" by simp
    with 3 show ?thesis unfolding is_prime_def by (metis less_asym' dvd_eq_mod_eq_0)
  qed (auto simp: is_prime_def zdvd_not_zless dest: zdvd_imp_le)
next
  case False
  have "\<not> k dvd n" if "1 < k" "k < 3" for k
  proof -
    have "k = 2" using that by simp
    with False show ?thesis by simp
  qed
  with trial_iff [of n 3] False show ?thesis
    by (auto simp: is_prime_def odd_iff_mod_2_eq_one)
qed

end
