(* ===== verification/QrWisp.thy ===== *)
theory QrWisp
  imports ClientAnswers
begin

text \<open>
  \<open>examples/qr_wisp.py\<close>: the form, the two callbacks over the Wisp's one field \<open>current\<close>, and what
  becomes of its answers in the runtime. \<open>qrcode\<close> is a parameter: the PNG file it writes for a link, or
  its exception.
\<close>

section \<open>Links\<close>

text \<open>
  \<open>urlparse\<close>, as far as \<open>scheme\<close> and \<open>netloc\<close>: control characters and blanks in front and tabs and line
  ends anywhere are dropped, the scheme is what a colon ends if its characters are those of
  schemes, and the network location is what follows two slashes. A bracketed address
  is checked by rules that differ between the versions of the library: \<open>bracketed\<close>.
\<close>

definition ascii_letter :: "char \<Rightarrow> bool" where
  "ascii_letter c \<longleftrightarrow> (65 \<le> code c \<and> code c \<le> 90) \<or> (97 \<le> code c \<and> code c \<le> 122)"

definition scheme_char :: "char \<Rightarrow> bool" where
  "scheme_char c \<longleftrightarrow> ascii_letter c \<or> is_digit c \<or> c \<in> set ''+-.''"

definition ascii_lower :: "char \<Rightarrow> char" where
  "ascii_lower c = (if 65 \<le> code c \<and> code c \<le> 90 then char_of (code c + 32) else c)"

definition split_scheme :: "string \<Rightarrow> string \<times> string" where
  "split_scheme u =
     (let s = takeWhile (\<lambda>c. c \<noteq> CHR '':'') u
      in if length s < length u \<and> s \<noteq> [] \<and> ascii_letter (hd s) \<and> list_all scheme_char s
         then (map ascii_lower s, drop (Suc (length s)) u) else ([], u))"

definition urlparse :: "(string \<Rightarrow> bool) \<Rightarrow> string \<Rightarrow> (string \<times> string) result" where
  "urlparse bracketed url =
     (let u = filter (\<lambda>c. code c \<notin> {9, 10, 13}) (dropWhile (\<lambda>c. code c \<le> 32) url);
          (scheme, rest) = split_scheme u
      in if take 2 rest \<noteq> ''//'' then Inr (scheme, [])
         else let netloc = takeWhile (\<lambda>c. c \<notin> set ''/?#'') (drop 2 rest)
         in if (CHR ''['' \<in> set netloc) \<noteq> (CHR '']'' \<in> set netloc) then Inl (ValueError ''Invalid IPv6 URL'')
            else if CHR ''['' \<in> set netloc \<and> \<not> bracketed netloc then Inl (ValueError ''Invalid IPv6 URL'')
            else Inr (scheme, netloc))"

section \<open>Pages\<close>

definition qr_form_before :: string where
  "qr_form_before = intercalate [CHR 0x0A] [
     ''<main style=\"min-height:100vh;display:flex;align-items:center;justify-content:center\">'',
     ''              <form onsubmit='event.preventDefault(); WispGate.submit({type:\"make_qr\", link:this.link.value})' style=\"display:flex;flex-direction:column;gap:12px;width:min(90vw,32rem)\">'',
     ''                <label for=\"link\">Link</label>'',
     ''                <input id=\"link\" name=\"link\" type=\"url\" inputmode=\"url\" maxlength=\"2048\" placeholder=\"https://example.com\" required autofocus>'',
     ''                <button type=\"submit\">Make QR code</button>'',
     ''                '']"

definition qr_form_after :: string where
  "qr_form_after = intercalate [CHR 0x0A] [[], ''              </form>'', ''            </main>'']"

definition qr_form :: "string \<Rightarrow> response" where
  "qr_form message =
     (let notice = (if message \<noteq> [] then ''<p role='alert'>'' @ html_escape message @ ''</p>'' else [])
      in Plain [(''content_type'', JStr ''text/html''), (''html'', JStr (qr_form_before @ notice @ qr_form_after))])"

definition qr_result_page :: string where
  "qr_result_page = intercalate [CHR 0x0A] [
     ''<main style=\"min-height:100vh;display:flex;flex-direction:column;align-items:center;justify-content:center;gap:18px\">'',
     ''              <img src=\"https://wisp.local/_wispgate/assets/qr-code\" alt=\"Generated QR code\" style=\"width:min(82vw,32rem);height:auto;image-rendering:pixelated\">'',
     ''              <button type=\"button\" onclick='WispGate.submit({type:\"make_another\"})'>Make another QR code</button>'',
     ''            </main>'']"

text \<open>\<open>WispAsset.from_bytes\<close>: the size is the length of the data.\<close>

definition from_bytes :: "string \<Rightarrow> string \<Rightarrow> string \<Rightarrow> bytes \<Rightarrow> asset" where
  "from_bytes i name content_type content =
     \<lparr>asset_id = i, asset_name = name, asset_type = content_type, asset_size = JInt (int (length content)), asset_content = content\<rparr>"

definition qr_result :: "bytes \<Rightarrow> response" where
  "qr_result png = WispResponse qr_result_page [from_bytes ''qr-code'' ''qr.png'' ''image/png'' png] ''text/html''"

section \<open>The Wisp\<close>

definition link_text :: "json table \<Rightarrow> string" where
  "link_text values =
     (let strip = dropWhile (\<lambda>c. code c \<in> {9, 10, 11, 12, 13, 28, 29, 30, 31, 32, 133, 160});
          s = py_str (case kget values (JStr ''link'') of Some v \<Rightarrow> v | None \<Rightarrow> JStr [])
      in rev (strip (rev (strip s))))"

definition make_qr :: "(string \<Rightarrow> bool) \<Rightarrow> (string \<Rightarrow> bytes result) \<Rightarrow> string \<Rightarrow> response result" where
  "make_qr bracketed make_png link =
     bindE (urlparse bracketed link) (\<lambda>(scheme, netloc).
     if length link > 2048 then Inr (qr_form ''Link must be 2,048 characters or fewer.'')
     else if scheme \<notin> {''http'', ''https''} \<or> netloc = [] then Inr (qr_form ''Enter a complete http:// or https:// link.'')
     else case make_png link of
       Inr png \<Rightarrow> Inr (qr_result png)
     | Inl e \<Rightarrow> if is_value_error e then Inr (qr_form ''This link contains too much data for a QR code.'') else Inl e)"

definition qr_action :: "(string \<Rightarrow> bool) \<Rightarrow> (string \<Rightarrow> bytes result) \<Rightarrow> response action_callback" where
  "qr_action bracketed make_png values files sender current =
     (let kind = (case kget values (JStr ''type'') of Some v \<Rightarrow> v | None \<Rightarrow> JNull)
      in if eq_str kind ''make_another'' then (Inr (qr_form []), qr_form [])
         else if eq_str kind ''make_qr'' then
           (case make_qr bracketed make_png (link_text values) of
              Inl e \<Rightarrow> (Inl e, current)
            | Inr page \<Rightarrow> (Inr page, page))
         else (Inr current, current))"

definition qr_state :: "response state_callback" where
  "qr_state sender current = (Inr current, current)"

definition qr_wisp :: "(string \<Rightarrow> bool) \<Rightarrow> (string \<Rightarrow> bytes result) \<Rightarrow> response wisp" where
  "qr_wisp bracketed make_png = \<lparr>wisp_id = ''qr-code'', wisp_name = ''QR code maker'',
     wisp_description = ''Turns a link into a static QR-code image'', wisp_state = qr_state,
     wisp_action = qr_action bracketed make_png\<rparr>"

text \<open>The field after a run of actions.\<close>

definition qr_run :: "(string \<Rightarrow> bool) \<Rightarrow> (string \<Rightarrow> bytes result) \<Rightarrow> (json \<times> json table) list \<Rightarrow> response" where
  "qr_run bracketed make_png actions =
     fold (\<lambda>(sender, values) current. snd (qr_action bracketed make_png values [] sender current)) actions (qr_form [])"

section \<open>What the Wisp shows\<close>

definition web_link :: "(string \<Rightarrow> bool) \<Rightarrow> string \<Rightarrow> bool" where
  "web_link bracketed link \<longleftrightarrow> length link \<le> 2048 \<and>
     (case urlparse bracketed link of Inr (scheme, netloc) \<Rightarrow> scheme \<in> {''http'', ''https''} \<and> netloc \<noteq> [] | Inl e \<Rightarrow> False)"

definition qr_page :: "(string \<Rightarrow> bool) \<Rightarrow> (string \<Rightarrow> bytes result) \<Rightarrow> response \<Rightarrow> bool" where
  "qr_page bracketed make_png r \<longleftrightarrow>
     r \<in> qr_form ` {[], ''Link must be 2,048 characters or fewer.'', ''Enter a complete http:// or https:// link.'',
        ''This link contains too much data for a QR code.''} \<or>
     (\<exists>link png. web_link bracketed link \<and> make_png link = Inr png \<and> r = qr_result png)"

lemma qr_page_code: "web_link bracketed link \<Longrightarrow> make_png link = Inr png \<Longrightarrow> qr_page bracketed make_png (qr_result png)"
  unfolding qr_page_def by blast

lemma make_qr_page:
  assumes "make_qr bracketed make_png link = Inr r"
  shows "qr_page bracketed make_png r"
proof (cases "web_link bracketed link \<and> (\<exists>png. make_png link = Inr png)")
  case True
  then obtain png where png: "make_png link = Inr png" and link: "web_link bracketed link" by blast
  then have "r = qr_result png"
    using assms by (auto simp: make_qr_def web_link_def bindE_eq_Inr split: sum.splits prod.splits)
  with qr_page_code [of bracketed link make_png png] link png show ?thesis by simp
next
  case False
  then show ?thesis
    using assms by (auto simp: make_qr_def web_link_def bindE_eq_Inr qr_page_def split: sum.splits prod.splits if_splits)
qed

lemma qr_action_page:
  "qr_page bracketed make_png current \<Longrightarrow> qr_page bracketed make_png (snd (qr_action bracketed make_png values files sender current))"
  by (auto simp: qr_action_def Let_def qr_page_def [of _ _ "qr_form []"] dest: make_qr_page split: sum.split)

text \<open>Whatever actions any users send, the Wisp shows one of its four forms, in which nothing of a
  link appears, or the code of a link that is a complete \<open>http\<close> or \<open>https\<close> link of at
  most 2048 characters: no code is ever made of another scheme, such as \<open>javascript\<close>.\<close>

theorem qr_codes_only_of_web_links: "qr_page bracketed make_png (qr_run bracketed make_png actions)"
proof -
  have "qr_page bracketed make_png current \<Longrightarrow>
      qr_page bracketed make_png (fold (\<lambda>(sender, values) c. snd (qr_action bracketed make_png values [] sender c)) actions current)" for current
    by (induction actions arbitrary: current) (auto simp: qr_action_page)
  then show ?thesis unfolding qr_run_def by (simp add: qr_page_def)
qed

section \<open>What the user sees of it\<close>

text \<open>C26: a code never reaches the user: the action that makes one succeeds and keeps it, but its
  answer is neither sent nor retained, and while the code is shown every request for the Wisp's
  state raises too.\<close>

theorem qr_code_never_arrives:
  assumes "kget values (JStr ''type'') = Some (JStr ''make_qr'')"
    and "web_link bracketed (link_text values)" and "make_png (link_text values) = Inr png"
  shows "\<exists>page. qr_action bracketed make_png values files sender current = (Inr page, page) \<and>
    (\<exists>e v. finish_dispatch env rnd (LoopAction p (qr_wisp bracketed make_png) i (Inr page)) s = (Inl e, v) \<and>
       sent v = sent s \<and> completed_operations v = completed_operations s) \<and>
    (\<exists>e. finish_dispatch env rnd (LoopState p (qr_wisp bracketed make_png) (fst (qr_state sender' page))) s = (Inl e, s))"
proof (intro exI [of _ "qr_result png"] conjI)
  let ?page = "qr_result png" and ?v = "s\<lparr>active_operations := removeAll (ident p, i) (active_operations s)\<rparr>"
  let ?w = "qr_wisp bracketed make_png"
  show "qr_action bracketed make_png values files sender current = (Inr ?page, ?page)"
    using assms by (auto simp: qr_action_def make_qr_def web_link_def split: sum.splits prod.splits)
  have assets: "assets_of ?page \<noteq> []" by (simp add: qr_result_def)
  obtain e where "send_wisp_response env rnd p ?w ?page ?v = (Inl e, ?v)"
    using asset_response_raises [OF assets] by metis
  then have "finish_dispatch env rnd (LoopAction p ?w i (Inr ?page)) s = (Inl e, ?v)"
    using assets by (simp add: Let_def retained_response_body_def andthen_def [of "send_wisp_response env rnd p ?w ?page"])
  then show "\<exists>e v. finish_dispatch env rnd (LoopAction p ?w i (Inr ?page)) s = (Inl e, v) \<and>
       sent v = sent s \<and> completed_operations v = completed_operations s"
    by (intro exI [of _ e] exI [of _ ?v]) simp
  obtain e' where "send_wisp_response env rnd p ?w ?page s = (Inl e', s)"
    using asset_response_raises [OF assets] by metis
  then show "\<exists>e. finish_dispatch env rnd (LoopState p ?w (fst (qr_state sender' ?page))) s = (Inl e, s)"
    by (simp add: qr_state_def andthen_def)
qed

definition demo_link :: "json table" where
  "demo_link = [(JStr ''type'', JStr ''make_qr''), (JStr ''link'', JStr '' https://example.com/a '')]"

lemma qr_code_never_arrives_witness:
  "\<exists>page e. qr_action (\<lambda>h. False) (\<lambda>link. Inr [137, 80]) demo_link [] (JStr ''android'') (qr_form []) = (Inr page, page) \<and>
     finish_dispatch demo_client_env \<lparr>draw_transfer = ''t'', draw_nonces = []\<rparr>
       (LoopState (JStr ''android'') (qr_wisp (\<lambda>h. False) (\<lambda>link. Inr [137, 80])) (fst (qr_state (JStr ''android'') page)))
       (AppserveClient (qr_form []) None [] 0) = (Inl e, AppserveClient (qr_form []) None [] 0)"
proof -
  have link: "link_text demo_link = ''https://example.com/a''"
    by (simp add: link_text_def demo_link_def code_def)
  have web: "web_link (\<lambda>h. False) (link_text demo_link)"
    unfolding link by (simp add: web_link_def urlparse_def split_scheme_def scheme_char_def ascii_letter_def is_digit_def
      ascii_lower_def code_def)
  have kind: "kget demo_link (JStr ''type'') = Some (JStr ''make_qr'')" by (simp add: demo_link_def)
  from qr_code_never_arrives [OF kind web, of "\<lambda>link. Inr [137, 80]"] show ?thesis by blast
qed

end
