(* ===== verification/Transcription.thy ===== *)
theory Transcription
  imports ClientFiles "HOL-Library.Multiset"
begin

text \<open>
  \<open>examples/transcription_wisp.py\<close>: the results of the two speech engines brought together, the
  pages, and the Wisp's two callbacks around its lock. The engines' libraries are parameters: what
  their calls return.
\<close>

section \<open>Floating-point numbers\<close>

text \<open>
  The times are floats. A finite double is represented by its value, a rational; an operation
  rounds the exact result to the nearest double, ties to even. Infinities and \<open>nan\<close> have no
  representation.
\<close>

fun bits :: "nat \<Rightarrow> nat" where
  "bits n = (if n = 0 then 0 else Suc (bits (n div 2)))"

declare bits.simps [simp del]

definition exponent :: "rat \<Rightarrow> int" where
  "exponent x =
     (let (p, q) = quotient_of x; d = int (bits (nat p)) - int (bits (nat q))
      in if 2 powi d \<le> x then d else d - 1)"

definition round_even :: "rat \<Rightarrow> int" where
  "round_even y =
     (let f = \<lfloor>y\<rfloor>; r = y - of_int f
      in if r < 1 / 2 then f else if 1 / 2 < r then f + 1 else if even f then f else f + 1)"

definition double :: "rat \<Rightarrow> rat" where
  "double x =
     (if x = 0 then 0
      else let ulp = 2 powi max (- 1074) (exponent \<bar>x\<bar> - 52) in of_int (round_even (x / ulp)) * ulp)"

section \<open>What the engines deliver\<close>

record transcript_span =
  span_start :: rat
  span_end :: rat
  span_text :: string

record speaker_span =
  speaker_start :: rat
  speaker_end :: rat
  speaker_name :: string

record human_turn =
  turn_sequence :: nat
  turn_speaker :: "string option"
  turn_start :: rat
  turn_end :: rat
  turn_text :: string

definition py_strip :: "string \<Rightarrow> string" where
  "py_strip s =
     (let strip = dropWhile (\<lambda>c. code c \<in> {9, 10, 11, 12, 13, 28, 29, 30, 31, 32, 133, 160})
      in rev (strip (rev (strip s))))"

text \<open>
  \<open>transcribe\<close> and \<open>diarize\<close>. \<open>installed\<close> says whether the libraries can be imported, \<open>models\<close>
  whether both model files are there; \<open>segments\<close> are the segments of the speech model, \<open>rate\<close> the
  rate of the diarization engine once it is built, \<open>audio\<close> what \<open>soundfile.read\<close> returns, and
  \<open>engine\<close> the items of the engine's sorted result for the samples mixed to one channel. A
  \<open>RuntimeError\<close> is an \<open>AppError\<close>.
\<close>

definition transcribe :: "bool \<Rightarrow> (rat \<times> rat \<times> string) list result \<Rightarrow> transcript_span list result" where
  "transcribe installed segments =
     (if \<not> installed then Inl (AppError ''Install faster-whisper to enable remote ASR'')
      else bindE segments (\<lambda>segs.
        Inr [\<lparr>span_start = s, span_end = e, span_text = py_strip t\<rparr>. (s, e, t) \<leftarrow> segs, py_strip t \<noteq> []]))"

definition diarize ::
  "bool \<Rightarrow> string \<Rightarrow> bool \<Rightarrow> int result \<Rightarrow> ('a \<times> int) result \<Rightarrow> ('a \<Rightarrow> (rat \<times> rat \<times> int) list result) \<Rightarrow>
     speaker_span list result" where
  "diarize installed model_directory models rate audio engine =
     (if \<not> installed then Inl (AppError ''Install sherpa-onnx and soundfile to enable remote diarization'')
      else if \<not> models then Inl (AppError (''Missing sherpa diarization models in '' @ model_directory))
      else bindE rate (\<lambda>expected.
        bindE audio (\<lambda>(samples, sample_rate).
        if sample_rate \<noteq> expected
        then Inl (ValueError (''Diarization requires '' @ int_str expected @ '' Hz audio, got '' @ int_str sample_rate @ '' Hz''))
        else bindE (engine samples) (\<lambda>items.
          Inr [\<lparr>speaker_start = s, speaker_end = e, speaker_name = ''speaker_'' @ int_str n\<rparr>. (s, e, n) \<leftarrow> items]))))"

section \<open>Merging\<close>

definition overlapping :: "transcript_span \<Rightarrow> speaker_span \<Rightarrow> bool" where
  "overlapping turn s \<longleftrightarrow>
     min (span_end turn) (speaker_end s) > max (span_start turn) (speaker_start s)"

definition midpoint :: "rat \<Rightarrow> rat \<Rightarrow> rat" where
  "midpoint a b = double (double (a + b) / 2)"

definition overlap_key :: "transcript_span \<Rightarrow> speaker_span \<Rightarrow> rat \<times> rat" where
  "overlap_key turn s =
     (double (min (span_end turn) (speaker_end s) - max (span_start turn) (speaker_start s)),
      - \<bar>double (midpoint (span_start turn) (span_end turn) - midpoint (speaker_start s) (speaker_end s))\<bar>)"

text \<open>The order of tuples, and \<open>max\<close> with a key and \<open>default=None\<close>: the first of the greatest.\<close>

definition key_less :: "rat \<times> rat \<Rightarrow> rat \<times> rat \<Rightarrow> bool" where
  "key_less k l \<longleftrightarrow> fst k < fst l \<or> fst k = fst l \<and> snd k < snd l"

fun py_max :: "('a \<Rightarrow> rat \<times> rat) \<Rightarrow> 'a list \<Rightarrow> 'a option" where
  "py_max key [] = None"
| "py_max key (x # xs) = Some (foldl (\<lambda>m y. if key_less (key m) (key y) then y else m) x xs)"

definition merge_spans :: "transcript_span list \<Rightarrow> speaker_span list \<Rightarrow> human_turn list" where
  "merge_spans spans speakers =
     map (\<lambda>(n, turn).
         \<lparr>turn_sequence = n,
          turn_speaker = map_option speaker_name (py_max (overlap_key turn) (filter (overlapping turn) speakers)),
          turn_start = span_start turn, turn_end = span_end turn, turn_text = span_text turn\<rparr>)
       (enumerate 0 (sort_key span_start spans))"

section \<open>Pages\<close>

text \<open>A page is its code points: the dash between two times is U+2013.\<close>

type_synonym page = "nat list"

definition form_before :: string where
  "form_before = intercalate [CHR 0x0A] [
     ''<main style='min-height:100vh;display:flex;align-items:center;justify-content:center'>'',
     ''          <form onsubmit='event.preventDefault(); WispGate.submitForm(this, {type:\"process\"})' enctype='multipart/form-data' style='display:flex;flex-direction:column;gap:12px;width:min(90vw,32rem)'>'',
     ''            <label for='recording'>Complete recording</label>'',
     ''            <input id='recording' name='recording' type='file' accept='audio/*,.wav,.mp3,.m4a' required>'',
     ''            <button type='submit'>Transcribe and diarize</button>'',
     ''            '']"

definition form_after :: string where
  "form_after = intercalate [CHR 0x0A] [[], ''          </form>'', ''        </main>'']"

definition render_form :: "string \<Rightarrow> page" where
  "render_form message =
     (let notice = (if message \<noteq> [] then ''<p role='alert'>'' @ html_escape message @ ''</p>'' else [])
      in map code (form_before @ notice @ form_after))"

text \<open>The format \<open>.2f\<close> rounds the exact value to two decimals, ties to even.\<close>

definition fixed2 :: "rat \<Rightarrow> string" where
  "fixed2 x =
     (let n = round_even (\<bar>x\<bar> * 100)
      in (if x < 0 then ''-'' else []) @ int_str (n div 100) @ ''.'' @ int_str (n mod 100 div 10) @ int_str (n mod 10))"

definition render_turn :: "human_turn \<Rightarrow> page" where
  "render_turn t =
     (let speaker = (case turn_speaker t of Some s \<Rightarrow> if s \<noteq> [] then s else ''unknown speaker'' | None \<Rightarrow> ''unknown speaker'')
      in map code (''<article><strong>'' @ html_escape speaker @ ''</strong> <time>'' @ fixed2 (turn_start t))
         @ [0x2013]
         @ map code (fixed2 (turn_end t) @ ''s</time><p>'' @ html_escape (turn_text t) @ ''</p></article>''))"

definition render_result :: "human_turn list \<Rightarrow> page" where
  "render_result turns =
     (let rows = concat (map render_turn turns)
      in map code ''<main><h1>Transcript</h1>''
         @ (if rows \<noteq> [] then rows else map code ''<p>No speech turns found.</p>'')
         @ map code ''</main>'')"

section \<open>The Wisp\<close>

text \<open>
  \<open>TranscriptionWisp\<close>: the last page, and whether the lock is held. \<open>action\<close> is cut where
  \<open>_process\<close> waits for the two engines: \<open>begin_action\<close> runs up to there, \<open>end_action\<close> from
  there on, with what \<open>gather\<close> yields, both results or the first exception; \<open>None\<close> is a
  cancellation, which no \<open>except\<close> clause catches. The lock is free when it is acquired, so that
  acquiring it does not wait.
\<close>

record transcription =
  current :: page
  locked :: bool

definition TranscriptionWisp :: transcription where
  "TranscriptionWisp = \<lparr>current = render_form [], locked = False\<rparr>"

datatype begun = Answer page | Engines uploaded_file

definition refused_recording :: "uploaded_file \<Rightarrow> page option" where
  "refused_recording recording =
     (if up_size recording \<le> 0 then Some (render_form ''Choose a non-empty recording.'')
      else if up_size recording > 2 * 1024 * 1024 * 1024 then Some (render_form ''Recordings must be 2 GiB or smaller.'')
      else None)"

definition begin_action :: "json \<Rightarrow> (string, upload) dict \<Rightarrow> transcription \<Rightarrow> begun \<times> transcription" where
  "begin_action kind files s =
     (if \<not> eq_str kind ''process'' then (Answer (current s), s)
      else case dget files ''recording'' of
        Some (OneFile recording) \<Rightarrow>
          if locked s
          then (Answer (render_form ''A recording is already being processed. Please wait for the current result.''), s)
          else (case refused_recording recording of
              Some p \<Rightarrow> (Answer p, s\<lparr>current := p\<rparr>)
            | None \<Rightarrow> (Engines recording, s\<lparr>locked := True\<rparr>))
      | _ \<Rightarrow> let p = render_form ''Upload one complete audio recording.'' in (Answer p, s\<lparr>current := p\<rparr>))"

definition end_action ::
  "'k client_env \<Rightarrow> (transcript_span list \<times> speaker_span list) result option \<Rightarrow> transcription \<Rightarrow> page option \<times> transcription" where
  "end_action env outcome s =
     (case outcome of
        Some (Inr (spans, speakers)) \<Rightarrow>
          let p = render_result (merge_spans spans speakers) in (Some p, s\<lparr>current := p, locked := False\<rparr>)
      | Some (Inl e) \<Rightarrow>
          let p = render_form (''Processing failed: '' @ exn_str env e) in (Some p, s\<lparr>current := p, locked := False\<rparr>)
      | None \<Rightarrow> (None, s\<lparr>locked := False\<rparr>))"

text \<open>
  Calls of the callbacks, by number, several at a time. \<open>gathering\<close> holds the calls inside
  \<open>gather\<close> with the results that are there already, \<open>threads\<close> the engines that run: \<open>to_thread\<close>
  does not stop a thread, neither when the other engine's exception ends the call nor when
  the call is cancelled, and the result of such a thread is dropped.
\<close>

datatype engine = Transcriber | Diarizer

datatype engine_result = Spans "transcript_span list result" | Speakers "speaker_span list result"

fun engine_of :: "engine_result \<Rightarrow> engine" where
  "engine_of (Spans _) = Transcriber"
| "engine_of (Speakers _) = Diarizer"

type_synonym gathered = "transcript_span list option \<times> speaker_span list option"

record transcription_calls =
  wisp :: transcription
  gathering :: "(nat, gathered) dict"
  threads :: "(nat \<times> engine) list"
  answers :: "(nat \<times> page) list"

datatype call_event =
    StateCall nat
  | ActionCall nat json "(string, upload) dict"
  | EngineDone nat engine_result
  | CancelCall nat

definition end_call ::
  "'k client_env \<Rightarrow> nat \<Rightarrow> (transcript_span list \<times> speaker_span list) result option \<Rightarrow> transcription_calls \<Rightarrow> transcription_calls" where
  "end_call env n outcome s =
     (let (p, w) = end_action env outcome (wisp s)
      in s\<lparr>wisp := w, gathering := dpop n (gathering s),
           answers := answers s @ (case p of Some q \<Rightarrow> [(n, q)] | None \<Rightarrow> [])\<rparr>)"

definition gather :: "'k client_env \<Rightarrow> nat \<Rightarrow> gathered \<Rightarrow> engine_result \<Rightarrow> transcription_calls \<Rightarrow> transcription_calls" where
  "gather env n found r s =
     (case (r, found) of
        (Spans (Inl e), _) \<Rightarrow> end_call env n (Some (Inl e)) s
      | (Speakers (Inl e), _) \<Rightarrow> end_call env n (Some (Inl e)) s
      | (Spans (Inr xs), (_, Some ys)) \<Rightarrow> end_call env n (Some (Inr (xs, ys))) s
      | (Speakers (Inr ys), (Some xs, _)) \<Rightarrow> end_call env n (Some (Inr (xs, ys))) s
      | (Spans (Inr xs), (_, None)) \<Rightarrow> s\<lparr>gathering := dput n (Some xs, None) (gathering s)\<rparr>
      | (Speakers (Inr ys), (None, _)) \<Rightarrow> s\<lparr>gathering := dput n (None, Some ys) (gathering s)\<rparr>)"

fun call_step :: "'k client_env \<Rightarrow> transcription_calls \<Rightarrow> call_event \<Rightarrow> transcription_calls" where
  "call_step env s (StateCall n) = s\<lparr>answers := answers s @ [(n, current (wisp s))]\<rparr>"
| "call_step env s (ActionCall n kind files) =
     (if n \<in> fst ` set (gathering s) \<union> fst ` set (threads s) then s
      else case begin_action kind files (wisp s) of
        (Answer p, w) \<Rightarrow> s\<lparr>wisp := w, answers := answers s @ [(n, p)]\<rparr>
      | (Engines _, w) \<Rightarrow> s\<lparr>wisp := w, gathering := dput n (None, None) (gathering s),
                             threads := threads s @ [(n, Transcriber), (n, Diarizer)]\<rparr>)"
| "call_step env s (EngineDone n r) =
     (if (n, engine_of r) \<notin> set (threads s) then s
      else let t = s\<lparr>threads := remove1 (n, engine_of r) (threads s)\<rparr>
           in case dget (gathering s) n of Some found \<Rightarrow> gather env n found r t | None \<Rightarrow> t)"
| "call_step env s (CancelCall n) =
     (if dget (gathering s) n = None then s else end_call env n None s)"

definition call_run :: "'k client_env \<Rightarrow> call_event list \<Rightarrow> transcription_calls" where
  "call_run env = foldl (call_step env) \<lparr>wisp = TranscriptionWisp, gathering = [], threads = [], answers = []\<rparr>"

section \<open>Merging is right\<close>

lemma key_less_simps [simp]: "\<not> key_less k k"
  by (simp add: key_less_def)

lemma key_less_trans [trans]: "key_less k l \<Longrightarrow> key_less l m \<Longrightarrow> key_less k m"
  by (auto simp: key_less_def)

lemma key_not_less_trans: "\<not> key_less k l \<Longrightarrow> key_less m l \<Longrightarrow> key_less m k"
  by (auto simp: key_less_def)

text \<open>What \<open>max\<close> picks: an element with nothing greater after it and only smaller ones before it.\<close>

definition first_greatest :: "('a \<Rightarrow> rat \<times> rat) \<Rightarrow> 'a list \<Rightarrow> 'a \<Rightarrow> bool" where
  "first_greatest key xs x =
     (\<exists>before after. xs = before @ x # after \<and> list_all (\<lambda>y. key_less (key y) (key x)) before
        \<and> list_all (\<lambda>y. \<not> key_less (key x) (key y)) after)"

lemma first_greatest_snoc:
  assumes "first_greatest key xs x"
  shows "first_greatest key (xs @ [y]) (if key_less (key x) (key y) then y else x)"
proof -
  from assms obtain before after where xs: "xs = before @ x # after"
    and b: "list_all (\<lambda>y. key_less (key y) (key x)) before"
    and a: "list_all (\<lambda>y. \<not> key_less (key x) (key y)) after"
    unfolding first_greatest_def by blast
  show ?thesis
  proof (cases "key_less (key x) (key y)")
    case True
    have "list_all (\<lambda>z. key_less (key z) (key y)) (before @ x # after)"
      using a b True by (auto simp: list_all_iff intro: key_less_trans key_not_less_trans)
    with True show ?thesis
      unfolding first_greatest_def xs by (intro exI [of _ "before @ x # after"] exI [of _ "[]"]) simp
  next
    case False
    with a b show ?thesis
      unfolding first_greatest_def xs by (intro exI [of _ before] exI [of _ "after @ [y]"]) simp
  qed
qed

lemma py_max_first_greatest: "py_max key xs = Some x \<Longrightarrow> first_greatest key xs x"
proof (induction xs arbitrary: x rule: rev_induct)
  case (snoc y ys)
  show ?case
  proof (cases ys)
    case Nil
    with snoc.prems show ?thesis unfolding first_greatest_def by (intro exI [of _ "[]"]) simp
  next
    case (Cons z zs)
    then obtain m where m: "py_max key ys = Some m" by simp
    with snoc.prems Cons have "x = (if key_less (key m) (key y) then y else m)" by auto
    with first_greatest_snoc [OF snoc.IH [OF m]] show ?thesis by simp
  qed
qed simp

lemma py_max_None [simp]: "py_max key xs = None \<longleftrightarrow> xs = []"
  by (cases xs) simp_all

text \<open>
  What the assignment is measured by, stated on its own: whether two spans share any time, for
  how long, and how far apart their middles are, the last two as the doubles Python computes.
\<close>

definition share_time :: "transcript_span \<Rightarrow> speaker_span \<Rightarrow> bool" where
  "share_time s p \<longleftrightarrow>
     span_start s < span_end s \<and> span_start s < speaker_end p \<and>
     speaker_start p < span_end s \<and> speaker_start p < speaker_end p"

definition shared_time :: "transcript_span \<Rightarrow> speaker_span \<Rightarrow> rat" where
  "shared_time s p = double (min (span_end s) (speaker_end p) - max (span_start s) (speaker_start p))"

definition middles_apart :: "transcript_span \<Rightarrow> speaker_span \<Rightarrow> rat" where
  "middles_apart s p =
     \<bar>double (double (double (span_start s + span_end s) / 2)
            - double (double (speaker_start p + speaker_end p) / 2))\<bar>"

lemma overlapping_iff: "overlapping s p \<longleftrightarrow> share_time s p"
  by (auto simp: overlapping_def share_time_def)

lemma overlap_key_less:
  "key_less (overlap_key s q) (overlap_key s p) \<longleftrightarrow>
     shared_time s q < shared_time s p \<or>
     shared_time s q = shared_time s p \<and> middles_apart s p < middles_apart s q"
  by (simp add: key_less_def overlap_key_def midpoint_def shared_time_def middles_apart_def)

lemma overlap_key_not_less:
  "\<not> key_less (overlap_key s p) (overlap_key s q) \<longleftrightarrow>
     shared_time s q < shared_time s p \<or>
     shared_time s q = shared_time s p \<and> middles_apart s p \<le> middles_apart s q"
  unfolding overlap_key_less by (auto simp: not_less)

text \<open>A choice among the elements of a list that satisfy \<open>P\<close>, in terms of the whole list.\<close>

lemma filter_eq_split:
  "filter P xs = ys @ x # zs \<Longrightarrow>
     \<exists>us vs. xs = us @ x # vs \<and> P x \<and> filter P us = ys \<and> filter P vs = zs"
  by (induction ys arbitrary: xs)
     (fastforce simp: filter_eq_Cons_iff, fastforce simp: filter_eq_Cons_iff intro: exI [of _ "_ @ _ # _"])

text \<open>The speaker a turn must have.\<close>

definition assigned :: "speaker_span list \<Rightarrow> transcript_span \<Rightarrow> human_turn \<Rightarrow> bool" where
  "assigned speakers s t \<longleftrightarrow>
     (case turn_speaker t of
        None \<Rightarrow> \<forall>p \<in> set speakers. \<not> share_time s p
      | Some name \<Rightarrow> \<exists>before p after.
          speakers = before @ p # after \<and> share_time s p \<and> name = speaker_name p
          \<and> (\<forall>q \<in> set before. share_time s q \<longrightarrow>
               shared_time s q < shared_time s p
               \<or> shared_time s q = shared_time s p \<and> middles_apart s p < middles_apart s q)
          \<and> (\<forall>q \<in> set after. share_time s q \<longrightarrow>
               shared_time s q < shared_time s p
               \<or> shared_time s q = shared_time s p \<and> middles_apart s p \<le> middles_apart s q))"

lemma first_greatest_among:
  assumes "first_greatest (overlap_key s) (filter (overlapping s) speakers) p"
  shows "assigned speakers s (t\<lparr>turn_speaker := Some (speaker_name p)\<rparr>)"
proof -
  from assms obtain ys zs where split: "filter (overlapping s) speakers = ys @ p # zs"
    and ys: "list_all (\<lambda>q. key_less (overlap_key s q) (overlap_key s p)) ys"
    and zs: "list_all (\<lambda>q. \<not> key_less (overlap_key s p) (overlap_key s q)) zs"
    unfolding first_greatest_def by blast
  from filter_eq_split [OF split] obtain us vs where
    "speakers = us @ p # vs" "overlapping s p" "filter (overlapping s) us = ys" "filter (overlapping s) vs = zs"
    by blast
  moreover from this ys zs have
    "\<forall>q \<in> set us. share_time s q \<longrightarrow> shared_time s q < shared_time s p \<or>
       shared_time s q = shared_time s p \<and> middles_apart s p < middles_apart s q"
    "\<forall>q \<in> set vs. share_time s q \<longrightarrow> shared_time s q < shared_time s p \<or>
       shared_time s q = shared_time s p \<and> middles_apart s p \<le> middles_apart s q"
    unfolding overlap_key_not_less [symmetric] overlap_key_less [symmetric] overlapping_iff [symmetric]
    by (auto simp: list_all_iff)
  ultimately show ?thesis
    unfolding assigned_def overlapping_iff by fastforce
qed

lemma assigned_py_max:
  assumes "turn_speaker t = map_option speaker_name (py_max (overlap_key s) (filter (overlapping s) speakers))"
  shows "assigned speakers s t"
proof (cases "py_max (overlap_key s) (filter (overlapping s) speakers)")
  case None
  with assms show ?thesis by (auto simp: assigned_def filter_empty_conv overlapping_iff)
next
  case (Some p)
  with assms have "t = t\<lparr>turn_speaker := Some (speaker_name p)\<rparr>" by simp
  with first_greatest_among [OF py_max_first_greatest [OF Some], of t] show ?thesis by simp
qed

text \<open>C16: every transcript span becomes one turn with its times and text, in the order of the
  starting times and, where these are equal, in the order of the engine, numbered from 0. A turn
  has no speaker exactly when no speaker span shares any time with it. Otherwise its speaker
  is that of a span that shares time with it such that every such span before it in the list shares
  strictly less time, or as much with its middle strictly farther away, and every such span
  after it shares less time, or as much with its middle at least as far away.\<close>

theorem merge_spans_correct:
  "\<exists>ordered. mset ordered = mset spans \<and> sorted (map span_start ordered)
     \<and> (\<forall>t. filter (\<lambda>s. span_start s = t) ordered = filter (\<lambda>s. span_start s = t) spans)
     \<and> map (\<lambda>t. (turn_sequence t, turn_start t, turn_end t, turn_text t)) (merge_spans spans speakers)
         = map (\<lambda>(n, s). (n, span_start s, span_end s, span_text s)) (enumerate 0 ordered)
     \<and> list_all2 (\<lambda>s t. case turn_speaker t of
           None \<Rightarrow> \<forall>p \<in> set speakers. \<not> share_time s p
         | Some name \<Rightarrow> \<exists>before p after.
             speakers = before @ p # after \<and> share_time s p \<and> name = speaker_name p
             \<and> (\<forall>q \<in> set before. share_time s q \<longrightarrow>
                  shared_time s q < shared_time s p
                  \<or> shared_time s q = shared_time s p \<and> middles_apart s p < middles_apart s q)
             \<and> (\<forall>q \<in> set after. share_time s q \<longrightarrow>
                  shared_time s q < shared_time s p
                  \<or> shared_time s q = shared_time s p \<and> middles_apart s p \<le> middles_apart s q))
         ordered (merge_spans spans speakers)"
  unfolding assigned_def [symmetric]
proof (intro exI conjI allI)
  let ?o = "sort_key span_start spans"
  show "mset ?o = mset spans" "sorted (map span_start ?o)" by simp_all
  show "filter (\<lambda>s. span_start s = t) ?o = filter (\<lambda>s. span_start s = t) spans" for t
    by (rule sort_key_stable)
  show "map (\<lambda>t. (turn_sequence t, turn_start t, turn_end t, turn_text t)) (merge_spans spans speakers)
      = map (\<lambda>(n, s). (n, span_start s, span_end s, span_text s)) (enumerate 0 ?o)"
    by (simp add: merge_spans_def case_prod_beta)
  show "list_all2 (assigned speakers) ?o (merge_spans spans speakers)"
    unfolding merge_spans_def list_all2_conv_all_nth
    by (auto simp: nth_enumerate_eq case_prod_beta intro!: assigned_py_max)
qed

section \<open>The lock and the pages\<close>

text \<open>The characters that can end a text in the markup.\<close>

definition page_markup :: "page \<Rightarrow> page" where
  "page_markup p = filter (\<lambda>c. c \<in> {0x22, 0x27, 0x3C, 0x3E}) p"

lemma page_markup_append [simp]: "page_markup (p @ q) = page_markup p @ page_markup q"
  by (simp add: page_markup_def)

lemma page_markup_concat [simp]: "page_markup (concat ps) = concat (map page_markup ps)"
  by (induction ps) (simp_all add: page_markup_def)

definition text_markup :: "string \<Rightarrow> string" where
  "text_markup s = filter (\<lambda>c. c = CHR 0x22 \<or> c = CHR 0x27 \<or> c = CHR ''<'' \<or> c = CHR ''>'') s"

lemma text_markup_simps [simp]:
  "text_markup [] = []"
  "text_markup (c # s) =
     (if c = CHR 0x22 \<or> c = CHR 0x27 \<or> c = CHR ''<'' \<or> c = CHR ''>'' then c # text_markup s else text_markup s)"
  "text_markup (s @ t) = text_markup s @ text_markup t"
  by (simp_all add: text_markup_def)

lemma code_eq_iff: "code c = code d \<longleftrightarrow> c = d"
  using code_inject by blast

lemma page_markup_map: "page_markup (map code s) = map code (text_markup s)"
proof -
  have eq: "{0x22, 0x27, 0x3C, 0x3E} = code ` {CHR 0x22, CHR 0x27, CHR ''<'', CHR ''>''}" by (simp add: code_def)
  have "code c \<in> {0x22, 0x27, 0x3C, 0x3E} \<longleftrightarrow> c = CHR 0x22 \<or> c = CHR 0x27 \<or> c = CHR ''<'' \<or> c = CHR ''>''" for c
    unfolding eq by (subst inj_image_mem_iff) (auto intro: injI code_inject)
  then show ?thesis unfolding page_markup_def by (simp add: filter_map o_def text_markup_def)
qed

lemma text_markup_escape [simp]: "text_markup (html_escape s) = []"
  by (induction s) (simp_all add: html_escape_def)

lemma text_markup_digits [simp]: "text_markup (nat_str n) = []"
proof (induction n rule: nat_str.induct)
  case (1 n)
  have "text_markup [digit_char d] = []" if "d < 10" for d
  proof -
    have "code (digit_char d) = 48 + d" using that by (simp add: digit_char_def)
    with that show ?thesis by (auto simp: code_def)
  qed
  from this [of "n mod 10"] this [of n] 1 show ?case
    by (cases "n < 10") (simp_all add: nat_str.simps [of n] del: text_markup_simps(2))
qed

lemma text_markup_fixed2 [simp]: "text_markup (fixed2 x) = []"
  by (simp add: fixed2_def Let_def int_str_def)

text \<open>A turn without any text of an engine, and the markup a page may have: that of a page without such text.\<close>

definition blank_turn :: human_turn where
  "blank_turn = \<lparr>turn_sequence = 0, turn_speaker = None, turn_start = 0, turn_end = 0, turn_text = []\<rparr>"

definition template_page :: "page \<Rightarrow> bool" where
  "template_page p \<longleftrightarrow>
     page_markup p = page_markup (render_form []) \<or> page_markup p = page_markup (render_form ''message'') \<or>
     (\<exists>n. page_markup p = page_markup (render_result (replicate n blank_turn)))"

lemma page_markup_form: "m \<noteq> [] \<Longrightarrow> page_markup (render_form m) = page_markup (render_form ''message'')"
  by (simp only: render_form_def Let_def page_markup_map) simp

lemma template_form: "template_page (render_form m)"
  using page_markup_form [of m] by (cases "m = []") (auto simp: template_page_def)

lemma page_markup_turn: "page_markup (render_turn t) = page_markup (render_turn blank_turn)"
  by (simp only: render_turn_def Let_def page_markup_append page_markup_map) (simp add: blank_turn_def split: option.split)

lemma render_turn_not_Nil: "render_turn t \<noteq> []"
  by (simp add: render_turn_def Let_def)

lemma page_markup_result: "page_markup (render_result ts) = page_markup (render_result (replicate (length ts) blank_turn))"
proof -
  let ?r = "\<lambda>us. concat (map render_turn us)"
  have "?r ts = [] \<longleftrightarrow> ?r (replicate (length ts) blank_turn) = []" by (cases ts) (simp_all add: render_turn_not_Nil)
  moreover have "page_markup (?r ts) = page_markup (?r (replicate (length ts) blank_turn))"
  proof (induction ts)
    case (Cons t ts)
    then show ?case using page_markup_turn [of t] by simp
  qed simp
  ultimately show ?thesis by (auto simp only: render_result_def Let_def page_markup_append split: if_split)
qed

lemma template_result: "template_page (render_result ts)"
  using page_markup_result [of ts] unfolding template_page_def by blast

definition calls_ok :: "transcription_calls \<Rightarrow> bool" where
  "calls_ok s \<longleftrightarrow> wf_dict (gathering s) \<and> length (gathering s) = of_bool (locked (wisp s)) \<and>
     template_page (current (wisp s)) \<and> list_all (\<lambda>(n, p). template_page p) (answers s)"

lemma begin_action_ok:
  assumes "begin_action kind files s = (b, t)" and "template_page (current s)"
  shows "template_page (current t) \<and>
     (case b of Answer p \<Rightarrow> template_page p \<and> locked t = locked s | Engines f \<Rightarrow> \<not> locked s \<and> locked t)"
  using assms template_form
  by (auto simp: begin_action_def refused_recording_def Let_def split: if_splits option.splits upload.splits)

lemma end_action_ok:
  assumes "end_action env outcome s = (p, t)" and "template_page (current s)"
  shows "template_page (current t) \<and> \<not> locked t \<and> pred_option template_page p"
  using assms template_form template_result
  by (auto simp: end_action_def Let_def split: option.splits sum.splits)

lemma one_gathering:
  "calls_ok s \<Longrightarrow> dget (gathering s) n = Some f \<Longrightarrow> gathering s = [(n, f)] \<and> locked (wisp s)"
  by (cases "gathering s" rule: remdups_adj.cases) (auto simp: calls_ok_def of_bool_def split: if_splits)

lemma end_call_ok:
  assumes "calls_ok s" and "dget (gathering s) n = Some f"
  shows "calls_ok (end_call env n outcome s)"
proof -
  obtain p w where run: "end_action env outcome (wisp s) = (p, w)" by force
  have "gathering s = [(n, f)]" using one_gathering [OF assms] by simp
  with end_action_ok [OF run] assms(1) show ?thesis
    by (cases p) (auto simp: end_call_def run calls_ok_def)
qed

lemma gather_ok:
  assumes "calls_ok s" and "dget (gathering s) n = Some f"
  shows "calls_ok (gather env n f r s)"
proof -
  have "calls_ok (s\<lparr>gathering := dput n g (gathering s)\<rparr>)" for g
    using assms one_gathering [OF assms] by (simp add: calls_ok_def wf_dict_def)
  with end_call_ok [OF assms, of env] show ?thesis
    by (simp add: gather_def split: engine_result.split sum.split prod.split option.split)
qed

lemma call_step_ok:
  assumes "calls_ok s"
  shows "calls_ok (call_step env s e)"
proof (cases e)
  case (ActionCall n kind files)
  obtain b w where "begin_action kind files (wisp s) = (b, w)" by force
  with begin_action_ok [OF this] assms ActionCall show ?thesis
    by (cases b) (auto simp: calls_ok_def wf_dict_def)
next
  case (EngineDone n r)
  have "calls_ok (s\<lparr>threads := ts\<rparr>)" for ts using assms by (simp add: calls_ok_def)
  with assms show ?thesis by (auto simp: EngineDone Let_def gather_ok split: option.split)
next
  case (CancelCall n)
  with assms show ?thesis by (cases "dget (gathering s) n") (simp_all add: end_call_ok)
qed (use assms in \<open>simp add: calls_ok_def\<close>)

lemma call_run_ok: "calls_ok (call_run env es)"
proof -
  have "calls_ok s \<Longrightarrow> calls_ok (foldl (call_step env) s es)" for s
    by (induction es arbitrary: s) (simp_all add: call_step_ok)
  moreover have "calls_ok \<lparr>wisp = TranscriptionWisp, gathering = [], threads = [], answers = []\<rparr>"
    by (simp add: calls_ok_def TranscriptionWisp_def template_form)
  ultimately show ?thesis unfolding call_run_def by blast
qed

text \<open>C18: the lock is held exactly while a call waits for the engines, and one call at most waits
  for them, whatever calls come and end in whatever order, by results, an exception or a
  cancellation; a recording that comes meanwhile is refused and changes nothing.\<close>

theorem transcriptions_one_at_a_time:
  "length (gathering (call_run env es)) = of_bool (locked (wisp (call_run env es)))"
  using call_run_ok [of env es] by (simp add: calls_ok_def)

text \<open>C17: every page the Wisp holds or answers has the markup of one of its templates: the recognised
  speech, the names of the speakers and the messages of exceptions add no quote and no bracket.\<close>

theorem transcription_pages_well_formed:
  "template_page (current (wisp (call_run env es))) \<and>
   list_all (\<lambda>(n, p). template_page p) (answers (call_run env es))"
  using call_run_ok [of env es] by (simp add: calls_ok_def)

text \<open>
  The lock does not cover the engines' threads: when one engine raises, the call ends and the
  lock is free while the other engine still runs.
\<close>

text \<open>C19: an exception of the transcriber frees the lock while the diarizer is still at work, so that a
  second recording is taken and its diarization runs beside the first one's on the same engine.\<close>

theorem engines_overlap_after_failure:
  assumes "0 < up_size f" and "up_size f \<le> 2147483648"
  shows "threads (call_run env [ActionCall 1 (JStr ''process'') [(''recording'', OneFile f)],
                    EngineDone 1 (Spans (Inl e)),
                    ActionCall 2 (JStr ''process'') [(''recording'', OneFile f)]])
         = [(1, Diarizer), (2, Transcriber), (2, Diarizer)]"
proof -
  have "refused_recording f = None" using assms by (simp add: refused_recording_def)
  then show ?thesis
    by (simp add: call_run_def TranscriptionWisp_def begin_action_def gather_def end_call_def end_action_def Let_def)
qed

definition demo_recording :: uploaded_file where
  "demo_recording = \<lparr>up_field = ''recording'', up_name = ''a.wav'', up_type = ''audio/wav'', up_size = 3, up_data = [1, 2, 3]\<rparr>"

lemma engines_overlap_after_failure_witness:
  "\<forall>env :: 'k client_env. (1, Diarizer) \<in> set (threads (call_run env [ActionCall 1 (JStr ''process'') [(''recording'', OneFile demo_recording)],
                    EngineDone 1 (Spans (Inl (AppError ''no model''))),
                    ActionCall 2 (JStr ''process'') [(''recording'', OneFile demo_recording)]]))"
proof
  fix env :: "'k client_env"
  show "(1, Diarizer) \<in> set (threads (call_run env [ActionCall 1 (JStr ''process'') [(''recording'', OneFile demo_recording)],
                    EngineDone 1 (Spans (Inl (AppError ''no model''))),
                    ActionCall 2 (JStr ''process'') [(''recording'', OneFile demo_recording)]]))"
    by (subst engines_overlap_after_failure) (simp_all add: demo_recording_def)
qed

text \<open>Three speakers talk as long in one turn, the last two equally near: the second is named.\<close>

lemma merge_spans_correct_witness:
  "\<exists>ordered t.
     mset ordered = {#\<lparr>span_start = 0, span_end = 10, span_text = ''hi''\<rparr>#} \<and>
     merge_spans [\<lparr>span_start = 0, span_end = 10, span_text = ''hi''\<rparr>]
       [\<lparr>speaker_start = 0, speaker_end = 4, speaker_name = ''a''\<rparr>,
        \<lparr>speaker_start = 3, speaker_end = 7, speaker_name = ''b''\<rparr>,
        \<lparr>speaker_start = 3, speaker_end = 7, speaker_name = ''c''\<rparr>] = [t] \<and>
     turn_speaker t = Some ''b'' \<and>
     list_all2 (assigned [\<lparr>speaker_start = 0, speaker_end = 4, speaker_name = ''a''\<rparr>,
        \<lparr>speaker_start = 3, speaker_end = 7, speaker_name = ''b''\<rparr>,
        \<lparr>speaker_start = 3, speaker_end = 7, speaker_name = ''c''\<rparr>]) ordered [t]"
proof -
  let ?s = "[\<lparr>span_start = 0, span_end = 10, span_text = ''hi''\<rparr>]"
  let ?p = "[\<lparr>speaker_start = 0, speaker_end = 4, speaker_name = ''a''\<rparr>,
    \<lparr>speaker_start = 3, speaker_end = 7, speaker_name = ''b''\<rparr>,
    \<lparr>speaker_start = 3, speaker_end = 7, speaker_name = ''c''\<rparr>]"
  have run: "merge_spans ?s ?p = [\<lparr>turn_sequence = 0, turn_speaker = Some ''b'', turn_start = 0,
      turn_end = 10, turn_text = ''hi''\<rparr>]"
    by code_simp
  with merge_spans_correct [of ?s ?p, folded assigned_def] show ?thesis
    by auto
qed

end
