(* ===== verification/Drivers.thy ===== *)
theory Drivers
  imports Configuration Examples QrWisp Transcription
begin

text \<open>
  The launchers \<open>run_prime.py\<close>, \<open>run_qr.py\<close> and \<open>run_transcription.py\<close>: each looks for a configuration,
  loads it, registers its one Wisp and serves. \<open>asyncio.run(runtime.serve())\<close> is the runtime that
  \<open>runtime_start\<close> begins; logging and the message after an interrupt are left out.
\<close>

section \<open>The configuration a launcher finds\<close>

text \<open>\<open>working\<close> is the current directory, \<open>here\<close> the directory of the launcher; a \<open>Path\<close> is always true.\<close>

definition find_serverinfo :: "'k disk_files \<Rightarrow> string option \<Rightarrow> string \<Rightarrow> string \<Rightarrow> path" where
  "find_serverinfo m cwd working here =
     (let launch_directory = (case cwd of Some d \<Rightarrow> d | None \<Rightarrow> working);
          serverinfo = (launch_directory, ''serverinfo.txt'')
      in if dget (configurations m) serverinfo \<noteq> None then serverinfo else (here, ''serverinfo.txt''))"

section \<open>The launchers\<close>

text \<open>
  What they share: load, register one Wisp, and be ready to serve. \<open>left\<close> are the directories that
  are in the transfer directory by then.
\<close>

definition started :: "'w wisp \<Rightarrow> 'w \<Rightarrow> nat list \<Rightarrow> time \<Rightarrow> 'k loaded \<Rightarrow> 'w runtime" where
  "started w u left now' l = runtime_start [w] u (loaded_peers l) left now'"

definition run_prime :: "'k \<Rightarrow> string \<Rightarrow> string \<Rightarrow> nat list \<Rightarrow> time \<Rightarrow> ('k disk_files, 'k loaded \<times> jdict runtime) act" where
  "run_prime fresh working here left now' =
     andthen (gets (\<lambda>m. find_serverinfo m None working here)) (\<lambda>config_path.
     andthen (load_runtime fresh config_path False) (\<lambda>l.
     ret (l, started prime_wisp (prime_render []) left now' l)))"

definition run_qr ::
  "(string \<Rightarrow> bool) \<Rightarrow> (string \<Rightarrow> bytes result) \<Rightarrow> 'k \<Rightarrow> string \<Rightarrow> string \<Rightarrow> nat list \<Rightarrow> time
     \<Rightarrow> ('k disk_files, 'k loaded \<times> response runtime) act" where
  "run_qr bracketed make_png fresh working here left now' =
     andthen (gets (\<lambda>m. find_serverinfo m None working here)) (\<lambda>config_path.
     andthen (load_runtime fresh config_path False) (\<lambda>l.
     ret (l, started (qr_wisp bracketed make_png) (qr_form []) left now' l)))"

text \<open>The two flags of the transcription launcher, as \<open>argparse\<close> hands them over.\<close>

record launcher_options =
  debug :: bool
  reset_peer_trust :: bool

text \<open>\<open>as_wisp\<close> with the two callbacks; the action is the coroutine that \<open>Transcription\<close> cuts in steps.\<close>

definition transcription_wisp :: "'w state_callback \<Rightarrow> 'w action_callback \<Rightarrow> 'w wisp" where
  "transcription_wisp state_callback action_callback =
     \<lparr>wisp_id = ''transcription-diarization'', wisp_name = ''Transcription and diarization'',
      wisp_description = ''Transcribes and separates speakers from one complete audio recording'',
      wisp_state = state_callback, wisp_action = action_callback\<rparr>"

definition run_transcription ::
  "transcription state_callback \<Rightarrow> transcription action_callback \<Rightarrow> launcher_options \<Rightarrow> 'k \<Rightarrow> string \<Rightarrow> string \<Rightarrow> nat list \<Rightarrow> time
     \<Rightarrow> ('k disk_files, 'k loaded \<times> transcription runtime) act" where
  "run_transcription state_callback action_callback args fresh working here left now' =
     andthen (gets (\<lambda>m. find_serverinfo m None working here)) (\<lambda>config_path.
     andthen (load_runtime fresh config_path (reset_peer_trust args)) (\<lambda>l.
     ret (l, started (transcription_wisp state_callback action_callback) TranscriptionWisp left now' l)))"

section \<open>What a launcher starts\<close>

text \<open>A runtime that offers its one Wisp and is not connected, with the peer keys of its store.\<close>

lemma started_runtime [simp]:
  "registered (client (started w u left now' l)) = [(wisp_id w, w)]" "loop (started w u left now' l) = LoopEnded"
  "peer_keys (client (started w u left now' l)) = load_peers (loaded_peers l)" "world (client (started w u left now' l)) = u"
  "writer (client (started w u left now' l)) = None" "calls (client (started w u left now' l)) = []"
  by (simp_all add: started_def runtime_start_def register_def AppserveClient_def)

lemma found_again: "configurations t = configurations m \<Longrightarrow> find_serverinfo t cwd working here = find_serverinfo m cwd working here"
  by (simp add: find_serverinfo_def)

lemma load_keeps_configurations:
  "load_runtime fresh p reset m = (Inr r, t) \<Longrightarrow> configurations t = configurations m"
  by (auto simp: load_runtime_def andthen_Inr whenA_def Let_def dest!: load_or_create_identity_cases split: if_splits)

lemma run_prime_Inr:
  "run_prime fresh working here left now' m = (Inr (l, rt), t) \<longleftrightarrow>
     load_runtime fresh (find_serverinfo m None working here) False m = (Inr l, t) \<and> rt = started prime_wisp (prime_render []) left now' l"
  by (auto simp: run_prime_def andthen_Inr)

lemma run_qr_Inr:
  "run_qr bracketed make_png fresh working here left now' m = (Inr (l, rt), t) \<longleftrightarrow>
     load_runtime fresh (find_serverinfo m None working here) False m = (Inr l, t) \<and>
     rt = started (qr_wisp bracketed make_png) (qr_form []) left now' l"
  by (auto simp: run_qr_def andthen_Inr)

lemma run_transcription_Inr:
  "run_transcription sc ac args fresh working here left now' m = (Inr (l, rt), t) \<longleftrightarrow>
     load_runtime fresh (find_serverinfo m None working here) (reset_peer_trust args) m = (Inr l, t) \<and>
     rt = started (transcription_wisp sc ac) TranscriptionWisp left now' l"
  by (auto simp: run_transcription_def andthen_Inr)

text \<open>
  Started from one directory, two of the examples are one endpoint: the second gets the id, the
  key and the stored peers of the first, so at the relay, which keeps one session and the
  registrations of one connection for an endpoint, each replaces the other.
\<close>

theorem launchers_share_an_endpoint:
  assumes "run_prime fresh working here left now' m = (Inr (l, rt), t)"
  shows "run_qr bracketed make_png fresh' working here left' now'' t
    = (Inr (l, started (qr_wisp bracketed make_png) (qr_form []) left' now'' l), t)"
proof -
  have l: "load_runtime fresh (find_serverinfo m None working here) False m = (Inr l, t)"
    using assms by (simp add: run_prime_Inr)
  then show ?thesis
    using load_finds_files [OF load_leaves_files [OF l], of fresh'] found_again [OF load_keeps_configurations [OF l]] by (simp add: run_qr_Inr)
qed

text \<open>\<open>--reset-peer-trust\<close> forgets the stored peers, for this start and the next.\<close>

lemma reset_forgets:
  assumes "load_runtime fresh p True m = (Inr l, t)"
  shows "loaded_peers l = None"
  using assms by (auto simp: load_runtime_def andthen_Inr Let_def whenA_def dest!: load_or_create_identity_cases)

theorem reset_forgets_peers:
  assumes "run_transcription sc ac args fresh working here left now' m = (Inr (l, rt), t)" and "reset_peer_trust args"
    and "run_transcription sc ac args' fresh' working here left' now'' t = (Inr (l', rt'), t')"
  shows "peer_keys (client rt) = [] \<and> peer_keys (client rt') = []"
proof -
  have l: "load_runtime fresh (find_serverinfo m None working here) True m = (Inr l, t)"
    and rt: "rt = started (transcription_wisp sc ac) TranscriptionWisp left now' l"
    and l': "load_runtime fresh' (find_serverinfo t None working here) (reset_peer_trust args') t = (Inr l', t')"
    and rt': "rt' = started (transcription_wisp sc ac) TranscriptionWisp left' now'' l'"
    using assms by (simp_all add: run_transcription_Inr)
  have none: "loaded_peers l = None" by (rule reset_forgets [OF l])
  have "loaded_peers l' = None"
  proof (cases "reset_peer_trust args'")
    case True
    with l' show ?thesis by (auto intro: reset_forgets)
  next
    case False
    with l' load_finds_files [OF load_leaves_files [OF l], of fresh'] found_again [OF load_keeps_configurations [OF l]] none show ?thesis by simp
  qed
  with none rt rt' show ?thesis by (simp add: load_peers_def)
qed

end
