(* ===== verification/Spec2Isabelle.thy ===== *)
theory Spec2Isabelle
  imports RelaySystem Bootstrap ClientTrust ComesOnline Drivers
begin

text \<open>
  A verification library for WispGate: small applications (Wisps) run beside a Python runtime, a
  user's Android device talks to them, and a relay that both connect to forwards end-to-end
  encrypted messages between them. The library follows the Python code of the repository, the
  relay under \<open>src/server/appserve_server\<close> and the runtime under \<open>src/appserve\<close>.

  The parts and their theories:

  \<^item> \<open>Prelude\<close>: exceptions, results as sums, insertion-ordered dictionaries, the
    state-and-exception operations (\<open>andthen\<close>, \<open>catch\<close>, \<open>each\<close>) and the locale
    \<open>effect_relation\<close>: a reflexive and transitive relation on states that single operations keep is
    kept by everything composed of them. Every invariant and frame argument below is an
    interpretation of it.
  \<^item> \<open>PyValue\<close>, \<open>PyText\<close>, \<open>JsonParse\<close>, \<open>Base64\<close>: Python values as they come out of
    \<open>json.loads\<close>, truth and equality, \<open>str()\<close>, UTF-8, \<open>json.dumps\<close> and \<open>json.loads\<close> with their
    round trip, and the two base64 alphabets.
  \<^item> \<open>Session\<close>, \<open>Crypto\<close>, \<open>Envelope\<close>: \<open>appserve/e2e.py\<close>. The symmetric session
    \<open>PeerSession\<close> (counters, nonces, associated data, lifetime) and the RSA envelope of the
    handshake.
  \<^item> \<open>Bootstrap\<close>: \<open>appserve/bootstrap.py\<close> and the functions of \<open>core.py\<close> that answer it, and the
    join payload.
  \<^item> \<open>RelayState\<close>: \<open>core.py\<close>'s \<open>RelayState\<close>: endpoint records, administrators, queues, Wisp
    registrations, and the file they are saved to.
  \<^item> \<open>Relay\<close>, \<open>RelayAuth\<close>, \<open>RelayHandlers\<close>, \<open>RelaySystem\<close>: \<open>service.py\<close>: catalog,
    presence and management; endpoint authentication; the relay and control handlers as step
    functions; and the relay with any number of connections whose handlers are interleaved.
  \<^item> \<open>Bulk\<close>: the bulk lane of \<open>service.py\<close>: pairing of two connections and the byte pipe.
  \<^item> \<open>Client\<close>, \<open>ClientFiles\<close>, \<open>ClientDispatch\<close>: \<open>appserve/client.py\<close>: state, trust on first use and
    handshake; file actions, bulk files and response assets; dispatch, event loop, and the
    running runtime \<open>runtime_step\<close>, whose happenings are the messages, callback outcomes, files,
    losses, reconnections, restarts and the passing of time in any order. A peer is named by the
    \<open>sender\<close> of its messages as it was decoded, any hashable value: the tables are keyed by
    \<open>ident\<close>, which is Python's equality of keys, and the peer store is written as \<open>json.dumps\<close>
    writes such keys, or not at all. A restart kills the process anywhere and starts the next one
    on the same disk: the peer store, unless \<open>--reset-peer-trust\<close> deletes it, and the temporary
    directories that are left.
  \<^item> \<open>ClientOperations\<close>, \<open>ClientTransfers\<close>, \<open>ClientAnswers\<close>, \<open>ClientBulk\<close>, \<open>ClientTrust\<close>,
    \<open>ClientConnect\<close>: what the runtime promises: operations are executed at most once while an
    answer is retained; transfers stay within their limits, and the directories on disk are theirs
    and those of earlier processes; a bulk file arrives unchanged through sender, relay and receiver;
    the handshake leaves paired sessions; peer keys, as long as peers are named by text, and the
    relay's certificate are pinned; a known runtime gets through the relay's authentication.
  \<^item> \<open>EndToEnd\<close>, \<open>ComesOnline\<close>: the compositions of session, relay and runtime: an action from the
    endpoint's session to the Wisp's callback and the answer all the way back, through \<open>relay_step\<close> and
    \<open>runtime_step\<close>; and a whole \<open>serve_once\<close> against \<open>control_step\<close> and \<open>relay_step\<close>, until the
    catalogs list the runtime's Wisps.
  \<^item> \<open>Deployment\<close>: the start of the relay, \<open>__main__.py\<close>, \<open>serve\<close> and \<open>generate_server_keypair\<close>, and
    the relay stopped and started again on its state file any number of times: it always comes
    up, with one administrator and the keys it had on record.
  \<^item> \<open>Configuration\<close>: the start of a runtime, \<open>load\<close> and \<open>load_or_create_identity\<close>: a load is stable,
    keeps to its own files, and brings the relay's key to the runtime.
  \<^item> \<open>Examples\<close>, \<open>QrWisp\<close>, \<open>Transcription\<close>: the prime tester, the QR code maker and the transcription of
    recordings under \<open>examples\<close>: trial division against the definition of a prime; what the QR code
    maker makes codes of, and that they never arrive; the merging of speech with speakers, the
    lock and the pages.
  \<^item> \<open>Drivers\<close>: the launchers \<open>run_prime\<close>, \<open>run_qr\<close> and \<open>run_transcription\<close>: what they start, and that those
    started from one directory are one endpoint.

  How code becomes definitions. A definition has the name of the function it models where that
  is free; the methods of an object are functions on a record of its fields. A coroutine is cut where it
  waits for a line, a file or a callback, and steps of different coroutines interleave there and
  only there: a send completes within its step. An exception is the left side of a sum, and the
  state survives it. The callbacks of a Wisp are parameters, functions on a world of which nothing
  is assumed. RSA, AES-GCM, HKDF, HMAC and SHA-256 are parameters; what is relied on of them is
  named where it is used: \<open>rsa_correct\<close>, \<open>oaep_correct\<close>, \<open>pss_unforgeable\<close>, \<open>aead_correct\<close>, \<open>aead_authentic\<close>,
  \<open>aead_tagged\<close>; concrete instances that meet them are in the witnesses. Random values are arguments; the keys of the challenge
  table are drawn fresh.

  Limits of the representation. Text is a list of characters up to U+00FF, and JSON escapes above
  that, \<open>NaN\<close> and infinities are decoding errors; only the transcript pages, which need more, are lists of code
  points. Floats of a document are their decimal literals, those of the transcription are the values of
  doubles with every operation rounded to nearest even, clocks are
  rational. A file on disk is the document or the bytes it holds; errors of the disk are not
  represented, nor is the plaintext of a bulk file that is on disk before its tag is checked. Logging
  appears only where it can raise. A connection is a number; writing to one that was lost raises,
  and what is written to one this side closed is dropped. \<open>allow_enrollment\<close>, which every caller leaves
  at its default, is left out. The lock of the bulk lane has no effect, because no task waits while it
  holds it. A step of the runtime that would wait for the relay is taken when there is a writer. The ghost field \<open>calls\<close>
  of \<open>client\<close> records the invocations of action callbacks.

  Loops are structural, or terminate by a measure (\<open>copy_bulk\<close>: the bytes that remain; \<open>trial\<close>: the
  distance to the number). The JSON parser has fuel, one more than the length of the text, which
  \<open>json_loads_dumps\<close> shows to be enough for every document that is written.

  Not modelled: sockets and TLS beyond the certificate a connection shows; the generation of keys
  and the PEM format (a key file is the key it holds); the set-up of logging; what the
  third-party packages of the examples compute (\<open>qrcode\<close>, \<open>faster_whisper\<close>, \<open>sherpa_onnx\<close>), which are
  parameters; the Android application, which is not Python.
\<close>

end
